theory Spec2Isabelle
  imports Complex_Main "HOL-Library.Monad_Syntax"
begin

section \<open>The operation graph\<close>

text \<open>
  The lowering of \<^verbatim>\<open>src/pony/mlir/LowerToAffineLoops.cpp\<close> rewrites operations of the
  Pony dialect into affine loops over explicitly allocated buffers. The model keeps the
  shape of the C++: an operation is a value of a datatype, an SSA value is a numbered
  name carrying its type, the pattern rewriter is a record holding the block under
  construction and its insertion point, and every builder call of the source is a call
  of the same name here that returns the updated rewriter.

  Dimension sizes are natural numbers: the pass runs after shape inference, on static
  shapes. A failed \<^verbatim>\<open>assert\<close>, a failed \<^verbatim>\<open>cast\<close> and a read past the end of a
  sequence are the result \<open>None\<close>; a pattern that declines returns \<open>failure\<close>.
\<close>

datatype Type =
    RankedTensorType "nat list"
  | UnrankedTensorType
  | MemRefType "nat list"
  | F64Type
  | IndexType

datatype Value = Value (valueId: nat) (getType: Type)

datatype LogicalResult = success | failure

text \<open>
  The operations of the source vocabulary (dialect \<^verbatim>\<open>pony\<close>) and of the target
  vocabulary (\<^verbatim>\<open>memref\<close>, \<^verbatim>\<open>arith\<close>, \<^verbatim>\<open>affine\<close>, \<^verbatim>\<open>func\<close>). An operation with a
  result lists the result first. The element type \<open>'a\<close> stands for the floating-point
  scalars; the arithmetic on it is that of the type.
\<close>

datatype 'a Operation =
    pony_ConstantOp Value "'a list"
  | pony_AddOp Value Value Value
  | pony_MulOp Value Value Value
  | pony_GemmOp Value Value Value
  | pony_TransposeOp Value Value
  | pony_PrintOp "Value list"
  | pony_ReturnOp "Value list"
  | pony_FuncOp string "Type list" "Type list" "'a Operation list"
  | func_FuncOp string "Type list" "Type list" "'a Operation list"
  | func_ReturnOp
  | memref_AllocOp Value
  | memref_DeallocOp Value
  | arith_ConstantIndexOp Value nat
  | arith_ConstantOp Value 'a
  | arith_AddFOp Value Value Value
  | arith_MulFOp Value Value Value
  | AffineLoadOp Value Value "Value list"
  | AffineStoreOp Value Value "Value list"
  | AffineForOp Value nat nat nat "'a Operation list"
  | AffineYieldOp

section \<open>The pattern rewriter\<close>

text \<open>
  \<open>block\<close> is the list of operations of the block the rewriter works in,
  \<open>insertionPoint\<close> the index of the operation before which a new operation is
  created (the length of the block: at its end), \<open>nextValueId\<close> the next unused
  name of an SSA value, \<open>mapping\<close> the replacements recorded by \<^verbatim>\<open>replaceOp\<close>:
  a conversion pattern receives the operands of its operation through this mapping.
\<close>

record 'a PatternRewriter =
  block :: "'a Operation list"
  insertionPoint :: nat
  nextValueId :: nat
  mapping :: "Value \<Rightarrow> Value option"

definition newValue :: "Type \<Rightarrow> 'a PatternRewriter \<Rightarrow> Value \<times> 'a PatternRewriter" where
  "newValue ty rw = (Value (nextValueId rw) ty, rw\<lparr>nextValueId := Suc (nextValueId rw)\<rparr>)"

text \<open>
  \<^verbatim>\<open>rewriter.create<Op>(...)\<close>: the operation is inserted before the insertion point,
  which stays on the operation it pointed to. The position of the new operation is
  returned as its handle.
\<close>

definition create :: "'a Operation \<Rightarrow> 'a PatternRewriter \<Rightarrow> nat \<times> 'a PatternRewriter" where
  "create op rw =
     (insertionPoint rw,
      rw\<lparr>block := take (insertionPoint rw) (block rw) @ op # drop (insertionPoint rw) (block rw),
         insertionPoint := Suc (insertionPoint rw)\<rparr>)"

text \<open>
  \<^verbatim>\<open>op->moveBefore(existingOp)\<close>, on positions: the operation at \<open>i\<close> is unlinked and
  linked in again before the operation at \<open>j\<close>. Moving an operation before itself or
  before its successor changes nothing. The insertion point follows the operation it
  points to.
\<close>

definition moveBefore :: "nat \<Rightarrow> nat \<Rightarrow> 'a PatternRewriter \<Rightarrow> 'a PatternRewriter" where
  "moveBefore i j rw =
     (let b = block rw; p = insertionPoint rw in
      if i = j \<or> Suc i = j then rw
      else if i < j then
        rw\<lparr>block := take i b @ take (j - Suc i) (drop (Suc i) b) @ (b ! i) # drop j b,
           insertionPoint := (if p = i then j - 1 else if i < p \<and> p < j then p - 1 else p)\<rparr>
      else
        rw\<lparr>block := take j b @ (b ! i) # take (i - j) (drop j b) @ drop (Suc i) b,
           insertionPoint := (if p = i then j else if j \<le> p \<and> p < i then Suc p else p)\<rparr>)"

text \<open>\<^verbatim>\<open>convertTensorToMemRef\<close>: asserts that the tensor type is ranked.\<close>

fun convertTensorToMemRef :: "Type \<Rightarrow> Type option" where
  "convertTensorToMemRef (RankedTensorType shape) = Some (MemRefType shape)"
| "convertTensorToMemRef _ = None"

text \<open>
  \<^verbatim>\<open>insertAllocAndDealloc\<close>: the allocation is created at the insertion point and moved
  before the first operation of its block; the deallocation is created at the insertion
  point and moved before the last operation of the block.
\<close>

definition insertAllocAndDealloc :: "Type \<Rightarrow> 'a PatternRewriter \<Rightarrow> Value \<times> 'a PatternRewriter" where
  "insertAllocAndDealloc type rw =
     (let (alloc, rw1) = newValue type rw;
          (allocOp, rw2) = create (memref_AllocOp alloc) rw1;
          rw3 = moveBefore allocOp 0 rw2;
          (deallocOp, rw4) = create (memref_DeallocOp alloc) rw3;
          rw5 = moveBefore deallocOp (length (block rw4) - 1) rw4
      in (alloc, rw5))"


text \<open>An operation with a result: the result is a new value of the given type.\<close>

definition createResult ::
  "Type \<Rightarrow> (Value \<Rightarrow> 'a Operation) \<Rightarrow> 'a PatternRewriter \<Rightarrow> Value \<times> 'a PatternRewriter" where
  "createResult ty mk rw =
     (let (v, rw1) = newValue ty rw; (pos, rw2) = create (mk v) rw1 in (v, rw2))"

text \<open>Indexing an \<^verbatim>\<open>ArrayRef\<close> or a \<^verbatim>\<open>SmallVector\<close> asserts that the index is in range.\<close>

definition elemAt :: "'b list \<Rightarrow> nat \<Rightarrow> 'b option" where
  "elemAt xs i = (if i < length xs then Some (xs ! i) else None)"

fun getResult :: "'a Operation \<Rightarrow> Value option" where
  "getResult (pony_ConstantOp r _) = Some r"
| "getResult (pony_AddOp r _ _) = Some r"
| "getResult (pony_MulOp r _ _) = Some r"
| "getResult (pony_GemmOp r _ _) = Some r"
| "getResult (pony_TransposeOp r _) = Some r"
| "getResult (memref_AllocOp r) = Some r"
| "getResult (arith_ConstantIndexOp r _) = Some r"
| "getResult (arith_ConstantOp r _) = Some r"
| "getResult (arith_AddFOp r _ _) = Some r"
| "getResult (arith_MulFOp r _ _) = Some r"
| "getResult (AffineLoadOp r _ _) = Some r"
| "getResult _ = None"

fun getOperands :: "'a Operation \<Rightarrow> Value list" where
  "getOperands (pony_AddOp _ a b) = [a, b]"
| "getOperands (pony_MulOp _ a b) = [a, b]"
| "getOperands (pony_GemmOp _ a b) = [a, b]"
| "getOperands (pony_TransposeOp _ a) = [a]"
| "getOperands (pony_PrintOp xs) = xs"
| "getOperands (pony_ReturnOp xs) = xs"
| "getOperands (memref_DeallocOp m) = [m]"
| "getOperands (arith_AddFOp _ a b) = [a, b]"
| "getOperands (arith_MulFOp _ a b) = [a, b]"
| "getOperands (AffineLoadOp _ m ivs) = m # ivs"
| "getOperands (AffineStoreOp v m ivs) = v # m # ivs"
| "getOperands _ = []"

text \<open>\<^verbatim>\<open>type.isa<TensorType>()\<close> and the two casts of the source.\<close>

fun isaTensorType :: "Type \<Rightarrow> bool" where
  "isaTensorType (RankedTensorType _) = True"
| "isaTensorType UnrankedTensorType = True"
| "isaTensorType _ = False"

definition castTensorType :: "Type \<Rightarrow> Type option" where
  "castTensorType ty = (if isaTensorType ty then Some ty else None)"

fun castMemRefType :: "Type \<Rightarrow> Type option" where
  "castMemRefType (MemRefType shape) = Some (MemRefType shape)"
| "castMemRefType _ = None"

text \<open>\<^verbatim>\<open>getShape\<close> of a ranked tensor or of a memref; an unranked tensor has no shape.\<close>

fun getShape :: "Type \<Rightarrow> nat list option" where
  "getShape (RankedTensorType shape) = Some shape"
| "getShape (MemRefType shape) = Some shape"
| "getShape _ = None"

text \<open>
  \<^verbatim>\<open>rewriter.eraseOp(op)\<close> and \<^verbatim>\<open>rewriter.replaceOp(op, newValues)\<close>, for the operation
  under rewrite, which sits at the insertion point. The replacement of the result is
  recorded in the mapping, from which later patterns receive their operands; an
  operation without a result is replaced by no value.
\<close>

definition eraseOp :: "'a PatternRewriter \<Rightarrow> 'a PatternRewriter" where
  "eraseOp rw =
     rw\<lparr>block := take (insertionPoint rw) (block rw) @ drop (Suc (insertionPoint rw)) (block rw)\<rparr>"

definition replaceOp :: "'a Operation \<Rightarrow> Value list \<Rightarrow> 'a PatternRewriter \<Rightarrow> 'a PatternRewriter" where
  "replaceOp op newValues rw =
     eraseOp (case (getResult op, newValues) of
                (Some r, v # _) \<Rightarrow> rw\<lparr>mapping := (mapping rw)(r \<mapsto> v)\<rparr>
              | _ \<Rightarrow> rw)"

section \<open>The loop nest builder\<close>

text \<open>
  \<^verbatim>\<open>buildAffineLoopNest\<close> with constant bounds: one \<^verbatim>\<open>affine.for\<close> per bound, nested
  outermost first, each body closed by \<^verbatim>\<open>affine.yield\<close>; the body builder is called
  in the innermost loop with the induction variables, outermost first. With no bound at
  all the body builder is called once, at the insertion point, with no induction
  variable. The three lists have the same length (asserted).
\<close>

fun buildAffineLoopNest ::
  "nat list \<Rightarrow> nat list \<Rightarrow> nat list \<Rightarrow> Value list \<Rightarrow>
   (Value list \<Rightarrow> 'a PatternRewriter \<Rightarrow> 'a PatternRewriter option) \<Rightarrow>
   'a PatternRewriter \<Rightarrow> 'a PatternRewriter option" where
  "buildAffineLoopNest [] [] [] ivs bodyBuilderFn rw = bodyBuilderFn ivs rw"
| "buildAffineLoopNest (lb # lbs) (ub # ubs) (step # steps) ivs bodyBuilderFn rw =
     (let (iv, rw1) = newValue IndexType rw;
          nested = \<lparr>block = [], insertionPoint = 0, nextValueId = nextValueId rw1,
                    mapping = mapping rw1\<rparr>
      in case buildAffineLoopNest lbs ubs steps (ivs @ [iv]) bodyBuilderFn nested of
           None \<Rightarrow> None
         | Some nested' \<Rightarrow>
             Some (snd (create (AffineForOp iv lb ub step (block nested' @ [AffineYieldOp]))
                         (rw1\<lparr>nextValueId := nextValueId nested'\<rparr>))))"
| "buildAffineLoopNest _ _ _ _ _ _ = None"

text \<open>
  \<^verbatim>\<open>lowerOpToLoops\<close>: allocate the result buffer, build one loop per dimension of the
  result shape, store in the innermost loop the value \<open>processIteration\<close> returns, and
  replace the operation by the buffer.
\<close>

definition lowerOpToLoops ::
  "'a Operation \<Rightarrow> Value list \<Rightarrow>
   ('a PatternRewriter \<Rightarrow> Value list \<Rightarrow> Value list \<Rightarrow> (Value \<times> 'a PatternRewriter) option) \<Rightarrow>
   'a PatternRewriter \<Rightarrow> 'a PatternRewriter option" where
  "lowerOpToLoops op operands processIteration rw = do {
     result \<leftarrow> getResult op;
     tensorType \<leftarrow> castTensorType (getType result);
     memRefType \<leftarrow> convertTensorToMemRef tensorType;
     let (alloc, rw1) = insertAllocAndDealloc memRefType rw;
     shape \<leftarrow> getShape tensorType;
     let lowerBounds = replicate (length shape) 0;
     let steps = replicate (length shape) 1;
     rw2 \<leftarrow> buildAffineLoopNest lowerBounds shape steps []
              (\<lambda>ivs nestedBuilder. do {
                 (valueToStore, nb) \<leftarrow> processIteration nestedBuilder operands ivs;
                 Some (snd (create (AffineStoreOp valueToStore alloc ivs) nb))
               }) rw1;
     Some (replaceOp op [alloc] rw2)
   }"

section \<open>The rewrite patterns\<close>

text \<open>The adaptors of the binary operations, of the transpose and of gemm.\<close>

definition getLhs :: "Value list \<Rightarrow> Value option" where
  "getLhs operands = elemAt operands 0"

definition getRhs :: "Value list \<Rightarrow> Value option" where
  "getRhs operands = elemAt operands 1"

definition getInput :: "Value list \<Rightarrow> Value option" where
  "getInput operands = elemAt operands 0"

text \<open>
  \<^verbatim>\<open>BinaryOpLowering<BinaryOp, LoweredBinaryOp>\<close>; \<open>LoweredBinaryOp\<close> is the constructor
  of the scalar operation.
\<close>

definition BinaryOpLowering ::
  "(Value \<Rightarrow> Value \<Rightarrow> Value \<Rightarrow> 'a Operation) \<Rightarrow> 'a Operation \<Rightarrow> Value list \<Rightarrow>
   'a PatternRewriter \<Rightarrow> (LogicalResult \<times> 'a PatternRewriter) option" where
  "BinaryOpLowering LoweredBinaryOp op operands rewriter = do {
     rw \<leftarrow> lowerOpToLoops op operands
             (\<lambda>builder memRefOperands loopIvs. do {
                lhs \<leftarrow> getLhs memRefOperands;
                rhs \<leftarrow> getRhs memRefOperands;
                let (loadedLhs, b1) = createResult F64Type (\<lambda>r. AffineLoadOp r lhs loopIvs) builder;
                let (loadedRhs, b2) = createResult F64Type (\<lambda>r. AffineLoadOp r rhs loopIvs) b1;
                Some (createResult F64Type (\<lambda>r. LoweredBinaryOp r loadedLhs loadedRhs) b2)
              }) rewriter;
     Some (success, rw)
   }"

definition AddOpLowering ::
  "'a Operation \<Rightarrow> Value list \<Rightarrow> 'a PatternRewriter \<Rightarrow> (LogicalResult \<times> 'a PatternRewriter) option" where
  "AddOpLowering = BinaryOpLowering arith_AddFOp"

definition MulOpLowering ::
  "'a Operation \<Rightarrow> Value list \<Rightarrow> 'a PatternRewriter \<Rightarrow> (LogicalResult \<times> 'a PatternRewriter) option" where
  "MulOpLowering = BinaryOpLowering arith_MulFOp"

definition GemmOpLowering ::
  "'a Operation \<Rightarrow> Value list \<Rightarrow> 'a PatternRewriter \<Rightarrow> (LogicalResult \<times> 'a PatternRewriter) option" where
  "GemmOpLowering op operands rewriter = do {
     result \<leftarrow> getResult op;
     tensorType \<leftarrow> castTensorType (getType result);
     memRefType \<leftarrow> convertTensorToMemRef tensorType;
     let (alloc, rw1) = insertAllocAndDealloc memRefType rewriter;
     shape \<leftarrow> getShape tensorType;
     M \<leftarrow> elemAt shape 0;
     N \<leftarrow> elemAt shape 1;
     operand0 \<leftarrow> elemAt operands 0;
     lhsType \<leftarrow> castMemRefType (getType operand0);
     lhsShape \<leftarrow> getShape lhsType;
     K \<leftarrow> elemAt lhsShape 1;
     rw2 \<leftarrow> buildAffineLoopNest [0, 0, 0] [M, N, K] [1, 1, 1] []
              (\<lambda>ivs nestedBuilder. do {
                 i \<leftarrow> elemAt ivs 0;
                 j \<leftarrow> elemAt ivs 1;
                 k \<leftarrow> elemAt ivs 2;
                 gemmLhs \<leftarrow> getLhs operands;
                 gemmRhs \<leftarrow> getRhs operands;
                 let (lhs, b1) = createResult F64Type (\<lambda>r. AffineLoadOp r gemmLhs [i, k]) nestedBuilder;
                 let (rhs, b2) = createResult F64Type (\<lambda>r. AffineLoadOp r gemmRhs [j, k]) b1;
                 let (mul, b3) = createResult F64Type (\<lambda>r. arith_MulFOp r lhs rhs) b2;
                 let (current, b4) = createResult F64Type (\<lambda>r. AffineLoadOp r alloc [i, j]) b3;
                 let (updated, b5) = createResult F64Type (\<lambda>r. arith_AddFOp r current mul) b4;
                 Some (snd (create (AffineStoreOp updated alloc [i, j]) b5))
               }) rw1;
     Some (success, replaceOp op [alloc] rw2)
   }"


text \<open>
  \<^verbatim>\<open>ConstantOpLowering\<close>. The constant indices are created up front, one per value
  below the largest dimension, or the single index 0 for a tensor of rank 0.
\<close>

fun max_element :: "nat list \<Rightarrow> nat" where
  "max_element [] = 0"
| "max_element (x # xs) = max x (max_element xs)"

fun createConstantIndices ::
  "nat list \<Rightarrow> Value list \<Rightarrow> 'a PatternRewriter \<Rightarrow> Value list \<times> 'a PatternRewriter" where
  "createConstantIndices [] constantIndices rw = (constantIndices, rw)"
| "createConstantIndices (i # is) constantIndices rw =
     (let (c, rw1) = createResult IndexType (\<lambda>r. arith_ConstantIndexOp r i) rw
      in createConstantIndices is (constantIndices @ [c]) rw1)"

text \<open>A counted loop over a state that may fail: the first failure ends it.\<close>

fun forEachM :: "nat list \<Rightarrow> (nat \<Rightarrow> 's \<Rightarrow> 's option) \<Rightarrow> 's \<Rightarrow> 's option" where
  "forEachM [] f s = Some s"
| "forEachM (i # is) f s = (case f i s of None \<Rightarrow> None | Some s' \<Rightarrow> forEachM is f s')"

lemma forEachM_cong [fundef_cong]:
  "xs = ys \<Longrightarrow> (\<And>i s. i \<in> set ys \<Longrightarrow> f i s = g i s) \<Longrightarrow> s = t \<Longrightarrow>
   forEachM xs f s = forEachM ys g t"
  by (induction ys arbitrary: xs s t) (auto split: option.splits)

text \<open>
  The state the functor \<^verbatim>\<open>storeElements\<close> captures by reference: the rewriter, the
  index list \<^verbatim>\<open>indices\<close> and the iterator \<^verbatim>\<open>valueIt\<close> into the elements of the
  constant, as the number of elements consumed.
\<close>

record 'a StoreState =
  rewriter :: "'a PatternRewriter"
  indices :: "Value list"
  valueIt :: nat

text \<open>
  \<^verbatim>\<open>storeElements(dimension)\<close>. The list argument is the part of \<^verbatim>\<open>valueShape\<close> from
  \<^verbatim>\<open>dimension\<close> on: empty when \<^verbatim>\<open>dimension == valueShape.size()\<close>, where the next
  element is stored at the current indices. Reading the iterator past the last element
  is \<open>None\<close>.
\<close>

fun storeElements ::
  "'a list \<Rightarrow> Value \<Rightarrow> Value list \<Rightarrow> nat list \<Rightarrow> 'a StoreState \<Rightarrow> 'a StoreState option" where
  "storeElements constantValue alloc constantIndices [] st = do {
     x \<leftarrow> elemAt constantValue (valueIt st);
     let (c, rw1) = createResult F64Type (\<lambda>r. arith_ConstantOp r x) (rewriter st);
     let rw2 = snd (create (AffineStoreOp c alloc (indices st)) rw1);
     Some (st\<lparr>rewriter := rw2, valueIt := Suc (valueIt st)\<rparr>)
   }"
| "storeElements constantValue alloc constantIndices (e # dims) st =
     forEachM [0..<e] (\<lambda>i st1. do {
       idx \<leftarrow> elemAt constantIndices i;
       st2 \<leftarrow> storeElements constantValue alloc constantIndices dims
                (st1\<lparr>indices := indices st1 @ [idx]\<rparr>);
       Some (st2\<lparr>indices := butlast (indices st2)\<rparr>)
     }) st"

fun ConstantOpLowering ::
  "'a Operation \<Rightarrow> 'a PatternRewriter \<Rightarrow> (LogicalResult \<times> 'a PatternRewriter) option" where
  "ConstantOpLowering (pony_ConstantOp result constantValue) rw = do {
     tensorType \<leftarrow> castTensorType (getType result);
     memRefType \<leftarrow> convertTensorToMemRef tensorType;
     let (alloc, rw1) = insertAllocAndDealloc memRefType rw;
     valueShape \<leftarrow> getShape memRefType;
     let (constantIndices, rw2) =
           (if valueShape \<noteq> [] then createConstantIndices [0..<max_element valueShape] [] rw1
            else createConstantIndices [0] [] rw1);
     st \<leftarrow> storeElements constantValue alloc constantIndices valueShape
             \<lparr>rewriter = rw2, indices = [], valueIt = 0\<rparr>;
     Some (success, replaceOp (pony_ConstantOp result constantValue) [alloc] (rewriter st))
   }"
| "ConstantOpLowering _ rw = Some (failure, rw)"

text \<open>
  \<^verbatim>\<open>FuncOpLowering\<close>: only \<^verbatim>\<open>main\<close> with no inputs and no results is lowered; the new
  function takes over the region of the old one.
\<close>

fun FuncOpLowering ::
  "'a Operation \<Rightarrow> 'a PatternRewriter \<Rightarrow> (LogicalResult \<times> 'a PatternRewriter) option" where
  "FuncOpLowering (pony_FuncOp name inputs results body) rw =
     (if name \<noteq> ''main'' then Some (failure, rw)
      else if length inputs \<noteq> 0 \<or> length results \<noteq> 0 then Some (failure, rw)
      else let (func, rw1) = create (func_FuncOp name inputs results body) rw
           in Some (success, eraseOp rw1))"
| "FuncOpLowering _ rw = Some (failure, rw)"

text \<open>
  \<^verbatim>\<open>PrintOpLowering\<close>: the operation stays; its operands become the operands of the
  adaptor.
\<close>

fun PrintOpLowering ::
  "'a Operation \<Rightarrow> Value list \<Rightarrow> 'a PatternRewriter \<Rightarrow> (LogicalResult \<times> 'a PatternRewriter) option" where
  "PrintOpLowering (pony_PrintOp operands) adaptorOperands rw =
     Some (success, rw\<lparr>block := (block rw)[insertionPoint rw := pony_PrintOp adaptorOperands]\<rparr>)"
| "PrintOpLowering _ _ rw = Some (failure, rw)"

text \<open>\<^verbatim>\<open>ReturnOpLowering\<close>: a return with an operand is declined.\<close>

fun ReturnOpLowering ::
  "'a Operation \<Rightarrow> 'a PatternRewriter \<Rightarrow> (LogicalResult \<times> 'a PatternRewriter) option" where
  "ReturnOpLowering (pony_ReturnOp operands) rw =
     (if operands \<noteq> [] then Some (failure, rw)
      else let (ret, rw1) = create func_ReturnOp rw
           in Some (success, replaceOp (pony_ReturnOp operands) [] rw1))"
| "ReturnOpLowering _ rw = Some (failure, rw)"

text \<open>\<^verbatim>\<open>TransposeOpLowering\<close>: the value stored is loaded at the reversed indices.\<close>

definition TransposeOpLowering ::
  "'a Operation \<Rightarrow> Value list \<Rightarrow> 'a PatternRewriter \<Rightarrow> (LogicalResult \<times> 'a PatternRewriter) option" where
  "TransposeOpLowering op operands rw = do {
     rw1 \<leftarrow> lowerOpToLoops op operands
              (\<lambda>builder memRefOperands loopIvs. do {
                 input \<leftarrow> getInput memRefOperands;
                 let reverseIvs = rev loopIvs;
                 Some (createResult F64Type (\<lambda>r. AffineLoadOp r input reverseIvs) builder)
               }) rw;
     Some (success, rw1)
   }"


section \<open>The conversion target and the pass\<close>

text \<open>
  The conversion target of \<^verbatim>\<open>runOnOperation\<close>: the dialects \<^verbatim>\<open>affine\<close>, \<^verbatim>\<open>builtin\<close>,
  \<^verbatim>\<open>arith\<close>, \<^verbatim>\<open>func\<close> and \<^verbatim>\<open>memref\<close> are legal, the dialect \<^verbatim>\<open>pony\<close> is illegal,
  and \<^verbatim>\<open>pony.print\<close> is legal when none of its operand types is a tensor type.
\<close>

fun isLegal :: "'a Operation \<Rightarrow> bool" where
  "isLegal (pony_PrintOp operands) = (\<not> list_ex isaTensorType (map getType operands))"
| "isLegal (pony_ConstantOp _ _) = False"
| "isLegal (pony_AddOp _ _ _) = False"
| "isLegal (pony_MulOp _ _ _) = False"
| "isLegal (pony_GemmOp _ _ _) = False"
| "isLegal (pony_TransposeOp _ _) = False"
| "isLegal (pony_ReturnOp _) = False"
| "isLegal (pony_FuncOp _ _ _ _) = False"
| "isLegal _ = True"

text \<open>
  The operands a conversion pattern receives: the operands of the operation, each
  replaced by the value recorded for it, if any.
\<close>

definition remap :: "'a PatternRewriter \<Rightarrow> Value \<Rightarrow> Value" where
  "remap rw v = (case mapping rw v of None \<Rightarrow> v | Some v' \<Rightarrow> v')"

text \<open>
  The pattern set of \<^verbatim>\<open>runOnOperation\<close>: each pattern applies to the operations of
  its own name. An operation of another name has no pattern.
\<close>

fun applyPatterns ::
  "'a Operation \<Rightarrow> 'a PatternRewriter \<Rightarrow> (LogicalResult \<times> 'a PatternRewriter) option" where
  "applyPatterns (pony_AddOp r a b) rw =
     AddOpLowering (pony_AddOp r a b) (map (remap rw) [a, b]) rw"
| "applyPatterns (pony_ConstantOp r xs) rw = ConstantOpLowering (pony_ConstantOp r xs) rw"
| "applyPatterns (pony_FuncOp name ins outs body) rw =
     FuncOpLowering (pony_FuncOp name ins outs body) rw"
| "applyPatterns (pony_MulOp r a b) rw =
     MulOpLowering (pony_MulOp r a b) (map (remap rw) [a, b]) rw"
| "applyPatterns (pony_PrintOp xs) rw = PrintOpLowering (pony_PrintOp xs) (map (remap rw) xs) rw"
| "applyPatterns (pony_ReturnOp xs) rw = ReturnOpLowering (pony_ReturnOp xs) rw"
| "applyPatterns (pony_TransposeOp r a) rw =
     TransposeOpLowering (pony_TransposeOp r a) (map (remap rw) [a]) rw"
| "applyPatterns (pony_GemmOp r a b) rw =
     GemmOpLowering (pony_GemmOp r a b) (map (remap rw) [a, b]) rw"
| "applyPatterns _ rw = Some (failure, rw)"

text \<open>
  Modelled from the spec: the partial conversion driver. The library routine
  \<^verbatim>\<open>applyPartialConversion\<close> that \<^verbatim>\<open>runOnOperation\<close> calls is not part of the sources.
  Following section 4.4 of the specification, the driver scans the block for the first
  illegal node that its rule rewrites, applies the rule with the insertion point on that
  node, and repeats until no rewrite changes the block. A rewrite is a rule that
  succeeds and leaves fewer illegal nodes than before: the node is replaced by legal
  ones, or is legal once its operand references are updated. A rule that declines, or
  an update of references that leaves the node illegal, is no rewrite. Every node is
  replaced at most once (section 3), so the number of nodes of the block bounds the
  number of rounds. When an illegal node remains in the end, the conversion fails and
  hands back the graph it was given. An assertion that fails inside a rule aborts the
  whole run (\<open>None\<close>).
\<close>

datatype 'a Step = Aborted | NoRewrite | Rewritten "'a PatternRewriter"

definition illegalCount :: "'a Operation list \<Rightarrow> nat" where
  "illegalCount ops = length (filter (\<lambda>op. \<not> isLegal op) ops)"

fun rewriteFirst :: "nat list \<Rightarrow> 'a PatternRewriter \<Rightarrow> 'a Step" where
  "rewriteFirst [] rw = NoRewrite"
| "rewriteFirst (i # is) rw =
     (if isLegal (block rw ! i) then rewriteFirst is rw
      else case applyPatterns (block rw ! i) (rw\<lparr>insertionPoint := i\<rparr>) of
             None \<Rightarrow> Aborted
           | Some (failure, _) \<Rightarrow> rewriteFirst is rw
           | Some (success, rw') \<Rightarrow>
               if illegalCount (block rw') < illegalCount (block rw) then Rewritten rw'
               else rewriteFirst is rw)"

fun iterateRewrites :: "nat \<Rightarrow> 'a PatternRewriter \<Rightarrow> 'a PatternRewriter option" where
  "iterateRewrites 0 rw = Some rw"
| "iterateRewrites (Suc k) rw =
     (case rewriteFirst [0..<length (block rw)] rw of
        Aborted \<Rightarrow> None
      | NoRewrite \<Rightarrow> Some rw
      | Rewritten rw' \<Rightarrow> iterateRewrites k rw')"

definition convertBlock ::
  "'a Operation list \<Rightarrow> nat \<Rightarrow> (Value \<Rightarrow> Value option) \<Rightarrow> 'a PatternRewriter option" where
  "convertBlock ops n m =
     iterateRewrites (length ops) \<lparr>block = ops, insertionPoint = 0, nextValueId = n, mapping = m\<rparr>"

text \<open>The bodies of the functions of the module are converted one after the other.\<close>

fun convertBodies ::
  "'a Operation list \<Rightarrow> nat \<Rightarrow> (Value \<Rightarrow> Value option) \<Rightarrow> 'a Operation list option" where
  "convertBodies [] n m = Some []"
| "convertBodies (func_FuncOp name ins outs body # ops) n m = do {
     rw \<leftarrow> convertBlock body n m;
     ops' \<leftarrow> convertBodies ops (nextValueId rw) (mapping rw);
     Some (func_FuncOp name ins outs (block rw) # ops')
   }"
| "convertBodies (pony_FuncOp name ins outs body # ops) n m = do {
     rw \<leftarrow> convertBlock body n m;
     ops' \<leftarrow> convertBodies ops (nextValueId rw) (mapping rw);
     Some (pony_FuncOp name ins outs (block rw) # ops')
   }"
| "convertBodies (op # ops) n m = do {
     ops' \<leftarrow> convertBodies ops n m;
     Some (op # ops')
   }"

text \<open>Legality of a node and of every node nested in it.\<close>

fun allLegal :: "'a Operation \<Rightarrow> bool" where
  "allLegal (AffineForOp iv lb ub step body) = list_all allLegal body"
| "allLegal (func_FuncOp name ins outs body) = list_all allLegal body"
| "allLegal op = isLegal op"

definition applyPartialConversion ::
  "nat \<Rightarrow> 'a Operation list \<Rightarrow> (LogicalResult \<times> 'a Operation list) option" where
  "applyPartialConversion n moduleOps = do {
     rw \<leftarrow> convertBlock moduleOps n Map.empty;
     ops \<leftarrow> convertBodies (block rw) (nextValueId rw) (mapping rw);
     Some (if list_all allLegal ops then (success, ops) else (failure, moduleOps))
   }"

text \<open>
  \<^verbatim>\<open>runOnOperation\<close>: the pass signals failure when the partial conversion failed. The
  module is the list of its top-level operations; \<open>n\<close> is the first unused value name.
\<close>

datatype 'a PassResult = PassFailure | PassSuccess "'a Operation list"

definition runOnOperation :: "nat \<Rightarrow> 'a Operation list \<Rightarrow> 'a PassResult option" where
  "runOnOperation n moduleOps = do {
     (result, moduleOps') \<leftarrow> applyPartialConversion n moduleOps;
     Some (if result = failure then PassFailure else PassSuccess moduleOps')
   }"

section \<open>Running the lowered code\<close>

text \<open>
  The meaning of the target operations, to state what the generated loops compute. A
  buffer has a shape, cells addressed by coordinates, and is live between its allocation
  and its deallocation. The machine binds SSA values to indices, scalars and buffer
  addresses. \<open>None\<close> is a run that goes wrong: an unbound value, a value of the wrong
  kind, a coordinate out of bounds, an access to a buffer that is not live. Memory
  that has just been allocated holds whatever \<open>uninitialized\<close> says.
\<close>

record 'a Buffer =
  bufShape :: "nat list"
  bufLive :: bool
  bufCells :: "nat list \<Rightarrow> 'a"

datatype 'a RtVal = IndexVal nat | FloatVal 'a | MemRefVal nat

record 'a Machine =
  env :: "Value \<Rightarrow> 'a RtVal option"
  heap :: "nat \<Rightarrow> 'a Buffer option"
  uninitialized :: "nat list \<Rightarrow> 'a"

definition indexOf :: "'a Machine \<Rightarrow> Value \<Rightarrow> nat option" where
  "indexOf s v = (case env s v of Some (IndexVal n) \<Rightarrow> Some n | _ \<Rightarrow> None)"

definition floatOf :: "'a Machine \<Rightarrow> Value \<Rightarrow> 'a option" where
  "floatOf s v = (case env s v of Some (FloatVal x) \<Rightarrow> Some x | _ \<Rightarrow> None)"

definition memrefOf :: "'a Machine \<Rightarrow> Value \<Rightarrow> nat option" where
  "memrefOf s v = (case env s v of Some (MemRefVal a) \<Rightarrow> Some a | _ \<Rightarrow> None)"

definition inBounds :: "nat list \<Rightarrow> nat list \<Rightarrow> bool" where
  "inBounds coords shape = list_all2 (<) coords shape"

text \<open>The live buffer a memref value denotes, and the coordinates a list of index values denotes.\<close>

definition bufferOf :: "'a Machine \<Rightarrow> Value \<Rightarrow> (nat \<times> 'a Buffer) option" where
  "bufferOf s m = do {
     a \<leftarrow> memrefOf s m;
     buf \<leftarrow> heap s a;
     if bufLive buf then Some (a, buf) else None
   }"

definition coordsOf :: "'a Machine \<Rightarrow> Value list \<Rightarrow> nat list option" where
  "coordsOf s ivs = those (map (indexOf s) ivs)"

definition bindValue :: "Value \<Rightarrow> 'a RtVal \<Rightarrow> 'a Machine \<Rightarrow> 'a Machine" where
  "bindValue v x s = s\<lparr>env := (env s)(v \<mapsto> x)\<rparr>"

fun execOps :: "('s \<Rightarrow> 's option) list \<Rightarrow> 's \<Rightarrow> 's option" where
  "execOps [] s = Some s"
| "execOps (f # fs) s = (case f s of None \<Rightarrow> None | Some s' \<Rightarrow> execOps fs s')"

text \<open>The values an induction variable takes: from \<open>lb\<close> in steps of \<open>step\<close>, below \<open>ub\<close>.\<close>

definition affineRange :: "nat \<Rightarrow> nat \<Rightarrow> nat \<Rightarrow> nat list" where
  "affineRange lb ub step = map (\<lambda>k. lb + k * step) [0..<(ub - lb + step - 1) div step]"

primrec exec :: "('a::{plus,times}) Operation \<Rightarrow> 'a Machine \<Rightarrow> 'a Machine option" where
  "exec (memref_AllocOp r) s =
     (case getType r of
        MemRefType shape \<Rightarrow>
          Some (bindValue r (MemRefVal (valueId r))
                 (s\<lparr>heap := (heap s)(valueId r \<mapsto>
                      \<lparr>bufShape = shape, bufLive = True, bufCells = uninitialized s\<rparr>)\<rparr>))
      | _ \<Rightarrow> None)"
| "exec (memref_DeallocOp m) s = do {
     (a, buf) \<leftarrow> bufferOf s m;
     Some (s\<lparr>heap := (heap s)(a \<mapsto> buf\<lparr>bufLive := False\<rparr>)\<rparr>)
   }"
| "exec (arith_ConstantIndexOp r n) s = Some (bindValue r (IndexVal n) s)"
| "exec (arith_ConstantOp r x) s = Some (bindValue r (FloatVal x) s)"
| "exec (arith_AddFOp r a b) s = do {
     x \<leftarrow> floatOf s a;
     y \<leftarrow> floatOf s b;
     Some (bindValue r (FloatVal (x + y)) s)
   }"
| "exec (arith_MulFOp r a b) s = do {
     x \<leftarrow> floatOf s a;
     y \<leftarrow> floatOf s b;
     Some (bindValue r (FloatVal (x * y)) s)
   }"
| "exec (AffineLoadOp r m ivs) s = do {
     (a, buf) \<leftarrow> bufferOf s m;
     coords \<leftarrow> coordsOf s ivs;
     if inBounds coords (bufShape buf) then Some (bindValue r (FloatVal (bufCells buf coords)) s)
     else None
   }"
| "exec (AffineStoreOp v m ivs) s = do {
     x \<leftarrow> floatOf s v;
     (a, buf) \<leftarrow> bufferOf s m;
     coords \<leftarrow> coordsOf s ivs;
     if inBounds coords (bufShape buf)
     then Some (s\<lparr>heap := (heap s)(a \<mapsto> buf\<lparr>bufCells := (bufCells buf)(coords := x)\<rparr>)\<rparr>)
     else None
   }"
| "exec (AffineForOp iv lb ub step body) s =
     forEachM (affineRange lb ub step) (\<lambda>x s1. execOps (map exec body) (bindValue iv (IndexVal x) s1)) s"
| "exec AffineYieldOp s = Some s"
| "exec func_ReturnOp s = Some s"
| "exec (func_FuncOp name ins outs body) s = (if ins = [] then execOps (map exec body) s else None)"
| "exec (pony_PrintOp operands) s =
     (if list_all (\<lambda>m. bufferOf s m \<noteq> None) operands then Some s else None)"
| "exec (pony_ConstantOp r xs) s = None"
| "exec (pony_AddOp r a b) s = None"
| "exec (pony_MulOp r a b) s = None"
| "exec (pony_GemmOp r a b) s = None"
| "exec (pony_TransposeOp r a) s = None"
| "exec (pony_ReturnOp xs) s = None"
| "exec (pony_FuncOp name ins outs body) s = None"

definition execBlock :: "('a::{plus,times}) Operation list \<Rightarrow> 'a Machine \<Rightarrow> 'a Machine option" where
  "execBlock ops s = execOps (map exec ops) s"

text \<open>The coordinates of a shape in row-major order: the last dimension varies fastest.\<close>

fun rowMajor :: "nat list \<Rightarrow> nat list list" where
  "rowMajor [] = [[]]"
| "rowMajor (d # ds) = concat (map (\<lambda>i. map ((#) i) (rowMajor ds)) [0..<d])"


section \<open>Where the rules put their operations\<close>

text \<open>
  The operation under rewrite is \<open>X\<close>, at the insertion point; \<open>pre\<close> are the
  operations before it, \<open>post\<close> those after it and \<open>t\<close> the last operation of the
  block, its terminator.
\<close>

lemma insertAllocAndDealloc_mid:
  assumes "block rw = pre @ X # post @ [t]" and "insertionPoint rw = length pre"
  shows "insertAllocAndDealloc ty rw =
           (Value (nextValueId rw) ty,
            rw\<lparr>block := memref_AllocOp (Value (nextValueId rw) ty) # pre @ X # post @
                          [memref_DeallocOp (Value (nextValueId rw) ty), t],
               insertionPoint := Suc (length pre),
               nextValueId := Suc (nextValueId rw)\<rparr>)"
  using assms
  by (cases pre)
    (auto simp: insertAllocAndDealloc_def newValue_def create_def moveBefore_def Let_def nth_append)

section \<open>Literals\<close>

text \<open>
  C10. A literal of rank 0 is lowered successfully: the rule creates the buffer, the
  single constant index 0, the scalar constant of the first element, and exactly one
  store of it with an empty list of coordinates, all at the place of the literal.
\<close>

theorem rank0_literal_lowering:
  assumes "block rw = pre @ pony_ConstantOp (Value r (RankedTensorType [])) (x # xs) # post @ [t]"
    and "insertionPoint rw = length pre"
  shows "ConstantOpLowering (pony_ConstantOp (Value r (RankedTensorType [])) (x # xs)) rw =
           Some (success,
             rw\<lparr>block :=
                   memref_AllocOp (Value (nextValueId rw) (MemRefType [])) # pre @
                   [arith_ConstantIndexOp (Value (nextValueId rw + 1) IndexType) 0,
                    arith_ConstantOp (Value (nextValueId rw + 2) F64Type) x,
                    AffineStoreOp (Value (nextValueId rw + 2) F64Type)
                      (Value (nextValueId rw) (MemRefType [])) []] @
                   post @ [memref_DeallocOp (Value (nextValueId rw) (MemRefType [])), t],
                 insertionPoint := length pre + 4,
                 nextValueId := nextValueId rw + 3,
                 mapping := (mapping rw)(Value r (RankedTensorType []) \<mapsto>
                               Value (nextValueId rw) (MemRefType []))\<rparr>)"
proof -
  let ?a = "Value (nextValueId rw) (MemRefType [])"
  let ?X = "pony_ConstantOp (Value r (RankedTensorType [])) (x # xs)"
  have "insertAllocAndDealloc (MemRefType []) rw =
          (?a, rw\<lparr>block := memref_AllocOp ?a # pre @ ?X # post @ [memref_DeallocOp ?a, t],
                   insertionPoint := Suc (length pre), nextValueId := Suc (nextValueId rw)\<rparr>)"
    using insertAllocAndDealloc_mid[OF assms] .
  then show ?thesis
    by (simp add: castTensorType_def Let_def createResult_def newValue_def create_def elemAt_def
        replaceOp_def eraseOp_def)
qed

theorem rank0_literal_lowering_witness:
  "ConstantOpLowering (pony_ConstantOp (Value 0 (RankedTensorType [])) [7::real])
     \<lparr>block = [pony_ConstantOp (Value 0 (RankedTensorType [])) [7], pony_ReturnOp []],
      insertionPoint = 0, nextValueId = 1, mapping = Map.empty\<rparr> =
   Some (success,
     \<lparr>block = [memref_AllocOp (Value 1 (MemRefType [])),
               arith_ConstantIndexOp (Value 2 IndexType) 0,
               arith_ConstantOp (Value 3 F64Type) 7,
               AffineStoreOp (Value 3 F64Type) (Value 1 (MemRefType [])) [],
               memref_DeallocOp (Value 1 (MemRefType [])),
               pony_ReturnOp []],
      insertionPoint = 4, nextValueId = 4,
      mapping = [Value 0 (RankedTensorType []) \<mapsto> Value 1 (MemRefType [])]\<rparr>)"
  using rank0_literal_lowering[of
      "\<lparr>block = [pony_ConstantOp (Value 0 (RankedTensorType [])) [7::real], pony_ReturnOp []],
        insertionPoint = 0, nextValueId = 1, mapping = Map.empty\<rparr>"
      "[]" 0 7 "[]" "[]" "pony_ReturnOp []"]
  by simp

section \<open>Running loop nests\<close>

lemma affineRange_unit: "affineRange 0 n (Suc 0) = [0..<n]"
  by (simp add: affineRange_def map_idI)

lemma forEachM_append:
  "forEachM (xs @ ys) f s = (case forEachM xs f s of None \<Rightarrow> None | Some s' \<Rightarrow> forEachM ys f s')"
  by (induction xs arbitrary: s) (auto split: option.splits)

lemma forEachM_upt_rule:
  assumes "I 0 s"
    and "\<And>i s1. i < n \<Longrightarrow> I i s1 \<Longrightarrow> \<exists>s2. f i s1 = Some s2 \<and> I (Suc i) s2"
  shows "\<exists>s'. forEachM [0..<n] f s = Some s' \<and> I n s'"
  using assms(2)
proof (induction n)
  case 0
  then show ?case using assms(1) by simp
next
  case (Suc n)
  then obtain s1 where s1: "forEachM [0..<n] f s = Some s1" "I n s1"
    by (metis less_Suc_eq)
  from Suc.prems[of n s1] s1 obtain s2 where "f n s1 = Some s2" "I (Suc n) s2" by auto
  then show ?case using s1 by (simp add: forEachM_append)
qed

lemma execBlock_Cons:
  "execBlock (op # ops) s = (case exec op s of None \<Rightarrow> None | Some s' \<Rightarrow> execBlock ops s')"
  by (simp add: execBlock_def split: option.splits)

lemma execBlock_Nil: "execBlock [] s = Some s"
  by (simp add: execBlock_def)

lemma execBlock_yield: "execBlock [op, AffineYieldOp] s = exec op s"
  by (simp add: execBlock_def split: option.splits)

lemma exec_For_unit:
  "exec (AffineForOp iv 0 n (Suc 0) body) s =
     forEachM [0..<n] (\<lambda>x s1. execBlock body (bindValue iv (IndexVal x) s1)) s"
  by (simp add: affineRange_unit execBlock_def)

text \<open>
  A nest of two loops whose body stores the value \<open>F i j\<close> at the coordinate
  \<open>[i, j]\<close> of the buffer at address \<open>a\<close> fills the buffer with \<open>F\<close>, and leaves
  the other buffers and the bindings of the memref values as they were. When the body
  runs at \<open>[i, j]\<close>, that cell still holds what it held before the nest.
\<close>

lemma store_nest:
  fixes s :: "('a::{plus,times}) Machine"
  assumes body: "\<And>t B' i j. i < m \<Longrightarrow> j < n \<Longrightarrow>
        (\<forall>v. getType v \<noteq> F64Type \<and> getType v \<noteq> IndexType \<longrightarrow> env t v = env s v) \<Longrightarrow>
        (\<forall>x. x \<noteq> a \<longrightarrow> heap t x = heap s x) \<Longrightarrow>
        heap t a = Some B' \<Longrightarrow> bufLive B' \<Longrightarrow> bufShape B' = [m, n] \<Longrightarrow>
        env t (Value iv IndexType) = Some (IndexVal i) \<Longrightarrow>
        env t (Value jv IndexType) = Some (IndexVal j) \<Longrightarrow>
        bufCells B' [i, j] = bufCells B [i, j] \<Longrightarrow>
        \<exists>t'. execBlock body t = Some t' \<and>
             (\<forall>v. getType v \<noteq> F64Type \<and> getType v \<noteq> IndexType \<longrightarrow> env t' v = env t v) \<and>
             env t' (Value iv IndexType) = env t (Value iv IndexType) \<and>
             heap t' = (heap t)(a \<mapsto> B'\<lparr>bufCells := (bufCells B')([i, j] := F i j)\<rparr>)"
    and res: "heap s a = Some B" "bufLive B" "bufShape B = [m, n]"
    and ne: "iv \<noteq> jv"
  shows "\<exists>s'. exec (AffineForOp (Value iv IndexType) 0 m (Suc 0)
                   [AffineForOp (Value jv IndexType) 0 n (Suc 0) body, AffineYieldOp]) s = Some s' \<and>
              (\<forall>v. getType v \<noteq> F64Type \<and> getType v \<noteq> IndexType \<longrightarrow> env s' v = env s v) \<and>
              (\<forall>x. x \<noteq> a \<longrightarrow> heap s' x = heap s x) \<and>
              (\<exists>B'. heap s' a = Some B' \<and> bufLive B' \<and> bufShape B' = [m, n] \<and>
                    (\<forall>i<m. \<forall>j<n. bufCells B' [i, j] = F i j))"
proof -
  define frame where "frame = (\<lambda>(s1 :: 'a Machine).
      (\<forall>v. getType v \<noteq> F64Type \<and> getType v \<noteq> IndexType \<longrightarrow> env s1 v = env s v) \<and>
      (\<forall>x. x \<noteq> a \<longrightarrow> heap s1 x = heap s x))"
  define rows where "rows = (\<lambda>i (s1 :: 'a Machine).
      \<exists>B'. heap s1 a = Some B' \<and> bufLive B' \<and> bufShape B' = [m, n] \<and>
           (\<forall>i'<i. \<forall>j<n. bufCells B' [i', j] = F i' j) \<and>
           (\<forall>i' j'. i \<le> i' \<longrightarrow> bufCells B' [i', j'] = bufCells B [i', j']))"
  define I where "I = (\<lambda>i (s1 :: 'a Machine). frame s1 \<and> rows i s1)"
  have inner: "\<exists>s2. forEachM [0..<n] (\<lambda>x s1. execBlock body (bindValue (Value jv IndexType) (IndexVal x) s1))
                      (bindValue (Value iv IndexType) (IndexVal i) s1) = Some s2 \<and> I (Suc i) s2"
    if "i < m" "I i s1" for i s1
  proof -
    let ?s = "bindValue (Value iv IndexType) (IndexVal i) s1"
    define J where "J = (\<lambda>j (s2 :: 'a Machine). frame s2 \<and> env s2 (Value iv IndexType) = Some (IndexVal i) \<and>
         (\<exists>B'. heap s2 a = Some B' \<and> bufLive B' \<and> bufShape B' = [m, n] \<and>
           (\<forall>i'<i. \<forall>j<n. bufCells B' [i', j] = F i' j) \<and> (\<forall>j'<j. bufCells B' [i, j'] = F i j') \<and>
           (\<forall>i' j'. i < i' \<or> (i' = i \<and> j \<le> j') \<longrightarrow> bufCells B' [i', j'] = bufCells B [i', j'])))"
    have J0: "J 0 ?s"
      using that(2) by (auto simp: J_def I_def frame_def rows_def bindValue_def)
    have step: "\<exists>s3. execBlock body (bindValue (Value jv IndexType) (IndexVal j) s2) = Some s3 \<and> J (Suc j) s3"
      if "j < n" "J j s2" for j s2
    proof -
      let ?t = "bindValue (Value jv IndexType) (IndexVal j) s2"
      from that(2) obtain B' where B': "heap s2 a = Some B'" "bufLive B'" "bufShape B' = [m, n]"
        "\<forall>i'<i. \<forall>j<n. bufCells B' [i', j] = F i' j" "\<forall>j'<j. bufCells B' [i, j'] = F i j'"
        "\<forall>i' j'. i < i' \<or> (i' = i \<and> j \<le> j') \<longrightarrow> bufCells B' [i', j'] = bufCells B [i', j']"
        and fr: "frame s2" and ivb: "env s2 (Value iv IndexType) = Some (IndexVal i)"
        by (auto simp: J_def)
      have cur: "bufCells B' [i, j] = bufCells B [i, j]"
        using B'(6) by simp
      have e: "\<forall>v. getType v \<noteq> F64Type \<and> getType v \<noteq> IndexType \<longrightarrow> env ?t v = env s v"
        "\<forall>x. x \<noteq> a \<longrightarrow> heap ?t x = heap s x"
        "env ?t (Value iv IndexType) = Some (IndexVal i)"
        "env ?t (Value jv IndexType) = Some (IndexVal j)"
        "heap ?t a = Some B'"
        using fr ivb ne B'(1) by (auto simp: frame_def bindValue_def)
      from body[OF \<open>i < m\<close> \<open>j < n\<close> e(1,2,5) B'(2,3) e(3,4) cur]
      obtain s3 where s3: "execBlock body ?t = Some s3"
        "\<forall>v. getType v \<noteq> F64Type \<and> getType v \<noteq> IndexType \<longrightarrow> env s3 v = env ?t v"
        "heap s3 = (heap ?t)(a \<mapsto> B'\<lparr>bufCells := (bufCells B')([i, j] := F i j)\<rparr>)"
        "env s3 (Value iv IndexType) = env ?t (Value iv IndexType)"
        by blast
      have "frame s3"
        using fr s3(2,3) by (auto simp: frame_def bindValue_def)
      moreover have "env s3 (Value iv IndexType) = Some (IndexVal i)"
        using s3(4) e(3) by simp
      moreover have "\<exists>B2. heap s3 a = Some B2 \<and> bufLive B2 \<and> bufShape B2 = [m, n] \<and>
           (\<forall>i'<i. \<forall>j<n. bufCells B2 [i', j] = F i' j) \<and> (\<forall>j'<Suc j. bufCells B2 [i, j'] = F i j') \<and>
           (\<forall>i' j'. i < i' \<or> (i' = i \<and> Suc j \<le> j') \<longrightarrow> bufCells B2 [i', j'] = bufCells B [i', j'])"
        using s3(3) B'(2-) by (auto simp: less_Suc_eq)
      ultimately show ?thesis using s3(1) by (auto simp: J_def)
    qed
    have "\<exists>s'. forEachM [0..<n] (\<lambda>x s1. execBlock body (bindValue (Value jv IndexType) (IndexVal x) s1)) ?s = Some s' \<and> J n s'"
      by (rule forEachM_upt_rule[where I = J, OF J0]) (use step in blast)
    then obtain s2 where s2: "forEachM [0..<n] (\<lambda>x s1. execBlock body (bindValue (Value jv IndexType) (IndexVal x) s1)) ?s = Some s2"
      "J n s2" by blast
    have "I (Suc i) s2"
      using s2(2) by (auto simp: J_def I_def rows_def less_Suc_eq)
    then show ?thesis using s2(1) by blast
  qed
  have I0: "I 0 s"
    using res by (auto simp: I_def frame_def rows_def)
  have outer: "\<exists>s2. execBlock [AffineForOp (Value jv IndexType) 0 n (Suc 0) body, AffineYieldOp]
                      (bindValue (Value iv IndexType) (IndexVal i) s1) = Some s2 \<and> I (Suc i) s2"
    if "i < m" "I i s1" for i s1
    using inner[OF that] by (simp only: execBlock_yield exec_For_unit)
  have "\<exists>s'. forEachM [0..<m] (\<lambda>x s1. execBlock [AffineForOp (Value jv IndexType) 0 n (Suc 0) body, AffineYieldOp]
                      (bindValue (Value iv IndexType) (IndexVal x) s1)) s = Some s' \<and> I m s'"
    by (rule forEachM_upt_rule[where I = I, OF I0]) (use outer in blast)
  then show ?thesis
    by (simp only: exec_For_unit) (auto simp: I_def frame_def rows_def)
qed

section \<open>Elementwise addition and multiplication\<close>

lemma binary_body:
  fixes t :: "('a::{plus,times}) Machine"
  assumes mk: "\<And>r a b s. exec (mk r a b) s = do { x \<leftarrow> floatOf s a; y \<leftarrow> floatOf s b; Some (bindValue r (FloatVal (f x y)) s) }"
    and "env t (Value lid (MemRefType sl)) = Some (MemRefVal la)" "heap t la = Some L" "bufLive L" "bufShape L = [m, n]"
    and "env t (Value rid (MemRefType sr)) = Some (MemRefVal ra)" "heap t ra = Some R" "bufLive R" "bufShape R = [m, n]"
    and "env t (Value aid (MemRefType sa)) = Some (MemRefVal a)" "heap t a = Some B" "bufLive B" "bufShape B = [m, n]"
    and "a \<noteq> la" "a \<noteq> ra"
    and "env t (Value iv IndexType) = Some (IndexVal i)" "env t (Value jv IndexType) = Some (IndexVal j)"
    and "i < m" "j < n" "v1 \<noteq> v2"
  shows "\<exists>t'. execBlock [AffineLoadOp (Value v1 F64Type) (Value lid (MemRefType sl)) [Value iv IndexType, Value jv IndexType],
                     AffineLoadOp (Value v2 F64Type) (Value rid (MemRefType sr)) [Value iv IndexType, Value jv IndexType],
                     mk (Value v3 F64Type) (Value v1 F64Type) (Value v2 F64Type),
                     AffineStoreOp (Value v3 F64Type) (Value aid (MemRefType sa)) [Value iv IndexType, Value jv IndexType],
                     AffineYieldOp] t = Some t' \<and>
              (\<forall>v. getType v \<noteq> F64Type \<longrightarrow> env t' v = env t v) \<and>
              heap t' = (heap t)(a \<mapsto> B\<lparr>bufCells := (bufCells B)([i, j] := f (bufCells L [i, j]) (bufCells R [i, j]))\<rparr>)"
  using assms(2-)
  by (auto simp: execBlock_Cons execBlock_Nil mk bufferOf_def memrefOf_def coordsOf_def indexOf_def
      floatOf_def bindValue_def inBounds_def)

lemma transpose_body:
  fixes t :: "('a::{plus,times}) Machine"
  assumes "env t (Value lid (MemRefType sl)) = Some (MemRefVal la)" "heap t la = Some L" "bufLive L" "bufShape L = [n, m]"
    and "env t (Value aid (MemRefType sa)) = Some (MemRefVal a)" "heap t a = Some B" "bufLive B" "bufShape B = [m, n]"
    and "a \<noteq> la"
    and "env t (Value iv IndexType) = Some (IndexVal i)" "env t (Value jv IndexType) = Some (IndexVal j)"
    and "i < m" "j < n"
  shows "\<exists>t'. execBlock [AffineLoadOp (Value v1 F64Type) (Value lid (MemRefType sl)) [Value jv IndexType, Value iv IndexType],
                     AffineStoreOp (Value v1 F64Type) (Value aid (MemRefType sa)) [Value iv IndexType, Value jv IndexType],
                     AffineYieldOp] t = Some t' \<and>
              (\<forall>v. getType v \<noteq> F64Type \<longrightarrow> env t' v = env t v) \<and>
              heap t' = (heap t)(a \<mapsto> B\<lparr>bufCells := (bufCells B)([i, j] := bufCells L [j, i])\<rparr>)"
  using assms
  by (auto simp: execBlock_Cons execBlock_Nil bufferOf_def memrefOf_def coordsOf_def indexOf_def
      floatOf_def bindValue_def inBounds_def)

lemma BinaryOpLowering_rank2:
  assumes "block rw = pre @ X # post @ [t]" and "insertionPoint rw = length pre"
    and "getResult X = Some (Value r (RankedTensorType [m, n]))"
  shows "BinaryOpLowering mk X [lhs, rhs] rw =
     Some (success,
       rw\<lparr>block := memref_AllocOp (Value (nextValueId rw) (MemRefType [m, n])) # pre @
               [AffineForOp (Value (nextValueId rw + 1) IndexType) 0 m 1
                 [AffineForOp (Value (nextValueId rw + 2) IndexType) 0 n 1
                   [AffineLoadOp (Value (nextValueId rw + 3) F64Type) lhs
                      [Value (nextValueId rw + 1) IndexType, Value (nextValueId rw + 2) IndexType],
                    AffineLoadOp (Value (nextValueId rw + 4) F64Type) rhs
                      [Value (nextValueId rw + 1) IndexType, Value (nextValueId rw + 2) IndexType],
                    mk (Value (nextValueId rw + 5) F64Type) (Value (nextValueId rw + 3) F64Type)
                      (Value (nextValueId rw + 4) F64Type),
                    AffineStoreOp (Value (nextValueId rw + 5) F64Type)
                      (Value (nextValueId rw) (MemRefType [m, n]))
                      [Value (nextValueId rw + 1) IndexType, Value (nextValueId rw + 2) IndexType],
                    AffineYieldOp],
                  AffineYieldOp]] @
               post @ [memref_DeallocOp (Value (nextValueId rw) (MemRefType [m, n])), t],
           insertionPoint := length pre + 2,
           nextValueId := nextValueId rw + 6,
           mapping := (mapping rw)(Value r (RankedTensorType [m, n]) \<mapsto>
                         Value (nextValueId rw) (MemRefType [m, n]))\<rparr>)"
proof -
  let ?a = "Value (nextValueId rw) (MemRefType [m, n])"
  have "insertAllocAndDealloc (MemRefType [m, n]) rw =
          (?a, rw\<lparr>block := memref_AllocOp ?a # pre @ X # post @ [memref_DeallocOp ?a, t],
                   insertionPoint := Suc (length pre), nextValueId := Suc (nextValueId rw)\<rparr>)"
    using insertAllocAndDealloc_mid[OF assms(1,2)] .
  then show ?thesis
    using assms(3)
    by (simp add: BinaryOpLowering_def lowerOpToLoops_def castTensorType_def Let_def
        createResult_def newValue_def create_def elemAt_def getLhs_def getRhs_def
        replaceOp_def eraseOp_def eval_nat_numeral)
qed


lemma exec_AddF:
  "exec (arith_AddFOp r a b) s = do { x \<leftarrow> floatOf s a; y \<leftarrow> floatOf s b; Some (bindValue r (FloatVal (x + y)) s) }"
  by simp

lemma exec_MulF:
  "exec (arith_MulFOp r a b) s = do { x \<leftarrow> floatOf s a; y \<leftarrow> floatOf s b; Some (bindValue r (FloatVal (x * y)) s) }"
  by simp

lemma bufferOf_SomeD:
  "bufferOf s v = Some (a, B) \<Longrightarrow> env s v = Some (MemRefVal a) \<and> heap s a = Some B \<and> bufLive B"
  by (auto simp: bufferOf_def memrefOf_def split: option.splits RtVal.splits if_splits Option.bind_splits)

lemma bufferOf_SomeI:
  "env s v = Some (MemRefVal a) \<Longrightarrow> heap s a = Some B \<Longrightarrow> bufLive B \<Longrightarrow> bufferOf s v = Some (a, B)"
  by (simp add: bufferOf_def memrefOf_def)

lemma binary_exec:
  fixes s :: "('a::{plus,times}) Machine"
  assumes mk: "\<And>r a b s. exec (mk r a b) s = do { x \<leftarrow> floatOf s a; y \<leftarrow> floatOf s b; Some (bindValue r (FloatVal (f x y)) s) }"
    and bufs: "bufferOf s (Value lid (MemRefType sl)) = Some (la, L)" "bufShape L = [m, n]"
      "bufferOf s (Value rid (MemRefType sr)) = Some (ra, R)" "bufShape R = [m, n]"
      "bufferOf s (Value aid (MemRefType sa)) = Some (a, B)" "bufShape B = [m, n]"
      "a \<noteq> la" "a \<noteq> ra"
    and ne: "iv \<noteq> jv" "v1 \<noteq> v2"
  shows "\<exists>s' B'. execBlock [AffineForOp (Value iv IndexType) 0 m (Suc 0)
                   [AffineForOp (Value jv IndexType) 0 n (Suc 0)
                     [AffineLoadOp (Value v1 F64Type) (Value lid (MemRefType sl)) [Value iv IndexType, Value jv IndexType],
                      AffineLoadOp (Value v2 F64Type) (Value rid (MemRefType sr)) [Value iv IndexType, Value jv IndexType],
                      mk (Value v3 F64Type) (Value v1 F64Type) (Value v2 F64Type),
                      AffineStoreOp (Value v3 F64Type) (Value aid (MemRefType sa)) [Value iv IndexType, Value jv IndexType],
                      AffineYieldOp],
                    AffineYieldOp]] s = Some s' \<and>
              bufferOf s' (Value aid (MemRefType sa)) = Some (a, B') \<and> bufShape B' = [m, n] \<and>
              (\<forall>i<m. \<forall>j<n. bufCells B' [i, j] = f (bufCells L [i, j]) (bufCells R [i, j]))"
proof -
  note l = bufferOf_SomeD[OF bufs(1)] and r = bufferOf_SomeD[OF bufs(3)] and b = bufferOf_SomeD[OF bufs(5)]
  let ?body = "[AffineLoadOp (Value v1 F64Type) (Value lid (MemRefType sl)) [Value iv IndexType, Value jv IndexType],
                      AffineLoadOp (Value v2 F64Type) (Value rid (MemRefType sr)) [Value iv IndexType, Value jv IndexType],
                      mk (Value v3 F64Type) (Value v1 F64Type) (Value v2 F64Type),
                      AffineStoreOp (Value v3 F64Type) (Value aid (MemRefType sa)) [Value iv IndexType, Value jv IndexType],
                      AffineYieldOp]"
  have body: "\<exists>t'. execBlock ?body t = Some t' \<and>
             (\<forall>v. getType v \<noteq> F64Type \<and> getType v \<noteq> IndexType \<longrightarrow> env t' v = env t v) \<and>
             env t' (Value iv IndexType) = env t (Value iv IndexType) \<and>
             heap t' = (heap t)(a \<mapsto> B'\<lparr>bufCells := (bufCells B')([i, j] := f (bufCells L [i, j]) (bufCells R [i, j]))\<rparr>)"
    if "i < m" "j < n"
        "\<forall>v. getType v \<noteq> F64Type \<and> getType v \<noteq> IndexType \<longrightarrow> env t v = env s v"
        "\<forall>x. x \<noteq> a \<longrightarrow> heap t x = heap s x"
        "heap t a = Some B'" "bufLive B'" "bufShape B' = [m, n]"
        "env t (Value iv IndexType) = Some (IndexVal i)"
        "env t (Value jv IndexType) = Some (IndexVal j)"
        "bufCells B' [i, j] = bufCells B [i, j]" for t B' i j
  proof -
    have "\<exists>t'. execBlock ?body t = Some t' \<and>
             (\<forall>v. getType v \<noteq> F64Type \<longrightarrow> env t' v = env t v) \<and>
             heap t' = (heap t)(a \<mapsto> B'\<lparr>bufCells := (bufCells B')([i, j] := f (bufCells L [i, j]) (bufCells R [i, j]))\<rparr>)"
    proof (rule binary_body[OF mk])
    show "env t (Value lid (MemRefType sl)) = Some (MemRefVal la)" using that(3) l by simp
    show "env t (Value rid (MemRefType sr)) = Some (MemRefVal ra)" using that(3) r by simp
    show "env t (Value aid (MemRefType sa)) = Some (MemRefVal a)" using that(3) b by simp
    show "heap t la = Some L" using that(4) l bufs(7) by simp
      show "heap t ra = Some R" using that(4) r bufs(8) by simp
    qed (use that l r bufs ne in simp_all)
    then show ?thesis by auto
  qed
  from store_nest[where body = ?body and F = "\<lambda>i j. f (bufCells L [i, j]) (bufCells R [i, j])" and s = s
      and iv = iv and jv = jv and a = a and m = m and n = n and B = B, OF body _ _ bufs(6) ne(1)] b
  obtain s' B' where s': "exec (AffineForOp (Value iv IndexType) 0 m (Suc 0)
                   [AffineForOp (Value jv IndexType) 0 n (Suc 0) ?body, AffineYieldOp]) s = Some s'"
     "\<forall>v. getType v \<noteq> F64Type \<and> getType v \<noteq> IndexType \<longrightarrow> env s' v = env s v"
     "heap s' a = Some B'" "bufLive B'" "bufShape B' = [m, n]"
     "\<forall>i<m. \<forall>j<n. bufCells B' [i, j] = f (bufCells L [i, j]) (bufCells R [i, j])"
    by blast
  have "bufferOf s' (Value aid (MemRefType sa)) = Some (a, B')"
    using s'(2,3,4) b by (intro bufferOf_SomeI) simp_all
  then show ?thesis
    using s'(1,5,6) by (simp add: execBlock_def split: option.splits)
qed


lemma binary_lowering:
  fixes s :: "('a::{plus,times}) Machine"
  assumes mk: "\<And>r a b s. exec (mk r a b) s = do { x \<leftarrow> floatOf s a; y \<leftarrow> floatOf s b; Some (bindValue r (FloatVal (f x y)) s) }"
    and blk: "block rw = pre @ X # post @ [t]" "insertionPoint rw = length pre"
      "getResult X = Some (Value r (RankedTensorType [m, n]))"
    and bufs: "bufferOf s (Value lid (MemRefType [m, n])) = Some (la, L)" "bufShape L = [m, n]"
      "bufferOf s (Value rid (MemRefType [m, n])) = Some (ra, R)" "bufShape R = [m, n]"
      "bufferOf s (Value (nextValueId rw) (MemRefType [m, n])) = Some (a, B)" "bufShape B = [m, n]"
      "a \<noteq> la" "a \<noteq> ra"
  shows "\<exists>G rw'. BinaryOpLowering mk X [Value lid (MemRefType [m, n]), Value rid (MemRefType [m, n])] rw =
                   Some (success, rw') \<and>
             block rw' = memref_AllocOp (Value (nextValueId rw) (MemRefType [m, n])) # pre @ G @ post @
                           [memref_DeallocOp (Value (nextValueId rw) (MemRefType [m, n])), t] \<and>
             (\<exists>s' B'. execBlock G s = Some s' \<and>
                bufferOf s' (Value (nextValueId rw) (MemRefType [m, n])) = Some (a, B') \<and>
                bufShape B' = [m, n] \<and>
                (\<forall>i<m. \<forall>j<n. bufCells B' [i, j] = f (bufCells L [i, j]) (bufCells R [i, j])))"
proof -
  define G where "G = [AffineForOp (Value (nextValueId rw + 1) IndexType) 0 m 1
                 [AffineForOp (Value (nextValueId rw + 2) IndexType) 0 n 1
                   [AffineLoadOp (Value (nextValueId rw + 3) F64Type) (Value lid (MemRefType [m, n]))
                      [Value (nextValueId rw + 1) IndexType, Value (nextValueId rw + 2) IndexType],
                    AffineLoadOp (Value (nextValueId rw + 4) F64Type) (Value rid (MemRefType [m, n]))
                      [Value (nextValueId rw + 1) IndexType, Value (nextValueId rw + 2) IndexType],
                    mk (Value (nextValueId rw + 5) F64Type) (Value (nextValueId rw + 3) F64Type)
                      (Value (nextValueId rw + 4) F64Type),
                    AffineStoreOp (Value (nextValueId rw + 5) F64Type)
                      (Value (nextValueId rw) (MemRefType [m, n]))
                      [Value (nextValueId rw + 1) IndexType, Value (nextValueId rw + 2) IndexType],
                    AffineYieldOp],
                  AffineYieldOp]]"
  have 1: "\<exists>rw'. BinaryOpLowering mk X [Value lid (MemRefType [m, n]), Value rid (MemRefType [m, n])] rw =
                   Some (success, rw') \<and>
             block rw' = memref_AllocOp (Value (nextValueId rw) (MemRefType [m, n])) # pre @ G @ post @
                           [memref_DeallocOp (Value (nextValueId rw) (MemRefType [m, n])), t]"
    unfolding G_def by (subst BinaryOpLowering_rank2[OF blk]) simp
  have 2: "\<exists>s' B'. execBlock G s = Some s' \<and>
                bufferOf s' (Value (nextValueId rw) (MemRefType [m, n])) = Some (a, B') \<and>
                bufShape B' = [m, n] \<and>
                (\<forall>i<m. \<forall>j<n. bufCells B' [i, j] = f (bufCells L [i, j]) (bufCells R [i, j]))"
    unfolding G_def One_nat_def
    by (rule binary_exec[OF mk bufs]) simp_all
  from 1 2 show ?thesis by blast
qed

text \<open>
  C5. Lowering an elementwise addition or multiplication whose result has shape
  \<open>[m, n]\<close> succeeds; it puts the allocation of a buffer of that shape first in the
  block, the deallocation before the terminator, and at the place of the operation a
  loop nest \<open>G\<close>. Run in a state where the two operand buffers and the result buffer
  are live with shape \<open>[m, n]\<close> and the result buffer is not one of the operands,
  \<open>G\<close> ends with \<open>result[i][j] = lhs[i][j] OP rhs[i][j]\<close> for all \<open>i < m\<close> and
  \<open>j < n\<close>.
\<close>

theorem elementwise_lowering:
  fixes s :: "('a::{plus,times}) Machine"
  assumes "insertionPoint rw = length pre"
    and "bufferOf s (Value lid (MemRefType [m, n])) = Some (la, L)" and "bufShape L = [m, n]"
    and "bufferOf s (Value rid (MemRefType [m, n])) = Some (ra, R)" and "bufShape R = [m, n]"
    and "bufferOf s (Value (nextValueId rw) (MemRefType [m, n])) = Some (a, B)" and "bufShape B = [m, n]"
    and "a \<noteq> la" and "a \<noteq> ra"
  shows "(block rw = pre @ pony_AddOp (Value r (RankedTensorType [m, n])) x y # post @ [t] \<longrightarrow>
          (\<exists>G rw'. AddOpLowering (pony_AddOp (Value r (RankedTensorType [m, n])) x y)
                     [Value lid (MemRefType [m, n]), Value rid (MemRefType [m, n])] rw = Some (success, rw') \<and>
             block rw' = memref_AllocOp (Value (nextValueId rw) (MemRefType [m, n])) # pre @ G @ post @
                           [memref_DeallocOp (Value (nextValueId rw) (MemRefType [m, n])), t] \<and>
             (\<exists>s' B'. execBlock G s = Some s' \<and>
                bufferOf s' (Value (nextValueId rw) (MemRefType [m, n])) = Some (a, B') \<and>
                bufShape B' = [m, n] \<and>
                (\<forall>i<m. \<forall>j<n. bufCells B' [i, j] = bufCells L [i, j] + bufCells R [i, j])))) \<and>
         (block rw = pre @ pony_MulOp (Value r (RankedTensorType [m, n])) x y # post @ [t] \<longrightarrow>
          (\<exists>G rw'. MulOpLowering (pony_MulOp (Value r (RankedTensorType [m, n])) x y)
                     [Value lid (MemRefType [m, n]), Value rid (MemRefType [m, n])] rw = Some (success, rw') \<and>
             block rw' = memref_AllocOp (Value (nextValueId rw) (MemRefType [m, n])) # pre @ G @ post @
                           [memref_DeallocOp (Value (nextValueId rw) (MemRefType [m, n])), t] \<and>
             (\<exists>s' B'. execBlock G s = Some s' \<and>
                bufferOf s' (Value (nextValueId rw) (MemRefType [m, n])) = Some (a, B') \<and>
                bufShape B' = [m, n] \<and>
                (\<forall>i<m. \<forall>j<n. bufCells B' [i, j] = bufCells L [i, j] * bufCells R [i, j]))))"
proof (intro conjI impI)
  assume blk: "block rw = pre @ pony_AddOp (Value r (RankedTensorType [m, n])) x y # post @ [t]"
  show "\<exists>G rw'. AddOpLowering (pony_AddOp (Value r (RankedTensorType [m, n])) x y)
                     [Value lid (MemRefType [m, n]), Value rid (MemRefType [m, n])] rw = Some (success, rw') \<and>
             block rw' = memref_AllocOp (Value (nextValueId rw) (MemRefType [m, n])) # pre @ G @ post @
                           [memref_DeallocOp (Value (nextValueId rw) (MemRefType [m, n])), t] \<and>
             (\<exists>s' B'. execBlock G s = Some s' \<and>
                bufferOf s' (Value (nextValueId rw) (MemRefType [m, n])) = Some (a, B') \<and>
                bufShape B' = [m, n] \<and>
                (\<forall>i<m. \<forall>j<n. bufCells B' [i, j] = bufCells L [i, j] + bufCells R [i, j]))"
    unfolding AddOpLowering_def
    by (rule binary_lowering[OF exec_AddF blk assms(1) _ assms(2-9)]) simp
next
  assume blk: "block rw = pre @ pony_MulOp (Value r (RankedTensorType [m, n])) x y # post @ [t]"
  show "\<exists>G rw'. MulOpLowering (pony_MulOp (Value r (RankedTensorType [m, n])) x y)
                     [Value lid (MemRefType [m, n]), Value rid (MemRefType [m, n])] rw = Some (success, rw') \<and>
             block rw' = memref_AllocOp (Value (nextValueId rw) (MemRefType [m, n])) # pre @ G @ post @
                           [memref_DeallocOp (Value (nextValueId rw) (MemRefType [m, n])), t] \<and>
             (\<exists>s' B'. execBlock G s = Some s' \<and>
                bufferOf s' (Value (nextValueId rw) (MemRefType [m, n])) = Some (a, B') \<and>
                bufShape B' = [m, n] \<and>
                (\<forall>i<m. \<forall>j<n. bufCells B' [i, j] = bufCells L [i, j] * bufCells R [i, j]))"
    unfolding MulOpLowering_def
    by (rule binary_lowering[OF exec_MulF blk assms(1) _ assms(2-9)]) simp
qed


theorem elementwise_lowering_witness:
  "(\<exists>G rw'. AddOpLowering (pony_AddOp (Value 2 (RankedTensorType [2, 2])) (Value 0 (RankedTensorType [2, 2])) (Value 1 (RankedTensorType [2, 2])))
              [Value 3 (MemRefType [2, 2]), Value 4 (MemRefType [2, 2])]
              \<lparr>block = [pony_AddOp (Value 2 (RankedTensorType [2, 2])) (Value 0 (RankedTensorType [2, 2])) (Value 1 (RankedTensorType [2, 2])),
                        pony_ReturnOp []],
               insertionPoint = 0, nextValueId = 5, mapping = Map.empty\<rparr> = Some (success, rw') \<and>
      block rw' = memref_AllocOp (Value 5 (MemRefType [2, 2])) # [] @ G @ [] @
                    [memref_DeallocOp (Value 5 (MemRefType [2, 2])), pony_ReturnOp []] \<and>
      (\<exists>s' B'. execBlock G
           \<lparr>env = [Value 3 (MemRefType [2, 2]) \<mapsto> MemRefVal 0, Value 4 (MemRefType [2, 2]) \<mapsto> MemRefVal 1,
                   Value 5 (MemRefType [2, 2]) \<mapsto> MemRefVal 2],
            heap = [0 \<mapsto> \<lparr>bufShape = [2, 2], bufLive = True, bufCells = (\<lambda>c. real (2 * (c ! 0) + c ! 1 + 1))\<rparr>,
                    1 \<mapsto> \<lparr>bufShape = [2, 2], bufLive = True, bufCells = (\<lambda>c. real (2 * (c ! 0) + c ! 1 + 5))\<rparr>,
                    2 \<mapsto> \<lparr>bufShape = [2, 2], bufLive = True, bufCells = (\<lambda>c. 0)\<rparr>],
            uninitialized = (\<lambda>c. 0)\<rparr> = Some s' \<and>
          bufferOf s' (Value 5 (MemRefType [2, 2])) = Some (2, B') \<and> bufShape B' = [2, 2] \<and>
          map (bufCells B') [[0, 0], [0, 1], [1, 0], [1, 1]] = [6, 8, 10, 12])) \<and>
   (\<exists>G rw'. MulOpLowering (pony_MulOp (Value 2 (RankedTensorType [2, 2])) (Value 0 (RankedTensorType [2, 2])) (Value 1 (RankedTensorType [2, 2])))
              [Value 3 (MemRefType [2, 2]), Value 4 (MemRefType [2, 2])]
              \<lparr>block = [pony_MulOp (Value 2 (RankedTensorType [2, 2])) (Value 0 (RankedTensorType [2, 2])) (Value 1 (RankedTensorType [2, 2])),
                        pony_ReturnOp []],
               insertionPoint = 0, nextValueId = 5, mapping = Map.empty\<rparr> = Some (success, rw') \<and>
      block rw' = memref_AllocOp (Value 5 (MemRefType [2, 2])) # [] @ G @ [] @
                    [memref_DeallocOp (Value 5 (MemRefType [2, 2])), pony_ReturnOp []] \<and>
      (\<exists>s' B'. execBlock G
           \<lparr>env = [Value 3 (MemRefType [2, 2]) \<mapsto> MemRefVal 0, Value 4 (MemRefType [2, 2]) \<mapsto> MemRefVal 1,
                   Value 5 (MemRefType [2, 2]) \<mapsto> MemRefVal 2],
            heap = [0 \<mapsto> \<lparr>bufShape = [2, 2], bufLive = True, bufCells = (\<lambda>c. real (2 * (c ! 0) + c ! 1 + 1))\<rparr>,
                    1 \<mapsto> \<lparr>bufShape = [2, 2], bufLive = True, bufCells = (\<lambda>c. real (2 * (c ! 0) + c ! 1 + 5))\<rparr>,
                    2 \<mapsto> \<lparr>bufShape = [2, 2], bufLive = True, bufCells = (\<lambda>c. 0)\<rparr>],
            uninitialized = (\<lambda>c. 0)\<rparr> = Some s' \<and>
          bufferOf s' (Value 5 (MemRefType [2, 2])) = Some (2, B') \<and> bufShape B' = [2, 2] \<and>
          map (bufCells B') [[0, 0], [0, 1], [1, 0], [1, 1]] = [5, 12, 21, 32]))"
proof -
  let ?s = "\<lparr>env = [Value 3 (MemRefType [2, 2]) \<mapsto> MemRefVal 0, Value 4 (MemRefType [2, 2]) \<mapsto> MemRefVal 1,
                   Value 5 (MemRefType [2, 2]) \<mapsto> MemRefVal 2],
            heap = [0 \<mapsto> \<lparr>bufShape = [2, 2], bufLive = True, bufCells = (\<lambda>c. real (2 * (c ! 0) + c ! 1 + 1))\<rparr>,
                    1 \<mapsto> \<lparr>bufShape = [2, 2], bufLive = True, bufCells = (\<lambda>c. real (2 * (c ! 0) + c ! 1 + 5))\<rparr>,
                    2 \<mapsto> \<lparr>bufShape = [2, 2], bufLive = True, bufCells = (\<lambda>c. 0)\<rparr>],
            uninitialized = (\<lambda>c. 0::real)\<rparr>"
  let ?L = "\<lparr>bufShape = [2, 2], bufLive = True, bufCells = (\<lambda>c. real (2 * (c ! 0) + c ! 1 + 1))\<rparr>"
  let ?R = "\<lparr>bufShape = [2, 2], bufLive = True, bufCells = (\<lambda>c. real (2 * (c ! 0) + c ! 1 + 5))\<rparr>"
  let ?B = "\<lparr>bufShape = [2, 2], bufLive = True, bufCells = (\<lambda>c. 0::real)\<rparr>"
  have two: "(\<forall>i<2::nat. \<forall>j<2::nat. P i j) \<longleftrightarrow> P 0 0 \<and> P 0 1 \<and> P 1 0 \<and> P 1 1" for P
    by (auto simp: less_2_cases_iff)
  have h: "bufferOf ?s (Value 3 (MemRefType [2, 2])) = Some (0, ?L)"
    "bufferOf ?s (Value 4 (MemRefType [2, 2])) = Some (1, ?R)"
    "bufferOf ?s (Value 5 (MemRefType [2, 2])) = Some (2, ?B)"
    by (simp_all add: bufferOf_def memrefOf_def)
  show ?thesis
    using elementwise_lowering[where rw = "\<lparr>block = [pony_AddOp (Value 2 (RankedTensorType [2, 2])) (Value 0 (RankedTensorType [2, 2])) (Value 1 (RankedTensorType [2, 2])),
                        pony_ReturnOp []], insertionPoint = 0, nextValueId = 5, mapping = Map.empty\<rparr>"
        and pre = "[]" and post = "[]" and t = "pony_ReturnOp []" and s = ?s and m = 2 and n = 2 and lid = 3 and rid = 4
        and la = 0 and ra = 1 and a = 2 and r = 2
        and x = "Value 0 (RankedTensorType [2, 2])" and y = "Value 1 (RankedTensorType [2, 2])"
        and L = ?L and R = ?R and B = ?B]
      elementwise_lowering[where rw = "\<lparr>block = [pony_MulOp (Value 2 (RankedTensorType [2, 2])) (Value 0 (RankedTensorType [2, 2])) (Value 1 (RankedTensorType [2, 2])),
                        pony_ReturnOp []], insertionPoint = 0, nextValueId = 5, mapping = Map.empty\<rparr>"
        and pre = "[]" and post = "[]" and t = "pony_ReturnOp []" and s = ?s and m = 2 and n = 2 and lid = 3 and rid = 4
        and la = 0 and ra = 1 and a = 2 and r = 2
        and x = "Value 0 (RankedTensorType [2, 2])" and y = "Value 1 (RankedTensorType [2, 2])"
        and L = ?L and R = ?R and B = ?B] h
    by (simp add: two)
qed

section \<open>Transpose\<close>

lemma TransposeOpLowering_rank2:
  assumes "block rw = pre @ X # post @ [t]" and "insertionPoint rw = length pre"
    and "getResult X = Some (Value r (RankedTensorType [n, m]))"
  shows "TransposeOpLowering X [input] rw =
     Some (success,
       rw\<lparr>block := memref_AllocOp (Value (nextValueId rw) (MemRefType [n, m])) # pre @
               [AffineForOp (Value (nextValueId rw + 1) IndexType) 0 n 1
                 [AffineForOp (Value (nextValueId rw + 2) IndexType) 0 m 1
                   [AffineLoadOp (Value (nextValueId rw + 3) F64Type) input
                      [Value (nextValueId rw + 2) IndexType, Value (nextValueId rw + 1) IndexType],
                    AffineStoreOp (Value (nextValueId rw + 3) F64Type)
                      (Value (nextValueId rw) (MemRefType [n, m]))
                      [Value (nextValueId rw + 1) IndexType, Value (nextValueId rw + 2) IndexType],
                    AffineYieldOp],
                  AffineYieldOp]] @
               post @ [memref_DeallocOp (Value (nextValueId rw) (MemRefType [n, m])), t],
           insertionPoint := length pre + 2,
           nextValueId := nextValueId rw + 4,
           mapping := (mapping rw)(Value r (RankedTensorType [n, m]) \<mapsto>
                         Value (nextValueId rw) (MemRefType [n, m]))\<rparr>)"
proof -
  let ?a = "Value (nextValueId rw) (MemRefType [n, m])"
  have "insertAllocAndDealloc (MemRefType [n, m]) rw =
          (?a, rw\<lparr>block := memref_AllocOp ?a # pre @ X # post @ [memref_DeallocOp ?a, t],
                   insertionPoint := Suc (length pre), nextValueId := Suc (nextValueId rw)\<rparr>)"
    using insertAllocAndDealloc_mid[OF assms(1,2)] .
  then show ?thesis
    using assms(3)
    by (simp add: TransposeOpLowering_def lowerOpToLoops_def castTensorType_def Let_def
        createResult_def newValue_def create_def elemAt_def getInput_def
        replaceOp_def eraseOp_def eval_nat_numeral)
qed

lemma transpose_exec:
  fixes s :: "('a::{plus,times}) Machine"
  assumes bufs: "bufferOf s (Value lid (MemRefType sl)) = Some (la, L)" "bufShape L = [m, n]"
      "bufferOf s (Value aid (MemRefType sa)) = Some (a, B)" "bufShape B = [n, m]"
      "a \<noteq> la"
    and ne: "iv \<noteq> jv"
  shows "\<exists>s' B'. execBlock [AffineForOp (Value iv IndexType) 0 n (Suc 0)
                   [AffineForOp (Value jv IndexType) 0 m (Suc 0)
                     [AffineLoadOp (Value v1 F64Type) (Value lid (MemRefType sl)) [Value jv IndexType, Value iv IndexType],
                      AffineStoreOp (Value v1 F64Type) (Value aid (MemRefType sa)) [Value iv IndexType, Value jv IndexType],
                      AffineYieldOp],
                    AffineYieldOp]] s = Some s' \<and>
              bufferOf s' (Value aid (MemRefType sa)) = Some (a, B') \<and> bufShape B' = [n, m] \<and>
              (\<forall>i<n. \<forall>j<m. bufCells B' [i, j] = bufCells L [j, i])"
proof -
  note l = bufferOf_SomeD[OF bufs(1)] and b = bufferOf_SomeD[OF bufs(3)]
  let ?body = "[AffineLoadOp (Value v1 F64Type) (Value lid (MemRefType sl)) [Value jv IndexType, Value iv IndexType],
                      AffineStoreOp (Value v1 F64Type) (Value aid (MemRefType sa)) [Value iv IndexType, Value jv IndexType],
                      AffineYieldOp]"
  have body: "\<exists>t'. execBlock ?body t = Some t' \<and>
             (\<forall>v. getType v \<noteq> F64Type \<and> getType v \<noteq> IndexType \<longrightarrow> env t' v = env t v) \<and>
             env t' (Value iv IndexType) = env t (Value iv IndexType) \<and>
             heap t' = (heap t)(a \<mapsto> B'\<lparr>bufCells := (bufCells B')([i, j] := bufCells L [j, i])\<rparr>)"
    if "i < n" "j < m"
        "\<forall>v. getType v \<noteq> F64Type \<and> getType v \<noteq> IndexType \<longrightarrow> env t v = env s v"
        "\<forall>x. x \<noteq> a \<longrightarrow> heap t x = heap s x"
        "heap t a = Some B'" "bufLive B'" "bufShape B' = [n, m]"
        "env t (Value iv IndexType) = Some (IndexVal i)"
        "env t (Value jv IndexType) = Some (IndexVal j)"
        "bufCells B' [i, j] = bufCells B [i, j]" for t B' i j
  proof -
    have "\<exists>t'. execBlock ?body t = Some t' \<and>
             (\<forall>v. getType v \<noteq> F64Type \<longrightarrow> env t' v = env t v) \<and>
             heap t' = (heap t)(a \<mapsto> B'\<lparr>bufCells := (bufCells B')([i, j] := bufCells L [j, i])\<rparr>)"
    proof (rule transpose_body)
    show "env t (Value lid (MemRefType sl)) = Some (MemRefVal la)" using that(3) l by simp
    show "env t (Value aid (MemRefType sa)) = Some (MemRefVal a)" using that(3) b by simp
      show "heap t la = Some L" using that(4) l bufs(5) by simp
    qed (use that l bufs in simp_all)
    then show ?thesis by auto
  qed
  from store_nest[where body = ?body and F = "\<lambda>i j. bufCells L [j, i]" and s = s
      and iv = iv and jv = jv and a = a and m = n and n = m and B = B, OF body _ _ bufs(4) ne(1)] b
  obtain s' B' where s': "exec (AffineForOp (Value iv IndexType) 0 n (Suc 0)
                   [AffineForOp (Value jv IndexType) 0 m (Suc 0) ?body, AffineYieldOp]) s = Some s'"
     "\<forall>v. getType v \<noteq> F64Type \<and> getType v \<noteq> IndexType \<longrightarrow> env s' v = env s v"
     "heap s' a = Some B'" "bufLive B'" "bufShape B' = [n, m]"
     "\<forall>i<n. \<forall>j<m. bufCells B' [i, j] = bufCells L [j, i]"
    by blast
  have "bufferOf s' (Value aid (MemRefType sa)) = Some (a, B')"
    using s'(2,3,4) b by (intro bufferOf_SomeI) simp_all
  then show ?thesis
    using s'(1,5,6) by (simp add: execBlock_def split: option.splits)
qed

text \<open>
  C4. Lowering the transpose of an input of shape \<open>[m, n]\<close>, whose result has shape
  \<open>[n, m]\<close>, succeeds; it allocates a buffer of the result shape and puts at the place
  of the operation a loop nest \<open>G\<close> of two loops, over the result shape, that loads the
  input at the reversed induction variables. Run in a state where the input buffer (of
  shape \<open>[m, n]\<close>) and the result buffer (of shape \<open>[n, m]\<close>) are live and distinct,
  \<open>G\<close> ends with \<open>result[i][j] = input[j][i]\<close> for all \<open>i < n\<close> and \<open>j < m\<close>.
\<close>

theorem transpose_lowering:
  fixes s :: "('a::{plus,times}) Machine"
  assumes "block rw = pre @ pony_TransposeOp (Value r (RankedTensorType [n, m])) x # post @ [t]"
    and "insertionPoint rw = length pre"
    and "bufferOf s (Value lid (MemRefType [m, n])) = Some (la, L)" and "bufShape L = [m, n]"
    and "bufferOf s (Value (nextValueId rw) (MemRefType [n, m])) = Some (a, B)" and "bufShape B = [n, m]"
    and "a \<noteq> la"
  shows "\<exists>rw' iv jv v.
           TransposeOpLowering (pony_TransposeOp (Value r (RankedTensorType [n, m])) x)
             [Value lid (MemRefType [m, n])] rw = Some (success, rw') \<and>
           block rw' = memref_AllocOp (Value (nextValueId rw) (MemRefType [n, m])) # pre @
                         [AffineForOp iv 0 n 1
                           [AffineForOp jv 0 m 1
                             [AffineLoadOp v (Value lid (MemRefType [m, n])) [jv, iv],
                              AffineStoreOp v (Value (nextValueId rw) (MemRefType [n, m])) [iv, jv],
                              AffineYieldOp],
                            AffineYieldOp]] @
                         post @ [memref_DeallocOp (Value (nextValueId rw) (MemRefType [n, m])), t] \<and>
           (\<exists>s' B'. execBlock [AffineForOp iv 0 n 1
                           [AffineForOp jv 0 m 1
                             [AffineLoadOp v (Value lid (MemRefType [m, n])) [jv, iv],
                              AffineStoreOp v (Value (nextValueId rw) (MemRefType [n, m])) [iv, jv],
                              AffineYieldOp],
                            AffineYieldOp]] s = Some s' \<and>
              bufferOf s' (Value (nextValueId rw) (MemRefType [n, m])) = Some (a, B') \<and>
              bufShape B' = [n, m] \<and>
              (\<forall>i<n. \<forall>j<m. bufCells B' [i, j] = bufCells L [j, i]))"
proof -
  have 2: "\<exists>s' B'. execBlock [AffineForOp (Value (nextValueId rw + 1) IndexType) 0 n 1
                 [AffineForOp (Value (nextValueId rw + 2) IndexType) 0 m 1
                   [AffineLoadOp (Value (nextValueId rw + 3) F64Type) (Value lid (MemRefType [m, n]))
                      [Value (nextValueId rw + 2) IndexType, Value (nextValueId rw + 1) IndexType],
                    AffineStoreOp (Value (nextValueId rw + 3) F64Type)
                      (Value (nextValueId rw) (MemRefType [n, m]))
                      [Value (nextValueId rw + 1) IndexType, Value (nextValueId rw + 2) IndexType],
                    AffineYieldOp],
                  AffineYieldOp]] s = Some s' \<and>
              bufferOf s' (Value (nextValueId rw) (MemRefType [n, m])) = Some (a, B') \<and>
              bufShape B' = [n, m] \<and>
              (\<forall>i<n. \<forall>j<m. bufCells B' [i, j] = bufCells L [j, i])"
    unfolding One_nat_def
    by (rule transpose_exec[OF assms(3-7)]) simp
  show ?thesis
    apply (subst TransposeOpLowering_rank2[OF assms(1,2)])
     apply simp
    apply (rule exI, rule exI[of _ "Value (nextValueId rw + 1) IndexType"],
        rule exI[of _ "Value (nextValueId rw + 2) IndexType"],
        rule exI[of _ "Value (nextValueId rw + 3) F64Type"])
    apply (intro conjI)
      apply (rule refl)
     apply simp
    apply (rule 2)
    done
qed


theorem transpose_lowering_witness:
  "\<exists>rw' iv jv v.
     TransposeOpLowering (pony_TransposeOp (Value 1 (RankedTensorType [2, 2])) (Value 0 (RankedTensorType [2, 2])))
       [Value 3 (MemRefType [2, 2])]
       \<lparr>block = [pony_TransposeOp (Value 1 (RankedTensorType [2, 2])) (Value 0 (RankedTensorType [2, 2])),
                 pony_ReturnOp []],
        insertionPoint = 0, nextValueId = 5, mapping = Map.empty\<rparr> = Some (success, rw') \<and>
     block rw' = memref_AllocOp (Value 5 (MemRefType [2, 2])) # [] @
                   [AffineForOp iv 0 2 1
                     [AffineForOp jv 0 2 1
                       [AffineLoadOp v (Value 3 (MemRefType [2, 2])) [jv, iv],
                        AffineStoreOp v (Value 5 (MemRefType [2, 2])) [iv, jv],
                        AffineYieldOp],
                      AffineYieldOp]] @
                   [] @ [memref_DeallocOp (Value 5 (MemRefType [2, 2])), pony_ReturnOp []] \<and>
     (\<exists>s' B'. execBlock [AffineForOp iv 0 2 1
                     [AffineForOp jv 0 2 1
                       [AffineLoadOp v (Value 3 (MemRefType [2, 2])) [jv, iv],
                        AffineStoreOp v (Value 5 (MemRefType [2, 2])) [iv, jv],
                        AffineYieldOp],
                      AffineYieldOp]]
           \<lparr>env = [Value 3 (MemRefType [2, 2]) \<mapsto> MemRefVal 0, Value 5 (MemRefType [2, 2]) \<mapsto> MemRefVal 2],
            heap = [0 \<mapsto> \<lparr>bufShape = [2, 2], bufLive = True, bufCells = (\<lambda>c. real (2 * (c ! 0) + c ! 1 + 1))\<rparr>,
                    2 \<mapsto> \<lparr>bufShape = [2, 2], bufLive = True, bufCells = (\<lambda>c. 0)\<rparr>],
            uninitialized = (\<lambda>c. 0)\<rparr> = Some s' \<and>
          bufferOf s' (Value 5 (MemRefType [2, 2])) = Some (2, B') \<and> bufShape B' = [2, 2] \<and>
          map (bufCells B') [[0, 0], [0, 1], [1, 0], [1, 1]] = [1, 3, 2, 4])"
proof -
  let ?s = "\<lparr>env = [Value 3 (MemRefType [2, 2]) \<mapsto> MemRefVal 0, Value 5 (MemRefType [2, 2]) \<mapsto> MemRefVal 2],
            heap = [0 \<mapsto> \<lparr>bufShape = [2, 2], bufLive = True, bufCells = (\<lambda>c. real (2 * (c ! 0) + c ! 1 + 1))\<rparr>,
                    2 \<mapsto> \<lparr>bufShape = [2, 2], bufLive = True, bufCells = (\<lambda>c. 0)\<rparr>],
            uninitialized = (\<lambda>c. 0::real)\<rparr>"
  let ?L = "\<lparr>bufShape = [2, 2], bufLive = True, bufCells = (\<lambda>c. real (2 * (c ! 0) + c ! 1 + 1))\<rparr>"
  let ?B = "\<lparr>bufShape = [2, 2], bufLive = True, bufCells = (\<lambda>c. 0::real)\<rparr>"
  have two: "(\<forall>i<2::nat. \<forall>j<2::nat. P i j) \<longleftrightarrow> P 0 0 \<and> P 0 1 \<and> P 1 0 \<and> P 1 1" for P
    by (auto simp: less_2_cases_iff)
  have h: "bufferOf ?s (Value 3 (MemRefType [2, 2])) = Some (0, ?L)"
    "bufferOf ?s (Value 5 (MemRefType [2, 2])) = Some (2, ?B)"
    by (simp_all add: bufferOf_def memrefOf_def)
  show ?thesis
    using transpose_lowering[where rw = "\<lparr>block = [pony_TransposeOp (Value 1 (RankedTensorType [2, 2])) (Value 0 (RankedTensorType [2, 2])),
                 pony_ReturnOp []], insertionPoint = 0, nextValueId = 5, mapping = Map.empty\<rparr>"
        and pre = "[]" and post = "[]" and t = "pony_ReturnOp []" and s = ?s and m = 2 and n = 2 and lid = 3
        and la = 0 and a = 2 and r = 1 and x = "Value 0 (RankedTensorType [2, 2])" and L = ?L and B = ?B] h
    by (simp add: two)
qed

section \<open>Matrix multiply-accumulate\<close>

lemma GemmOpLowering_eval:
  assumes "block rw = pre @ X # post @ [t]" and "insertionPoint rw = length pre"
    and "getResult X = Some (Value r (RankedTensorType [M, N]))"
    and "getType lhs = MemRefType [M', K]"
  shows "GemmOpLowering X [lhs, rhs] rw =
     Some (success,
       rw\<lparr>block := memref_AllocOp (Value (nextValueId rw) (MemRefType [M, N])) # pre @
               [AffineForOp (Value (nextValueId rw + 1) IndexType) 0 M 1
                 [AffineForOp (Value (nextValueId rw + 2) IndexType) 0 N 1
                   [AffineForOp (Value (nextValueId rw + 3) IndexType) 0 K 1
                     [AffineLoadOp (Value (nextValueId rw + 4) F64Type) lhs
                        [Value (nextValueId rw + 1) IndexType, Value (nextValueId rw + 3) IndexType],
                      AffineLoadOp (Value (nextValueId rw + 5) F64Type) rhs
                        [Value (nextValueId rw + 2) IndexType, Value (nextValueId rw + 3) IndexType],
                      arith_MulFOp (Value (nextValueId rw + 6) F64Type)
                        (Value (nextValueId rw + 4) F64Type) (Value (nextValueId rw + 5) F64Type),
                      AffineLoadOp (Value (nextValueId rw + 7) F64Type)
                        (Value (nextValueId rw) (MemRefType [M, N]))
                        [Value (nextValueId rw + 1) IndexType, Value (nextValueId rw + 2) IndexType],
                      arith_AddFOp (Value (nextValueId rw + 8) F64Type)
                        (Value (nextValueId rw + 7) F64Type) (Value (nextValueId rw + 6) F64Type),
                      AffineStoreOp (Value (nextValueId rw + 8) F64Type)
                        (Value (nextValueId rw) (MemRefType [M, N]))
                        [Value (nextValueId rw + 1) IndexType, Value (nextValueId rw + 2) IndexType],
                      AffineYieldOp],
                    AffineYieldOp],
                  AffineYieldOp]] @
               post @ [memref_DeallocOp (Value (nextValueId rw) (MemRefType [M, N])), t],
           insertionPoint := length pre + 2,
           nextValueId := nextValueId rw + 9,
           mapping := (mapping rw)(Value r (RankedTensorType [M, N]) \<mapsto>
                         Value (nextValueId rw) (MemRefType [M, N]))\<rparr>)"
proof -
  let ?a = "Value (nextValueId rw) (MemRefType [M, N])"
  have "insertAllocAndDealloc (MemRefType [M, N]) rw =
          (?a, rw\<lparr>block := memref_AllocOp ?a # pre @ X # post @ [memref_DeallocOp ?a, t],
                   insertionPoint := Suc (length pre), nextValueId := Suc (nextValueId rw)\<rparr>)"
    using insertAllocAndDealloc_mid[OF assms(1,2)] .
  then show ?thesis
    using assms(3,4)
    apply (simp add: GemmOpLowering_def castTensorType_def elemAt_def getLhs_def getRhs_def)
    apply (simp add: createResult_def newValue_def create_def)
    apply (simp add: replaceOp_def eraseOp_def eval_nat_numeral)
    done
qed

lemma gemm_kbody:
  fixes t :: "('a::{plus,times}) Machine"
  assumes "env t (Value lid (MemRefType sl)) = Some (MemRefVal la)" "heap t la = Some L" "bufLive L" "bufShape L = [M, K]"
    and "env t (Value rid (MemRefType sr)) = Some (MemRefVal ra)" "heap t ra = Some R" "bufLive R" "bufShape R = [N, K]"
    and "env t (Value aid (MemRefType sa)) = Some (MemRefVal a)" "heap t a = Some B" "bufLive B" "bufShape B = [M, N]"
    and "a \<noteq> la" "a \<noteq> ra"
    and "env t (Value iv IndexType) = Some (IndexVal i)" "env t (Value jv IndexType) = Some (IndexVal j)"
      "env t (Value kv IndexType) = Some (IndexVal k)"
    and "i < M" "j < N" "k < K"
    and "distinct [v1, v2, v3, v4, v5]"
  shows "\<exists>t'. execBlock [AffineLoadOp (Value v1 F64Type) (Value lid (MemRefType sl)) [Value iv IndexType, Value kv IndexType],
                     AffineLoadOp (Value v2 F64Type) (Value rid (MemRefType sr)) [Value jv IndexType, Value kv IndexType],
                     arith_MulFOp (Value v3 F64Type) (Value v1 F64Type) (Value v2 F64Type),
                     AffineLoadOp (Value v4 F64Type) (Value aid (MemRefType sa)) [Value iv IndexType, Value jv IndexType],
                     arith_AddFOp (Value v5 F64Type) (Value v4 F64Type) (Value v3 F64Type),
                     AffineStoreOp (Value v5 F64Type) (Value aid (MemRefType sa)) [Value iv IndexType, Value jv IndexType],
                     AffineYieldOp] t = Some t' \<and>
              (\<forall>v. getType v \<noteq> F64Type \<longrightarrow> env t' v = env t v) \<and>
              heap t' = (heap t)(a \<mapsto> B\<lparr>bufCells := (bufCells B)([i, j] :=
                           bufCells B [i, j] + bufCells L [i, k] * bufCells R [j, k])\<rparr>)"
  using assms
  by (auto simp: execBlock_Cons execBlock_Nil bufferOf_def memrefOf_def coordsOf_def indexOf_def
      floatOf_def bindValue_def inBounds_def)


lemma gemm_kloop:
  fixes t :: "('a::{plus,times}) Machine"
  assumes lhs: "env t (Value lid (MemRefType sl)) = Some (MemRefVal la)" "heap t la = Some L" "bufLive L" "bufShape L = [M, K]"
    and rhs: "env t (Value rid (MemRefType sr)) = Some (MemRefVal ra)" "heap t ra = Some R" "bufLive R" "bufShape R = [N, K]"
    and res: "env t (Value aid (MemRefType sa)) = Some (MemRefVal a)" "heap t a = Some B" "bufLive B" "bufShape B = [M, N]"
    and ne: "a \<noteq> la" "a \<noteq> ra"
    and ivs: "env t (Value iv IndexType) = Some (IndexVal i)" "env t (Value jv IndexType) = Some (IndexVal j)"
    and bnd: "i < M" "j < N"
    and dist: "distinct [v1, v2, v3, v4, v5]" "kv \<noteq> iv" "kv \<noteq> jv"
  shows "\<exists>t'. exec (AffineForOp (Value kv IndexType) 0 K (Suc 0)
                    [AffineLoadOp (Value v1 F64Type) (Value lid (MemRefType sl)) [Value iv IndexType, Value kv IndexType],
                     AffineLoadOp (Value v2 F64Type) (Value rid (MemRefType sr)) [Value jv IndexType, Value kv IndexType],
                     arith_MulFOp (Value v3 F64Type) (Value v1 F64Type) (Value v2 F64Type),
                     AffineLoadOp (Value v4 F64Type) (Value aid (MemRefType sa)) [Value iv IndexType, Value jv IndexType],
                     arith_AddFOp (Value v5 F64Type) (Value v4 F64Type) (Value v3 F64Type),
                     AffineStoreOp (Value v5 F64Type) (Value aid (MemRefType sa)) [Value iv IndexType, Value jv IndexType],
                     AffineYieldOp]) t = Some t' \<and>
              (\<forall>v. getType v \<noteq> F64Type \<and> getType v \<noteq> IndexType \<longrightarrow> env t' v = env t v) \<and>
              env t' (Value iv IndexType) = env t (Value iv IndexType) \<and>
              heap t' = (heap t)(a \<mapsto> B\<lparr>bufCells := (bufCells B)([i, j] :=
                           foldl (\<lambda>acc k. acc + bufCells L [i, k] * bufCells R [j, k]) (bufCells B [i, j]) [0..<K])\<rparr>)"
proof -
  let ?body = "[AffineLoadOp (Value v1 F64Type) (Value lid (MemRefType sl)) [Value iv IndexType, Value kv IndexType],
                     AffineLoadOp (Value v2 F64Type) (Value rid (MemRefType sr)) [Value jv IndexType, Value kv IndexType],
                     arith_MulFOp (Value v3 F64Type) (Value v1 F64Type) (Value v2 F64Type),
                     AffineLoadOp (Value v4 F64Type) (Value aid (MemRefType sa)) [Value iv IndexType, Value jv IndexType],
                     arith_AddFOp (Value v5 F64Type) (Value v4 F64Type) (Value v3 F64Type),
                     AffineStoreOp (Value v5 F64Type) (Value aid (MemRefType sa)) [Value iv IndexType, Value jv IndexType],
                     AffineYieldOp]"
  define acc where "acc = (\<lambda>k. B\<lparr>bufCells := (bufCells B)([i, j] :=
                           foldl (\<lambda>acc k'. acc + bufCells L [i, k'] * bufCells R [j, k']) (bufCells B [i, j]) [0..<k])\<rparr>)"
  define I where "I = (\<lambda>k (t2 :: 'a Machine).
      (\<forall>v. getType v \<noteq> F64Type \<and> getType v \<noteq> IndexType \<longrightarrow> env t2 v = env t v) \<and>
      env t2 (Value iv IndexType) = Some (IndexVal i) \<and> env t2 (Value jv IndexType) = Some (IndexVal j) \<and>
      heap t2 = (heap t)(a \<mapsto> acc k))"
  have acc0: "acc 0 = B"
    by (simp add: acc_def)
  have I0: "I 0 t"
    using ivs res(2) by (auto simp: I_def acc0 map_upd_triv)
  have step: "\<exists>t3. execBlock ?body (bindValue (Value kv IndexType) (IndexVal k) t2) = Some t3 \<and> I (Suc k) t3"
    if "k < K" "I k t2" for k t2
  proof -
    let ?t = "bindValue (Value kv IndexType) (IndexVal k) t2"
    from that(2) have fr: "\<forall>v. getType v \<noteq> F64Type \<and> getType v \<noteq> IndexType \<longrightarrow> env t2 v = env t v"
      and iv2: "env t2 (Value iv IndexType) = Some (IndexVal i)" "env t2 (Value jv IndexType) = Some (IndexVal j)"
      and h2: "heap t2 = (heap t)(a \<mapsto> acc k)"
      by (auto simp: I_def)
    have e: "env ?t (Value lid (MemRefType sl)) = Some (MemRefVal la)"
      "env ?t (Value rid (MemRefType sr)) = Some (MemRefVal ra)"
      "env ?t (Value aid (MemRefType sa)) = Some (MemRefVal a)"
      "env ?t (Value iv IndexType) = Some (IndexVal i)"
      "env ?t (Value jv IndexType) = Some (IndexVal j)"
      "env ?t (Value kv IndexType) = Some (IndexVal k)"
      using fr iv2 lhs(1) rhs(1) res(1) dist(2,3) by (auto simp: bindValue_def)
    have h: "heap ?t la = Some L" "heap ?t ra = Some R" "heap ?t a = Some (acc k)"
      using h2 lhs(2) rhs(2) ne by (auto simp: bindValue_def)
    have a: "bufLive (acc k)" "bufShape (acc k) = [M, N]"
      using res(3,4) by (simp_all add: acc_def)
    from gemm_kbody[OF e(1) h(1) lhs(3,4) e(2) h(2) rhs(3,4) e(3) h(3) a ne e(4,5,6) bnd \<open>k < K\<close> dist(1)]
    obtain t3 where t3: "execBlock ?body ?t = Some t3"
      "\<forall>v. getType v \<noteq> F64Type \<longrightarrow> env t3 v = env ?t v"
      "heap t3 = (heap ?t)(a \<mapsto> (acc k)\<lparr>bufCells := (bufCells (acc k))([i, j] :=
                           bufCells (acc k) [i, j] + bufCells L [i, k] * bufCells R [j, k])\<rparr>)"
      by blast
    have "(acc k)\<lparr>bufCells := (bufCells (acc k))([i, j] :=
                           bufCells (acc k) [i, j] + bufCells L [i, k] * bufCells R [j, k])\<rparr> = acc (Suc k)"
      by (simp add: acc_def)
    then have "heap t3 = (heap t)(a \<mapsto> acc (Suc k))"
      using t3(3) h2 by (simp add: bindValue_def)
    moreover have "\<forall>v. getType v \<noteq> F64Type \<and> getType v \<noteq> IndexType \<longrightarrow> env t3 v = env t v"
      using t3(2) fr by (auto simp: bindValue_def)
    moreover have "env t3 (Value iv IndexType) = Some (IndexVal i)" "env t3 (Value jv IndexType) = Some (IndexVal j)"
      using t3(2) e(4,5) by simp_all
    ultimately show ?thesis using t3(1) by (simp add: I_def)
  qed
  have "\<exists>t'. forEachM [0..<K] (\<lambda>x s1. execBlock ?body (bindValue (Value kv IndexType) (IndexVal x) s1)) t = Some t' \<and> I K t'"
    by (rule forEachM_upt_rule[where I = I, OF I0]) (use step in blast)
  then show ?thesis
    by (simp only: exec_For_unit) (auto simp: I_def acc_def ivs)
qed

lemma gemm_exec:
  fixes s :: "('a::{plus,times}) Machine"
  assumes bufs: "bufferOf s (Value lid (MemRefType sl)) = Some (la, L)" "bufShape L = [M, K]"
      "bufferOf s (Value rid (MemRefType sr)) = Some (ra, R)" "bufShape R = [N, K]"
      "bufferOf s (Value aid (MemRefType sa)) = Some (a, B)" "bufShape B = [M, N]"
      "a \<noteq> la" "a \<noteq> ra"
    and dist: "distinct [iv, jv, kv]" "distinct [v1, v2, v3, v4, v5]"
  shows "\<exists>s' B'. execBlock [AffineForOp (Value iv IndexType) 0 M (Suc 0)
                   [AffineForOp (Value jv IndexType) 0 N (Suc 0)
                     [AffineForOp (Value kv IndexType) 0 K (Suc 0)
                       [AffineLoadOp (Value v1 F64Type) (Value lid (MemRefType sl)) [Value iv IndexType, Value kv IndexType],
                        AffineLoadOp (Value v2 F64Type) (Value rid (MemRefType sr)) [Value jv IndexType, Value kv IndexType],
                        arith_MulFOp (Value v3 F64Type) (Value v1 F64Type) (Value v2 F64Type),
                        AffineLoadOp (Value v4 F64Type) (Value aid (MemRefType sa)) [Value iv IndexType, Value jv IndexType],
                        arith_AddFOp (Value v5 F64Type) (Value v4 F64Type) (Value v3 F64Type),
                        AffineStoreOp (Value v5 F64Type) (Value aid (MemRefType sa)) [Value iv IndexType, Value jv IndexType],
                        AffineYieldOp],
                      AffineYieldOp],
                    AffineYieldOp]] s = Some s' \<and>
              bufferOf s' (Value aid (MemRefType sa)) = Some (a, B') \<and> bufShape B' = [M, N] \<and>
              (\<forall>i<M. \<forall>j<N. bufCells B' [i, j] =
                  foldl (\<lambda>acc k. acc + bufCells L [i, k] * bufCells R [j, k]) (bufCells B [i, j]) [0..<K])"
proof -
  note l = bufferOf_SomeD[OF bufs(1)] and r = bufferOf_SomeD[OF bufs(3)] and b = bufferOf_SomeD[OF bufs(5)]
  let ?kbody = "[AffineLoadOp (Value v1 F64Type) (Value lid (MemRefType sl)) [Value iv IndexType, Value kv IndexType],
                        AffineLoadOp (Value v2 F64Type) (Value rid (MemRefType sr)) [Value jv IndexType, Value kv IndexType],
                        arith_MulFOp (Value v3 F64Type) (Value v1 F64Type) (Value v2 F64Type),
                        AffineLoadOp (Value v4 F64Type) (Value aid (MemRefType sa)) [Value iv IndexType, Value jv IndexType],
                        arith_AddFOp (Value v5 F64Type) (Value v4 F64Type) (Value v3 F64Type),
                        AffineStoreOp (Value v5 F64Type) (Value aid (MemRefType sa)) [Value iv IndexType, Value jv IndexType],
                        AffineYieldOp]"
  let ?body = "[AffineForOp (Value kv IndexType) 0 K (Suc 0) ?kbody, AffineYieldOp]"
  let ?F = "\<lambda>i j. foldl (\<lambda>acc k. acc + bufCells L [i, k] * bufCells R [j, k]) (bufCells B [i, j]) [0..<K]"
  have body: "\<exists>t'. execBlock ?body t = Some t' \<and>
             (\<forall>v. getType v \<noteq> F64Type \<and> getType v \<noteq> IndexType \<longrightarrow> env t' v = env t v) \<and>
             env t' (Value iv IndexType) = env t (Value iv IndexType) \<and>
             heap t' = (heap t)(a \<mapsto> B'\<lparr>bufCells := (bufCells B')([i, j] := ?F i j)\<rparr>)"
    if "i < M" "j < N"
        "\<forall>v. getType v \<noteq> F64Type \<and> getType v \<noteq> IndexType \<longrightarrow> env t v = env s v"
        "\<forall>x. x \<noteq> a \<longrightarrow> heap t x = heap s x"
        "heap t a = Some B'" "bufLive B'" "bufShape B' = [M, N]"
        "env t (Value iv IndexType) = Some (IndexVal i)"
        "env t (Value jv IndexType) = Some (IndexVal j)"
        "bufCells B' [i, j] = bufCells B [i, j]" for t B' i j
  proof -
    have e: "env t (Value lid (MemRefType sl)) = Some (MemRefVal la)"
      "env t (Value rid (MemRefType sr)) = Some (MemRefVal ra)"
      "env t (Value aid (MemRefType sa)) = Some (MemRefVal a)"
      using that(3) l r b by simp_all
    have h: "heap t la = Some L" "heap t ra = Some R"
      using that(4) l r bufs(7,8) by simp_all
    have d: "kv \<noteq> iv" "kv \<noteq> jv" using dist(1) by auto
    have "\<exists>t'. exec (AffineForOp (Value kv IndexType) 0 K (Suc 0) ?kbody) t = Some t' \<and>
              (\<forall>v. getType v \<noteq> F64Type \<and> getType v \<noteq> IndexType \<longrightarrow> env t' v = env t v) \<and>
              env t' (Value iv IndexType) = env t (Value iv IndexType) \<and>
              heap t' = (heap t)(a \<mapsto> B'\<lparr>bufCells := (bufCells B')([i, j] :=
                           foldl (\<lambda>acc k. acc + bufCells L [i, k] * bufCells R [j, k]) (bufCells B' [i, j]) [0..<K])\<rparr>)"
      by (rule gemm_kloop[OF e(1) h(1) _ bufs(2) e(2) h(2) _ bufs(4) e(3) that(5,6,7) bufs(7,8) that(8,9,1,2) dist(2) d])
        (use l r in simp_all)
    then show ?thesis
      unfolding execBlock_yield that(10) .
  qed
  have ne: "iv \<noteq> jv" using dist(1) by simp
  from store_nest[where body = ?body and F = ?F and s = s
      and iv = iv and jv = jv and a = a and m = M and n = N and B = B, OF body _ _ bufs(6) ne] b
  obtain s' B' where s': "exec (AffineForOp (Value iv IndexType) 0 M (Suc 0)
                   [AffineForOp (Value jv IndexType) 0 N (Suc 0) ?body, AffineYieldOp]) s = Some s'"
     "\<forall>v. getType v \<noteq> F64Type \<and> getType v \<noteq> IndexType \<longrightarrow> env s' v = env s v"
     "heap s' a = Some B'" "bufLive B'" "bufShape B' = [M, N]"
     "\<forall>i<M. \<forall>j<N. bufCells B' [i, j] = ?F i j"
    by blast
  have "bufferOf s' (Value aid (MemRefType sa)) = Some (a, B')"
    using s'(2,3,4) b by (intro bufferOf_SomeI) simp_all
  then show ?thesis
    using s'(1,5,6) by (simp add: execBlock_def split: option.splits)
qed


text \<open>
  C2. Lowering a gemm whose result has shape \<open>[M, N]\<close>, with a left operand of shape
  \<open>[M, K]\<close> and a right operand of shape \<open>[N, K]\<close>, succeeds and puts at the place of
  the operation three nested loops over \<open>i < M\<close>, \<open>j < N\<close>, \<open>k < K\<close> whose body loads
  \<open>lhs[i, k]\<close> and \<open>rhs[j, k]\<close>, multiplies them, loads \<open>result[i, j]\<close>, adds the
  product and stores the sum at \<open>result[i, j]\<close>: nothing initializes the result. Run
  in a state where the three buffers are live and the result buffer is not one of the
  operands, the nest ends with \<open>result[i][j]\<close> equal to the products
  \<open>lhs[i][k] * rhs[j][k]\<close> added one after the other, for \<open>k\<close> from \<open>0\<close> up to
  \<open>K - 1\<close>, to what the cell held before; so when the result buffer held zero
  everywhere, it is the sum of the products accumulated in loop order from zero:
  \<open>(...((0 + lhs[i][0] * rhs[j][0]) + lhs[i][1] * rhs[j][1]) + ...)\<close>. The scalars are
  any type with an addition, a multiplication and a zero; no law of the arithmetic is
  used, so the order of the additions is the order of the loop.
\<close>

theorem gemm_lowering:
  fixes s :: "('a::{plus,times,zero}) Machine"
  assumes "block rw = pre @ pony_GemmOp (Value r (RankedTensorType [M, N])) x y # post @ [t]"
    and "insertionPoint rw = length pre"
    and "bufferOf s (Value lid (MemRefType [M, K])) = Some (la, L)" and "bufShape L = [M, K]"
    and "bufferOf s (Value rid (MemRefType [N, K])) = Some (ra, R)" and "bufShape R = [N, K]"
    and "bufferOf s (Value (nextValueId rw) (MemRefType [M, N])) = Some (a, B)" and "bufShape B = [M, N]"
    and "a \<noteq> la" and "a \<noteq> ra"
  shows "\<exists>rw' iv jv kv v1 v2 v3 v4 v5.
           GemmOpLowering (pony_GemmOp (Value r (RankedTensorType [M, N])) x y)
             [Value lid (MemRefType [M, K]), Value rid (MemRefType [N, K])] rw = Some (success, rw') \<and>
           block rw' = memref_AllocOp (Value (nextValueId rw) (MemRefType [M, N])) # pre @
                         [AffineForOp iv 0 M 1
                           [AffineForOp jv 0 N 1
                             [AffineForOp kv 0 K 1
                               [AffineLoadOp v1 (Value lid (MemRefType [M, K])) [iv, kv],
                                AffineLoadOp v2 (Value rid (MemRefType [N, K])) [jv, kv],
                                arith_MulFOp v3 v1 v2,
                                AffineLoadOp v4 (Value (nextValueId rw) (MemRefType [M, N])) [iv, jv],
                                arith_AddFOp v5 v4 v3,
                                AffineStoreOp v5 (Value (nextValueId rw) (MemRefType [M, N])) [iv, jv],
                                AffineYieldOp],
                              AffineYieldOp],
                            AffineYieldOp]] @
                         post @ [memref_DeallocOp (Value (nextValueId rw) (MemRefType [M, N])), t] \<and>
           (\<exists>s' B'. execBlock [AffineForOp iv 0 M 1
                           [AffineForOp jv 0 N 1
                             [AffineForOp kv 0 K 1
                               [AffineLoadOp v1 (Value lid (MemRefType [M, K])) [iv, kv],
                                AffineLoadOp v2 (Value rid (MemRefType [N, K])) [jv, kv],
                                arith_MulFOp v3 v1 v2,
                                AffineLoadOp v4 (Value (nextValueId rw) (MemRefType [M, N])) [iv, jv],
                                arith_AddFOp v5 v4 v3,
                                AffineStoreOp v5 (Value (nextValueId rw) (MemRefType [M, N])) [iv, jv],
                                AffineYieldOp],
                              AffineYieldOp],
                            AffineYieldOp]] s = Some s' \<and>
              bufferOf s' (Value (nextValueId rw) (MemRefType [M, N])) = Some (a, B') \<and>
              bufShape B' = [M, N] \<and>
              (\<forall>i<M. \<forall>j<N. bufCells B' [i, j] =
                  foldl (\<lambda>acc k. acc + bufCells L [i, k] * bufCells R [j, k]) (bufCells B [i, j]) [0..<K]) \<and>
              ((\<forall>i<M. \<forall>j<N. bufCells B [i, j] = 0) \<longrightarrow>
               (\<forall>i<M. \<forall>j<N. bufCells B' [i, j] =
                    foldl (\<lambda>acc k. acc + bufCells L [i, k] * bufCells R [j, k]) 0 [0..<K])))"
proof -
  have 2: "\<exists>s' B'. execBlock [AffineForOp (Value (nextValueId rw + 1) IndexType) 0 M 1
                 [AffineForOp (Value (nextValueId rw + 2) IndexType) 0 N 1
                   [AffineForOp (Value (nextValueId rw + 3) IndexType) 0 K 1
                     [AffineLoadOp (Value (nextValueId rw + 4) F64Type) (Value lid (MemRefType [M, K]))
                        [Value (nextValueId rw + 1) IndexType, Value (nextValueId rw + 3) IndexType],
                      AffineLoadOp (Value (nextValueId rw + 5) F64Type) (Value rid (MemRefType [N, K]))
                        [Value (nextValueId rw + 2) IndexType, Value (nextValueId rw + 3) IndexType],
                      arith_MulFOp (Value (nextValueId rw + 6) F64Type)
                        (Value (nextValueId rw + 4) F64Type) (Value (nextValueId rw + 5) F64Type),
                      AffineLoadOp (Value (nextValueId rw + 7) F64Type)
                        (Value (nextValueId rw) (MemRefType [M, N]))
                        [Value (nextValueId rw + 1) IndexType, Value (nextValueId rw + 2) IndexType],
                      arith_AddFOp (Value (nextValueId rw + 8) F64Type)
                        (Value (nextValueId rw + 7) F64Type) (Value (nextValueId rw + 6) F64Type),
                      AffineStoreOp (Value (nextValueId rw + 8) F64Type)
                        (Value (nextValueId rw) (MemRefType [M, N]))
                        [Value (nextValueId rw + 1) IndexType, Value (nextValueId rw + 2) IndexType],
                      AffineYieldOp],
                    AffineYieldOp],
                  AffineYieldOp]] s = Some s' \<and>
              bufferOf s' (Value (nextValueId rw) (MemRefType [M, N])) = Some (a, B') \<and>
              bufShape B' = [M, N] \<and>
              (\<forall>i<M. \<forall>j<N. bufCells B' [i, j] =
                  foldl (\<lambda>acc k. acc + bufCells L [i, k] * bufCells R [j, k]) (bufCells B [i, j]) [0..<K]) \<and>
              ((\<forall>i<M. \<forall>j<N. bufCells B [i, j] = 0) \<longrightarrow>
               (\<forall>i<M. \<forall>j<N. bufCells B' [i, j] =
                    foldl (\<lambda>acc k. acc + bufCells L [i, k] * bufCells R [j, k]) 0 [0..<K]))"
    using gemm_exec[OF assms(3-10), of "nextValueId rw + 1" "nextValueId rw + 2" "nextValueId rw + 3"
        "nextValueId rw + 4" "nextValueId rw + 5" "nextValueId rw + 6" "nextValueId rw + 7" "nextValueId rw + 8"]
    unfolding One_nat_def by fastforce
  show ?thesis
    apply (subst GemmOpLowering_eval[OF assms(1,2), where M' = M and K = K])
      apply simp
     apply simp
    apply (rule exI, rule exI[of _ "Value (nextValueId rw + 1) IndexType"],
        rule exI[of _ "Value (nextValueId rw + 2) IndexType"],
        rule exI[of _ "Value (nextValueId rw + 3) IndexType"],
        rule exI[of _ "Value (nextValueId rw + 4) F64Type"],
        rule exI[of _ "Value (nextValueId rw + 5) F64Type"],
        rule exI[of _ "Value (nextValueId rw + 6) F64Type"],
        rule exI[of _ "Value (nextValueId rw + 7) F64Type"],
        rule exI[of _ "Value (nextValueId rw + 8) F64Type"])
    apply (intro conjI)
      apply (rule refl)
     apply simp
    apply (rule 2)
    done
qed


theorem gemm_lowering_witness:
  "\<exists>rw' iv jv kv v1 v2 v3 v4 v5.
     GemmOpLowering (pony_GemmOp (Value 2 (RankedTensorType [2, 2])) (Value 0 (RankedTensorType [2, 2])) (Value 1 (RankedTensorType [2, 2])))
       [Value 3 (MemRefType [2, 2]), Value 4 (MemRefType [2, 2])]
       \<lparr>block = [pony_GemmOp (Value 2 (RankedTensorType [2, 2])) (Value 0 (RankedTensorType [2, 2])) (Value 1 (RankedTensorType [2, 2])),
                 pony_ReturnOp []],
        insertionPoint = 0, nextValueId = 5, mapping = Map.empty\<rparr> = Some (success, rw') \<and>
     block rw' = memref_AllocOp (Value 5 (MemRefType [2, 2])) # [] @
             [AffineForOp iv 0 2 1
               [AffineForOp jv 0 2 1
                 [AffineForOp kv 0 2 1
                   [AffineLoadOp v1 (Value 3 (MemRefType [2, 2])) [iv, kv],
                    AffineLoadOp v2 (Value 4 (MemRefType [2, 2])) [jv, kv],
                    arith_MulFOp v3 v1 v2,
                    AffineLoadOp v4 (Value 5 (MemRefType [2, 2])) [iv, jv],
                    arith_AddFOp v5 v4 v3,
                    AffineStoreOp v5 (Value 5 (MemRefType [2, 2])) [iv, jv],
                    AffineYieldOp],
                  AffineYieldOp],
                AffineYieldOp]] @
             [] @ [memref_DeallocOp (Value 5 (MemRefType [2, 2])), pony_ReturnOp []] \<and>
     (\<exists>s' B'. execBlock [AffineForOp iv 0 2 1
               [AffineForOp jv 0 2 1
                 [AffineForOp kv 0 2 1
                   [AffineLoadOp v1 (Value 3 (MemRefType [2, 2])) [iv, kv],
                    AffineLoadOp v2 (Value 4 (MemRefType [2, 2])) [jv, kv],
                    arith_MulFOp v3 v1 v2,
                    AffineLoadOp v4 (Value 5 (MemRefType [2, 2])) [iv, jv],
                    arith_AddFOp v5 v4 v3,
                    AffineStoreOp v5 (Value 5 (MemRefType [2, 2])) [iv, jv],
                    AffineYieldOp],
                  AffineYieldOp],
                AffineYieldOp]]
           \<lparr>env = [Value 3 (MemRefType [2, 2]) \<mapsto> MemRefVal 0, Value 4 (MemRefType [2, 2]) \<mapsto> MemRefVal 1,
                   Value 5 (MemRefType [2, 2]) \<mapsto> MemRefVal 2],
            heap = [0 \<mapsto> \<lparr>bufShape = [2, 2], bufLive = True, bufCells = (\<lambda>c. real (2 * (c ! 0) + c ! 1 + 1))\<rparr>,
                    1 \<mapsto> \<lparr>bufShape = [2, 2], bufLive = True, bufCells = (\<lambda>c. real (2 * (c ! 0) + c ! 1 + 5))\<rparr>,
                    2 \<mapsto> \<lparr>bufShape = [2, 2], bufLive = True, bufCells = (\<lambda>c. 0)\<rparr>],
            uninitialized = (\<lambda>c. 0::real)\<rparr> = Some s' \<and>
          bufferOf s' (Value 5 (MemRefType [2, 2])) = Some (2, B') \<and> bufShape B' = [2, 2] \<and>
          map (bufCells B') [[0, 0], [0, 1], [1, 0], [1, 1]] = [17, 23, 39, 53])"
proof -
  let ?s = "\<lparr>env = [Value 3 (MemRefType [2, 2]) \<mapsto> MemRefVal 0, Value 4 (MemRefType [2, 2]) \<mapsto> MemRefVal 1,
                   Value 5 (MemRefType [2, 2]) \<mapsto> MemRefVal 2],
            heap = [0 \<mapsto> \<lparr>bufShape = [2, 2], bufLive = True, bufCells = (\<lambda>c. real (2 * (c ! 0) + c ! 1 + 1))\<rparr>,
                    1 \<mapsto> \<lparr>bufShape = [2, 2], bufLive = True, bufCells = (\<lambda>c. real (2 * (c ! 0) + c ! 1 + 5))\<rparr>,
                    2 \<mapsto> \<lparr>bufShape = [2, 2], bufLive = True, bufCells = (\<lambda>c. 0)\<rparr>],
            uninitialized = (\<lambda>c. 0::real)\<rparr>"
  let ?L = "\<lparr>bufShape = [2, 2], bufLive = True, bufCells = (\<lambda>c. real (2 * (c ! 0) + c ! 1 + 1))\<rparr>"
  let ?R = "\<lparr>bufShape = [2, 2], bufLive = True, bufCells = (\<lambda>c. real (2 * (c ! 0) + c ! 1 + 5))\<rparr>"
  let ?B = "\<lparr>bufShape = [2, 2], bufLive = True, bufCells = (\<lambda>c. 0::real)\<rparr>"
  have two: "(\<forall>i<2::nat. \<forall>j<2::nat. P i j) \<longleftrightarrow> P 0 0 \<and> P 0 1 \<and> P 1 0 \<and> P 1 1" for P
    by (auto simp: less_2_cases_iff)
  have sum2: "foldl f b [0..<2] = f (f b 0) 1" for f :: "real \<Rightarrow> nat \<Rightarrow> real" and b
    by (simp add: numeral_2_eq_2)
  have h: "bufferOf ?s (Value 3 (MemRefType [2, 2])) = Some (0, ?L)"
    "bufferOf ?s (Value 4 (MemRefType [2, 2])) = Some (1, ?R)"
    "bufferOf ?s (Value 5 (MemRefType [2, 2])) = Some (2, ?B)"
    by (simp_all add: bufferOf_def memrefOf_def)
  show ?thesis
    using gemm_lowering[where rw = "\<lparr>block = [pony_GemmOp (Value 2 (RankedTensorType [2, 2])) (Value 0 (RankedTensorType [2, 2])) (Value 1 (RankedTensorType [2, 2])),
                 pony_ReturnOp []],
        insertionPoint = 0, nextValueId = 5, mapping = Map.empty\<rparr>"
        and pre = "[]" and post = "[]" and t = "pony_ReturnOp []" and s = ?s and M = 2 and N = 2 and K = 2
        and lid = 3 and rid = 4 and la = 0 and ra = 1 and a = 2 and r = 2
        and x = "Value 0 (RankedTensorType [2, 2])" and y = "Value 1 (RankedTensorType [2, 2])"
        and L = ?L and R = ?R and B = ?B] h
    by (simp add: two sum2)
qed

section \<open>Literals of any rank\<close>

text \<open>
  The operations \<^verbatim>\<open>storeElements\<close> creates for the dimensions \<open>dims\<close>, when the
  coordinates chosen so far are \<open>p\<close>, \<open>k\<close> elements are consumed and \<open>n\<close> is the next
  value name: for each coordinate in row-major order, the constant of the next element
  and its store.
\<close>

fun storeOps ::
  "'a list \<Rightarrow> Value \<Rightarrow> Value list \<Rightarrow> nat list \<Rightarrow> nat list \<Rightarrow> nat \<Rightarrow> nat \<Rightarrow> 'a Operation list" where
  "storeOps xs alloc ci [] p k n =
     [arith_ConstantOp (Value n F64Type) (xs ! k),
      AffineStoreOp (Value n F64Type) alloc (map ((!) ci) p)]"
| "storeOps xs alloc ci (e # ds) p k n =
     concat (map (\<lambda>i. storeOps xs alloc ci ds (p @ [i]) (k + i * prod_list ds) (n + i * prod_list ds))
               [0..<e])"

lemma length_storeOps: "length (storeOps xs alloc ci dims p k n) = 2 * prod_list dims"
proof (induction dims arbitrary: p k n)
  case Nil
  then show ?case by simp
next
  case (Cons e ds)
  have "length (concat (map (\<lambda>i. storeOps xs alloc ci ds (p @ [i]) (k + i * prod_list ds) (n + i * prod_list ds)) [0..<m]))
          = m * (2 * prod_list ds)" for m
    by (induction m) (simp_all add: Cons.IH)
  then show ?case by simp
qed

lemma forEachM_upt_eq:
  assumes "\<And>i. i < n \<Longrightarrow> f i (g i) = Some (g (Suc i))"
  shows "forEachM [0..<n] f (g 0) = Some (g n)"
  using assms
proof (induction n)
  case 0
  then show ?case by simp
next
  case (Suc n)
  then show ?case by (simp add: forEachM_append)
qed

lemma storeElements_emits:
  assumes "block (rewriter st) = pre @ post" and "insertionPoint (rewriter st) = length pre"
    and "valueIt st + prod_list dims \<le> length xs" and "\<forall>d\<in>set dims. d \<le> length ci"
    and "indices st = map ((!) ci) p"
  shows "storeElements xs alloc ci dims st =
           Some (st\<lparr>rewriter := (rewriter st)\<lparr>
                      block := pre @ storeOps xs alloc ci dims p (valueIt st) (nextValueId (rewriter st)) @ post,
                      insertionPoint := length pre + 2 * prod_list dims,
                      nextValueId := nextValueId (rewriter st) + prod_list dims\<rparr>,
                    valueIt := valueIt st + prod_list dims\<rparr>)"
  using assms
proof (induction dims arbitrary: st pre p)
  case Nil
  then show ?case
    by (simp add: elemAt_def createResult_def newValue_def create_def)
next
  case (Cons e ds)
  let ?P = "prod_list ds"
  let ?f = "\<lambda>i. storeOps xs alloc ci ds (p @ [i]) (valueIt st + i * ?P) (nextValueId (rewriter st) + i * ?P)"
  define g where "g = (\<lambda>i. st\<lparr>rewriter := (rewriter st)\<lparr>
                      block := pre @ concat (map ?f [0..<i]) @ post,
                      insertionPoint := length pre + 2 * (i * ?P),
                      nextValueId := nextValueId (rewriter st) + i * ?P\<rparr>,
                    valueIt := valueIt st + i * ?P\<rparr>)"
  have g0: "g 0 = st"
    using Cons.prems(1,2) by (simp add: g_def)
  have len: "length (concat (map ?f [0..<i])) = 2 * (i * ?P)" for i
    by (induction i) (simp_all add: length_storeOps)
  have step: "(do {
       idx \<leftarrow> elemAt ci i;
       st2 \<leftarrow> storeElements xs alloc ci ds ((g i)\<lparr>indices := indices (g i) @ [idx]\<rparr>);
       Some (st2\<lparr>indices := butlast (indices st2)\<rparr>)
     }) = Some (g (Suc i))" if "i < e" for i
  proof -
    have i: "i < length ci" using that Cons.prems(4) by auto
    have le: "i * ?P + ?P \<le> e * ?P"
      using that by (metis Suc_leI mult_Suc mult_le_mono1 add.commute)
    let ?st = "(g i)\<lparr>indices := indices (g i) @ [ci ! i]\<rparr>"
    have "storeElements xs alloc ci ds ?st =
           Some (?st\<lparr>rewriter := (rewriter ?st)\<lparr>
                      block := (pre @ concat (map ?f [0..<i])) @ storeOps xs alloc ci ds (p @ [i]) (valueIt ?st) (nextValueId (rewriter ?st)) @ post,
                      insertionPoint := length (pre @ concat (map ?f [0..<i])) + 2 * prod_list ds,
                      nextValueId := nextValueId (rewriter ?st) + prod_list ds\<rparr>,
                    valueIt := valueIt ?st + prod_list ds\<rparr>)"
    proof (rule Cons.IH)
      show "valueIt ?st + prod_list ds \<le> length xs"
        using Cons.prems(3) le by (simp add: g_def)
      show "indices ?st = map ((!) ci) (p @ [i])"
        using Cons.prems(5) by (simp add: g_def)
    qed (use Cons.prems(4) in \<open>simp_all add: g_def len\<close>)
    then show ?thesis
      using i Cons.prems(5) by (simp add: elemAt_def g_def len algebra_simps)
  qed
  have "forEachM [0..<e] (\<lambda>i st1. do {
       idx \<leftarrow> elemAt ci i;
       st2 \<leftarrow> storeElements xs alloc ci ds (st1\<lparr>indices := indices st1 @ [idx]\<rparr>);
       Some (st2\<lparr>indices := butlast (indices st2)\<rparr>)
     }) (g 0) = Some (g e)"
    by (rule forEachM_upt_eq) (use step in simp)
  then show ?case
    by (simp add: g0) (simp add: g_def)
qed


lemma createConstantIndices_emits:
  assumes "block rw = pre @ post" and "insertionPoint rw = length pre"
  shows "createConstantIndices is acc rw =
           (acc @ map (\<lambda>k. Value (nextValueId rw + k) IndexType) [0..<length is],
            rw\<lparr>block := pre @ map (\<lambda>k. arith_ConstantIndexOp (Value (nextValueId rw + k) IndexType) (is ! k))
                                  [0..<length is] @ post,
               insertionPoint := length pre + length is,
               nextValueId := nextValueId rw + length is\<rparr>)"
  using assms
proof (induction "is" arbitrary: acc rw pre)
  case Nil
  then show ?case by simp
next
  case (Cons i "is")
  let ?c = "Value (nextValueId rw) IndexType"
  let ?rw = "rw\<lparr>block := (pre @ [arith_ConstantIndexOp ?c i]) @ post,
                 insertionPoint := length (pre @ [arith_ConstantIndexOp ?c i]),
                 nextValueId := Suc (nextValueId rw)\<rparr>"
  have 1: "createResult IndexType (\<lambda>r. arith_ConstantIndexOp r i) rw = (?c, ?rw)"
    using Cons.prems by (simp add: createResult_def newValue_def create_def)
  have 2: "[0..<Suc (length is)] = 0 # map Suc [0..<length is]"
    by (simp only: map_Suc_upt upt_conv_Cons[OF zero_less_Suc])
  show ?case
    apply (simp only: createConstantIndices.simps 1 Let_def prod.case)
    apply (subst Cons.IH[where pre = "pre @ [arith_ConstantIndexOp ?c i]"])
      apply simp
     apply simp
    apply (simp add: 2 comp_def del: upt_Suc)
    done
qed


lemma execBlock_append:
  "execBlock (G1 @ G2) s = (case execBlock G1 s of None \<Rightarrow> None | Some s' \<Rightarrow> execBlock G2 s')"
  by (induction G1 arbitrary: s) (auto simp: execBlock_Cons execBlock_Nil split: option.splits)

lemma constantIndexOps_exec:
  fixes s :: "('a::{plus,times}) Machine"
  shows "\<exists>s'. execBlock (map (\<lambda>k. arith_ConstantIndexOp (Value (n + k) IndexType) k) [0..<m]) s = Some s' \<and>
              heap s' = heap s \<and>
              (\<forall>k<m. env s' (Value (n + k) IndexType) = Some (IndexVal k)) \<and>
              (\<forall>v. getType v \<noteq> IndexType \<longrightarrow> env s' v = env s v)"
proof (induction m)
  case 0
  then show ?case by (simp add: execBlock_Nil)
next
  case (Suc m)
  then obtain s1 where s1: "execBlock (map (\<lambda>k. arith_ConstantIndexOp (Value (n + k) IndexType) k) [0..<m]) s = Some s1"
    "heap s1 = heap s" "\<forall>k<m. env s1 (Value (n + k) IndexType) = Some (IndexVal k)"
    "\<forall>v. getType v \<noteq> IndexType \<longrightarrow> env s1 v = env s v"
    by blast
  show ?case
    using s1 by (auto simp: execBlock_append execBlock_Cons execBlock_Nil bindValue_def less_Suc_eq)
qed

lemma coordsOf_constantIndices:
  assumes "\<forall>i<length ci. env s (ci ! i) = Some (IndexVal i)" and "\<forall>x\<in>set p. x < length ci"
  shows "coordsOf s (map ((!) ci) p) = Some p"
  using assms(2)
proof (induction p)
  case Nil
  then show ?case by (simp add: coordsOf_def)
next
  case (Cons x p)
  then show ?case
    using assms(1) by (simp add: coordsOf_def indexOf_def)
qed

lemma length_rowMajor: "length (rowMajor dims) = prod_list dims"
proof (induction dims)
  case Nil
  then show ?case by simp
next
  case (Cons d ds)
  have "length (concat (map (\<lambda>i. map ((#) i) (rowMajor ds)) [0..<m])) = m * prod_list ds" for m
    by (induction m) (simp_all add: Cons.IH)
  then show ?case by simp
qed

lemma storeOps_exec:
  fixes s :: "('a::{plus,times}) Machine"
  assumes "\<forall>i<length ci. getType (ci ! i) = IndexType \<and> env s (ci ! i) = Some (IndexVal i)"
    and "env s alloc = Some (MemRefVal a)" and "getType alloc \<noteq> F64Type"
    and "heap s a = Some B" and "bufLive B"
    and "list_all2 (<) p (take (length p) (bufShape B))" and "dims = drop (length p) (bufShape B)"
    and "\<forall>d\<in>set dims. d \<le> length ci" and "\<forall>x\<in>set p. x < length ci"
  shows "\<exists>s' B'. execBlock (storeOps xs alloc ci dims p k n) s = Some s' \<and>
           (\<forall>v. getType v \<noteq> F64Type \<longrightarrow> env s' v = env s v) \<and>
           heap s' = (heap s)(a \<mapsto> B') \<and> bufLive B' \<and> bufShape B' = bufShape B \<and>
           map (bufCells B') (map ((@) p) (rowMajor dims)) = map (\<lambda>t. xs ! (k + t)) [0..<prod_list dims] \<and>
           (\<forall>c. take (length p) c \<noteq> p \<longrightarrow> bufCells B' c = bufCells B c)"
  using assms
proof (induction dims arbitrary: s B p k n)
  case Nil
  have full: "take (length p) (bufShape B) = bufShape B"
    using Nil.prems(7) by simp
  have c: "coordsOf (bindValue (Value n F64Type) (FloatVal (xs ! k)) s) (map ((!) ci) p) = Some p"
    by (rule coordsOf_constantIndices) (use Nil.prems in \<open>auto simp: bindValue_def\<close>)
  have "alloc \<noteq> Value n F64Type"
    using Nil.prems(3) by auto
  then show ?case
    using Nil.prems c full
    by (auto simp: execBlock_Cons execBlock_Nil bufferOf_def memrefOf_def floatOf_def bindValue_def
        inBounds_def intro!: exI[of _ "B\<lparr>bufCells := (bufCells B)(p := xs ! k)\<rparr>"])
next
  case (Cons e ds)
  let ?P = "prod_list ds"
  let ?f = "\<lambda>i. storeOps xs alloc ci ds (p @ [i]) (k + i * ?P) (n + i * ?P)"
  let ?cs = "\<lambda>i. map ((@) (p @ [i])) (rowMajor ds)"
  have shp: "bufShape B = take (length p) (bufShape B) @ e # ds"
    using Cons.prems(7) by (metis append_take_drop_id)
  have lenp: "length p < length (bufShape B)"
    using Cons.prems(7) by (metis drop_all leI list.distinct(1))
  have loop: "\<exists>s' B'. execBlock (concat (map ?f [0..<m])) s = Some s' \<and>
           (\<forall>v. getType v \<noteq> F64Type \<longrightarrow> env s' v = env s v) \<and>
           heap s' = (heap s)(a \<mapsto> B') \<and> bufLive B' \<and> bufShape B' = bufShape B \<and>
           map (bufCells B') (concat (map ?cs [0..<m])) = map (\<lambda>t. xs ! (k + t)) [0..<m * ?P] \<and>
           (\<forall>c. take (length p) c \<noteq> p \<longrightarrow> bufCells B' c = bufCells B c)" if "m \<le> e" for m
    using that
  proof (induction m)
    case 0
    then show ?case
      using Cons.prems(4,5) by (auto simp: execBlock_Nil map_upd_triv intro!: exI[of _ B])
  next
    case (Suc m)
    have "m \<le> e" using Suc.prems by simp
    from Suc.IH[OF this] obtain s1 B1 where s1: "execBlock (concat (map ?f [0..<m])) s = Some s1"
      "\<forall>v. getType v \<noteq> F64Type \<longrightarrow> env s1 v = env s v"
      "heap s1 = (heap s)(a \<mapsto> B1)" "bufLive B1" "bufShape B1 = bufShape B"
      "map (bufCells B1) (concat (map ?cs [0..<m])) = map (\<lambda>t. xs ! (k + t)) [0..<m * ?P]"
      "\<forall>c. take (length p) c \<noteq> p \<longrightarrow> bufCells B1 c = bufCells B c"
      by blast
    have m: "m < e" using Suc.prems by simp
    have "\<exists>s' B'. execBlock (storeOps xs alloc ci ds (p @ [m]) (k + m * ?P) (n + m * ?P)) s1 = Some s' \<and>
           (\<forall>v. getType v \<noteq> F64Type \<longrightarrow> env s' v = env s1 v) \<and>
           heap s' = (heap s1)(a \<mapsto> B') \<and> bufLive B' \<and> bufShape B' = bufShape B1 \<and>
           map (bufCells B') (map ((@) (p @ [m])) (rowMajor ds)) = map (\<lambda>t. xs ! (k + m * ?P + t)) [0..<prod_list ds] \<and>
           (\<forall>c. take (length (p @ [m])) c \<noteq> p @ [m] \<longrightarrow> bufCells B' c = bufCells B1 c)"
    proof (rule Cons.IH)
      show "\<forall>i<length ci. getType (ci ! i) = IndexType \<and> env s1 (ci ! i) = Some (IndexVal i)"
        using Cons.prems(1) s1(2) by auto
      show "env s1 alloc = Some (MemRefVal a)"
        using Cons.prems(2,3) s1(2) by auto
      show "heap s1 a = Some B1" using s1(3) by simp
      have "take (length (p @ [m])) (bufShape B1) = take (length p) (bufShape B) @ [e]"
        using shp lenp s1(5) by (metis append_eq_conv_conj length_take min.absorb2 less_imp_le
            take_Suc_conv_app_nth length_append_singleton nth_append_length)
      then show "list_all2 (<) (p @ [m]) (take (length (p @ [m])) (bufShape B1))"
        using Cons.prems(6) m by (simp add: list_all2_appendI)
      show "ds = drop (length (p @ [m])) (bufShape B1)"
        using Cons.prems(7) s1(5) by (metis drop_Suc length_append_singleton list.sel(3) tl_drop)
      show "\<forall>x\<in>set (p @ [m]). x < length ci"
        using Cons.prems(8,9) m by auto
      show "\<forall>d\<in>set ds. d \<le> length ci"
        using Cons.prems(8) by simp
      show "getType alloc \<noteq> F64Type" by (rule Cons.prems(3))
      show "bufLive B1" by (rule s1(4))
    qed
    then obtain s2 B2 where s2: "execBlock (storeOps xs alloc ci ds (p @ [m]) (k + m * ?P) (n + m * ?P)) s1 = Some s2"
      "\<forall>v. getType v \<noteq> F64Type \<longrightarrow> env s2 v = env s1 v"
      "heap s2 = (heap s1)(a \<mapsto> B2)" "bufLive B2" "bufShape B2 = bufShape B1"
      "map (bufCells B2) (?cs m) = map (\<lambda>t. xs ! (k + m * ?P + t)) [0..<?P]"
      "\<forall>c. take (length (p @ [m])) c \<noteq> p @ [m] \<longrightarrow> bufCells B2 c = bufCells B1 c"
      by blast
    have diff: "take (length (p @ [m])) c \<noteq> p @ [m]" if "take (length p) c \<noteq> p" for c
    proof
      assume "take (length (p @ [m])) c = p @ [m]"
      then have "take (length p) (take (length (p @ [m])) c) = take (length p) (p @ [m])"
        by simp
      then have "take (length p) c = p"
        by (simp add: min_def)
      with that show False by simp
    qed
    have old: "map (bufCells B2) (concat (map ?cs [0..<m])) = map (bufCells B1) (concat (map ?cs [0..<m]))"
    proof (rule map_cong[OF refl])
      fix c assume "c \<in> set (concat (map ?cs [0..<m]))"
      then obtain i c' where "i < m" "c = (p @ [i]) @ c'"
        by auto
      then have "take (length (p @ [m])) c \<noteq> p @ [m]"
        by simp
      then show "bufCells B2 c = bufCells B1 c"
        using s2(7) by blast
    qed
    have new: "map (\<lambda>t. xs ! (k + t)) [0..<m * ?P] @ map (\<lambda>t. xs ! (k + m * ?P + t)) [0..<?P] =
               map (\<lambda>t. xs ! (k + t)) [0..<Suc m * ?P]"
    proof -
      have a: "Suc m * ?P = m * ?P + ?P" by simp
      have b: "[0..<m * ?P + ?P] = [0..<m * ?P] @ [m * ?P..<m * ?P + ?P]"
        by (rule upt_add_eq_append) simp
      have c: "[m * ?P..<m * ?P + ?P] = map (\<lambda>t. m * ?P + t) [0..<?P]"
        using map_add_upt[of "m * ?P" ?P] by (simp add: add.commute)
      show ?thesis
        by (simp only: a b c map_append map_map comp_def add.assoc)
    qed
    have 1: "execBlock (concat (map ?f [0..<Suc m])) s = Some s2"
      by (simp add: execBlock_append s1(1) s2(1))
    have 2: "\<forall>v. getType v \<noteq> F64Type \<longrightarrow> env s2 v = env s v"
      using s1(2) s2(2) by simp
    have 3: "heap s2 = (heap s)(a \<mapsto> B2)"
      using s1(3) s2(3) by simp
    have 4: "bufShape B2 = bufShape B"
      using s1(5) s2(5) by simp
    have "map (bufCells B2) (concat (map ?cs [0..<Suc m])) =
            map (bufCells B2) (concat (map ?cs [0..<m])) @ map (bufCells B2) (?cs m)"
      by simp
    also have "\<dots> = map (\<lambda>t. xs ! (k + t)) [0..<m * ?P] @ map (\<lambda>t. xs ! (k + m * ?P + t)) [0..<?P]"
      by (simp only: old s1(6) s2(6))
    finally have 5: "map (bufCells B2) (concat (map ?cs [0..<Suc m])) = map (\<lambda>t. xs ! (k + t)) [0..<Suc m * ?P]"
      by (simp only: new)
    have 6: "\<forall>c. take (length p) c \<noteq> p \<longrightarrow> bufCells B2 c = bufCells B c"
      using diff s2(7) s1(7) by metis
    show ?case
      by (intro exI[of _ s2] exI[of _ B2] conjI 1 2 3 4 5 6 s2(4))
  qed
  have aux: "(@) (p @ [i]) = (\<lambda>c. p @ i # c)" for i
    by (rule ext) simp
  have cs: "map ((@) p) (rowMajor (e # ds)) = concat (map ?cs [0..<e])"
    by (simp add: map_concat comp_def aux)
  have "\<exists>s' B'. execBlock (concat (map ?f [0..<e])) s = Some s' \<and>
           (\<forall>v. getType v \<noteq> F64Type \<longrightarrow> env s' v = env s v) \<and>
           heap s' = (heap s)(a \<mapsto> B') \<and> bufLive B' \<and> bufShape B' = bufShape B \<and>
           map (bufCells B') (concat (map ?cs [0..<e])) = map (\<lambda>t. xs ! (k + t)) [0..<e * ?P] \<and>
           (\<forall>c. take (length p) c \<noteq> p \<longrightarrow> bufCells B' c = bufCells B c)"
    by (rule loop) simp
  then show ?case
    by (simp only: storeOps.simps cs prod_list.Cons)
qed

lemma max_element_ge: "d \<in> set shp \<Longrightarrow> d \<le> max_element shp"
  by (induction shp) auto

lemma ConstantOpLowering_eval:
  assumes "block rw = pre @ pony_ConstantOp (Value r (RankedTensorType shp)) xs # post @ [t]"
    and "insertionPoint rw = length pre"
    and "prod_list shp \<le> length xs"
  shows "ConstantOpLowering (pony_ConstantOp (Value r (RankedTensorType shp)) xs) rw =
     Some (success,
       rw\<lparr>block := memref_AllocOp (Value (nextValueId rw) (MemRefType shp)) # pre @
              (map (\<lambda>k. arith_ConstantIndexOp (Value (Suc (nextValueId rw) + k) IndexType) k)
                 [0..<(if shp = [] then 1 else max_element shp)] @
               storeOps xs (Value (nextValueId rw) (MemRefType shp))
                 (map (\<lambda>k. Value (Suc (nextValueId rw) + k) IndexType)
                    [0..<(if shp = [] then 1 else max_element shp)])
                 shp [] 0 (Suc (nextValueId rw) + (if shp = [] then 1 else max_element shp))) @
              post @ [memref_DeallocOp (Value (nextValueId rw) (MemRefType shp)), t],
           insertionPoint := Suc (length pre) + (if shp = [] then 1 else max_element shp) + 2 * prod_list shp,
           nextValueId := Suc (nextValueId rw) + (if shp = [] then 1 else max_element shp) + prod_list shp,
           mapping := (mapping rw)(Value r (RankedTensorType shp) \<mapsto>
                         Value (nextValueId rw) (MemRefType shp))\<rparr>)"
proof -
  let ?a = "Value (nextValueId rw) (MemRefType shp)"
  let ?X = "pony_ConstantOp (Value r (RankedTensorType shp)) xs"
  let ?mx = "if shp = [] then 1 else max_element shp"
  let ?is = "if shp \<noteq> [] then [0..<max_element shp] else [0]"
  let ?rw1 = "rw\<lparr>block := memref_AllocOp ?a # pre @ ?X # post @ [memref_DeallocOp ?a, t],
                   insertionPoint := Suc (length pre), nextValueId := Suc (nextValueId rw)\<rparr>"
  let ?ci = "map (\<lambda>k. Value (Suc (nextValueId rw) + k) IndexType) [0..<?mx]"
  let ?CI = "map (\<lambda>k. arith_ConstantIndexOp (Value (Suc (nextValueId rw) + k) IndexType) k) [0..<?mx]"
  let ?rw2 = "?rw1\<lparr>block := (memref_AllocOp ?a # pre) @ ?CI @ (?X # post @ [memref_DeallocOp ?a, t]),
                   insertionPoint := length (memref_AllocOp ?a # pre) + ?mx,
                   nextValueId := nextValueId ?rw1 + ?mx\<rparr>"
  let ?st = "\<lparr>rewriter = ?rw2, indices = [], valueIt = 0\<rparr>"
  have 1: "insertAllocAndDealloc (MemRefType shp) rw = (?a, ?rw1)"
    using insertAllocAndDealloc_mid[OF assms(1,2)] .
  have isl: "length ?is = ?mx" and isn: "\<And>k. k < ?mx \<Longrightarrow> ?is ! k = k"
    by (auto simp del: upt_Suc)
  have "createConstantIndices ?is [] ?rw1 =
          ([] @ map (\<lambda>k. Value (nextValueId ?rw1 + k) IndexType) [0..<length ?is],
           ?rw1\<lparr>block := (memref_AllocOp ?a # pre) @
                   map (\<lambda>k. arith_ConstantIndexOp (Value (nextValueId ?rw1 + k) IndexType) (?is ! k)) [0..<length ?is] @
                   (?X # post @ [memref_DeallocOp ?a, t]),
               insertionPoint := length (memref_AllocOp ?a # pre) + length ?is,
               nextValueId := nextValueId ?rw1 + length ?is\<rparr>)"
    by (rule createConstantIndices_emits) simp_all
  moreover have "map (\<lambda>k. arith_ConstantIndexOp (Value (nextValueId ?rw1 + k) IndexType) (?is ! k)) [0..<length ?is] = ?CI"
    unfolding isl by (rule map_cong[OF refl]) (use isn in \<open>simp del: upt_Suc\<close>)
  ultimately have 2: "createConstantIndices ?is [] ?rw1 = (?ci, ?rw2)"
    unfolding isl by simp
  have 3: "storeElements xs ?a ?ci shp ?st =
           Some (?st\<lparr>rewriter := (rewriter ?st)\<lparr>
                      block := (memref_AllocOp ?a # pre @ ?CI) @
                               storeOps xs ?a ?ci shp [] (valueIt ?st) (nextValueId (rewriter ?st)) @
                               (?X # post @ [memref_DeallocOp ?a, t]),
                      insertionPoint := length (memref_AllocOp ?a # pre @ ?CI) + 2 * prod_list shp,
                      nextValueId := nextValueId (rewriter ?st) + prod_list shp\<rparr>,
                    valueIt := valueIt ?st + prod_list shp\<rparr>)"
  proof (rule storeElements_emits)
    show "\<forall>d\<in>set shp. d \<le> length ?ci"
      using max_element_ge by auto
  qed (use assms(3) in \<open>simp_all del: upt_Suc\<close>)
  have ifeq: "(if shp \<noteq> [] then createConstantIndices [0..<max_element shp] [] ?rw1
               else createConstantIndices [0] [] ?rw1) = createConstantIndices ?is [] ?rw1"
    by simp
  show ?thesis
    apply (simp only: ConstantOpLowering.simps)
    apply (simp only: castTensorType_def isaTensorType.simps if_True Value.sel
        convertTensorToMemRef.simps bind.bind_lunit 1 Let_def prod.case getShape.simps)
    apply (simp only: ifeq 2 prod.case 3 bind.bind_lunit)
    apply (simp add: replaceOp_def eraseOp_def length_storeOps del: upt_Suc)
    done
qed


text \<open>Running the operations a literal is lowered to.\<close>

lemma literal_exec:
  fixes s :: "('a::{plus,times}) Machine"
  assumes "bufferOf s (Value aid (MemRefType sa)) = Some (a, B)"
    and that: "\<forall>d\<in>set (bufShape B). d \<le> mx"
  shows "\<exists>s' B'. execBlock
             (map (\<lambda>k. arith_ConstantIndexOp (Value (n + k) IndexType) k) [0..<mx] @
              storeOps xs (Value aid (MemRefType sa))
                 (map (\<lambda>k. Value (n + k) IndexType) [0..<mx]) (bufShape B) [] 0 n') s = Some s' \<and>
           bufferOf s' (Value aid (MemRefType sa)) = Some (a, B') \<and> bufShape B' = bufShape B \<and>
           map (bufCells B') (rowMajor (bufShape B)) = map (\<lambda>t. xs ! t) [0..<prod_list (bufShape B)]"
proof -
  note b = bufferOf_SomeD[OF assms(1)]
  let ?ci = "map (\<lambda>k. Value (n + k) IndexType) [0..<mx]"
  from constantIndexOps_exec[of n mx s]
  obtain s1 where s1: "execBlock (map (\<lambda>k. arith_ConstantIndexOp (Value (n + k) IndexType) k) [0..<mx]) s = Some s1"
    "heap s1 = heap s" "\<forall>k<mx. env s1 (Value (n + k) IndexType) = Some (IndexVal k)"
    "\<forall>v. getType v \<noteq> IndexType \<longrightarrow> env s1 v = env s v"
    by blast
  have p1: "\<forall>i<length ?ci. getType (?ci ! i) = IndexType \<and> env s1 (?ci ! i) = Some (IndexVal i)"
    using s1(3) by (simp del: upt_Suc)
  have p2: "env s1 (Value aid (MemRefType sa)) = Some (MemRefVal a)"
    using s1(4) b by simp
  have p3: "heap s1 a = Some B" using s1(2) b by simp
  have p4: "\<forall>d\<in>set (bufShape B). d \<le> length ?ci"
    using that by simp
  have "\<exists>s' B'. execBlock (storeOps xs (Value aid (MemRefType sa)) ?ci (bufShape B) [] 0 n') s1 = Some s' \<and>
           (\<forall>v. getType v \<noteq> F64Type \<longrightarrow> env s' v = env s1 v) \<and>
           heap s' = (heap s1)(a \<mapsto> B') \<and> bufLive B' \<and> bufShape B' = bufShape B \<and>
           map (bufCells B') (map ((@) []) (rowMajor (bufShape B))) =
             map (\<lambda>t. xs ! (0 + t)) [0..<prod_list (bufShape B)] \<and>
           (\<forall>c. take (length ([]::nat list)) c \<noteq> [] \<longrightarrow> bufCells B' c = bufCells B c)"
    by (rule storeOps_exec[where p = "[]" and dims = "bufShape B" and s = s1 and B = B and ci = ?ci,
          OF p1 p2 _ p3 _ _ _ p4]) (use b in simp_all)
  then obtain s2 B2 where s2: "execBlock (storeOps xs (Value aid (MemRefType sa)) ?ci (bufShape B) [] 0 n') s1 = Some s2"
    "\<forall>v. getType v \<noteq> F64Type \<longrightarrow> env s2 v = env s1 v"
    "heap s2 = (heap s1)(a \<mapsto> B2)" "bufLive B2" "bufShape B2 = bufShape B"
    "map (bufCells B2) (rowMajor (bufShape B)) = map (\<lambda>t. xs ! t) [0..<prod_list (bufShape B)]"
    by (auto simp: map_idI)
  have "bufferOf s2 (Value aid (MemRefType sa)) = Some (a, B2)"
    using s2(2,3,4) s1(4) b by (intro bufferOf_SomeI) simp_all
  then show ?thesis
    using s1(1) s2(1,5,6) by (simp add: execBlock_append)
qed


lemma literal_lowering:
  fixes s :: "('a::{plus,times}) Machine"
  assumes "block rw = pre @ pony_ConstantOp (Value r (RankedTensorType shp)) xs # post @ [t]"
    and "insertionPoint rw = length pre"
    and "prod_list shp \<le> length xs"
    and "bufferOf s (Value (nextValueId rw) (MemRefType shp)) = Some (a, B)" and "bufShape B = shp"
  shows "\<exists>G rw'. ConstantOpLowering (pony_ConstantOp (Value r (RankedTensorType shp)) xs) rw =
                   Some (success, rw') \<and>
           block rw' = memref_AllocOp (Value (nextValueId rw) (MemRefType shp)) # pre @ G @ post @
                         [memref_DeallocOp (Value (nextValueId rw) (MemRefType shp)), t] \<and>
           (\<exists>s' B'. execBlock G s = Some s' \<and>
              bufferOf s' (Value (nextValueId rw) (MemRefType shp)) = Some (a, B') \<and>
              bufShape B' = shp \<and>
              map (bufCells B') (rowMajor shp) = take (prod_list shp) xs)"
proof -
  let ?mx = "if shp = [] then 1 else max_element shp"
  let ?G = "map (\<lambda>k. arith_ConstantIndexOp (Value (Suc (nextValueId rw) + k) IndexType) k) [0..<?mx] @
               storeOps xs (Value (nextValueId rw) (MemRefType shp))
                 (map (\<lambda>k. Value (Suc (nextValueId rw) + k) IndexType) [0..<?mx])
                 shp [] 0 (Suc (nextValueId rw) + ?mx)"
  have mx: "\<forall>d\<in>set (bufShape B). d \<le> ?mx"
    using max_element_ge assms(5) by auto
  have "\<exists>s' B'. execBlock
             (map (\<lambda>k. arith_ConstantIndexOp (Value (Suc (nextValueId rw) + k) IndexType) k) [0..<?mx] @
              storeOps xs (Value (nextValueId rw) (MemRefType shp))
                 (map (\<lambda>k. Value (Suc (nextValueId rw) + k) IndexType) [0..<?mx]) (bufShape B) [] 0
                 (Suc (nextValueId rw) + ?mx)) s = Some s' \<and>
           bufferOf s' (Value (nextValueId rw) (MemRefType shp)) = Some (a, B') \<and> bufShape B' = bufShape B \<and>
           map (bufCells B') (rowMajor (bufShape B)) = map (\<lambda>t. xs ! t) [0..<prod_list (bufShape B)]"
    by (rule literal_exec[OF assms(4) mx])
  moreover have "map (\<lambda>t. xs ! t) [0..<prod_list shp] = take (prod_list shp) xs"
    using assms(3) by (metis map_nth take_map take_upt add_0 min.absorb2 length_map length_upt
        diff_zero take_all_iff order_refl)
  ultimately have 2: "\<exists>s' B'. execBlock ?G s = Some s' \<and>
              bufferOf s' (Value (nextValueId rw) (MemRefType shp)) = Some (a, B') \<and>
              bufShape B' = shp \<and>
              map (bufCells B') (rowMajor shp) = take (prod_list shp) xs"
    using assms(5) by simp
  have 1: "\<exists>rw'. ConstantOpLowering (pony_ConstantOp (Value r (RankedTensorType shp)) xs) rw =
                   Some (success, rw') \<and>
           block rw' = memref_AllocOp (Value (nextValueId rw) (MemRefType shp)) # pre @ ?G @ post @
                         [memref_DeallocOp (Value (nextValueId rw) (MemRefType shp)), t]"
    by (subst ConstantOpLowering_eval[OF assms(1,2,3)]) simp
  from 1 2 show ?thesis by blast
qed

text \<open>
  C6. A literal whose element count is the product of its dimensions is lowered
  successfully, and the operations that take its place, run in a state where the new
  buffer is live with the shape of the literal, leave a buffer whose cells, read in
  row-major order of the coordinates, are the elements of the literal in their order.
\<close>

theorem literal_row_major:
  fixes s :: "('a::{plus,times}) Machine"
  assumes "block rw = pre @ pony_ConstantOp (Value r (RankedTensorType shp)) xs # post @ [t]"
    and "insertionPoint rw = length pre"
    and "length xs = prod_list shp"
    and "bufferOf s (Value (nextValueId rw) (MemRefType shp)) = Some (a, B)" and "bufShape B = shp"
  shows "\<exists>G rw'. ConstantOpLowering (pony_ConstantOp (Value r (RankedTensorType shp)) xs) rw =
                   Some (success, rw') \<and>
           block rw' = memref_AllocOp (Value (nextValueId rw) (MemRefType shp)) # pre @ G @ post @
                         [memref_DeallocOp (Value (nextValueId rw) (MemRefType shp)), t] \<and>
           (\<exists>s' B'. execBlock G s = Some s' \<and>
              bufferOf s' (Value (nextValueId rw) (MemRefType shp)) = Some (a, B') \<and>
              bufShape B' = shp \<and>
              map (bufCells B') (rowMajor shp) = xs)"
  using literal_lowering[OF assms(1,2) _ assms(4,5)] assms(3) by simp


theorem literal_row_major_witness:
  "\<exists>G rw'. ConstantOpLowering (pony_ConstantOp (Value 0 (RankedTensorType [2, 2])) [1, 2, 3, 4::real])
              \<lparr>block = [pony_ConstantOp (Value 0 (RankedTensorType [2, 2])) [1, 2, 3, 4], pony_ReturnOp []],
               insertionPoint = 0, nextValueId = 1, mapping = Map.empty\<rparr> = Some (success, rw') \<and>
      block rw' = memref_AllocOp (Value 1 (MemRefType [2, 2])) # [] @ G @ [] @
                    [memref_DeallocOp (Value 1 (MemRefType [2, 2])), pony_ReturnOp []] \<and>
      (\<exists>s' B'. execBlock G
           \<lparr>env = [Value 1 (MemRefType [2, 2]) \<mapsto> MemRefVal 0],
            heap = [0 \<mapsto> \<lparr>bufShape = [2, 2], bufLive = True, bufCells = (\<lambda>c. 0)\<rparr>],
            uninitialized = (\<lambda>c. 0)\<rparr> = Some s' \<and>
          bufferOf s' (Value 1 (MemRefType [2, 2])) = Some (0, B') \<and> bufShape B' = [2, 2] \<and>
          map (bufCells B') (rowMajor [2, 2]) = [1, 2, 3, 4])"
proof -
  let ?s = "\<lparr>env = [Value 1 (MemRefType [2, 2]) \<mapsto> MemRefVal 0],
            heap = [0 \<mapsto> \<lparr>bufShape = [2, 2], bufLive = True, bufCells = (\<lambda>c. 0::real)\<rparr>],
            uninitialized = (\<lambda>c. 0::real)\<rparr>"
  let ?B = "\<lparr>bufShape = [2, 2], bufLive = True, bufCells = (\<lambda>c. 0::real)\<rparr>"
  have h: "bufferOf ?s (Value 1 (MemRefType [2, 2])) = Some (0, ?B)"
    by (simp add: bufferOf_def memrefOf_def)
  show ?thesis
    using literal_row_major[where rw = "\<lparr>block = [pony_ConstantOp (Value 0 (RankedTensorType [2, 2])) [1, 2, 3, 4::real], pony_ReturnOp []],
               insertionPoint = 0, nextValueId = 1, mapping = Map.empty\<rparr>"
        and pre = "[]" and post = "[]" and t = "pony_ReturnOp []" and s = ?s and shp = "[2, 2]"
        and xs = "[1, 2, 3, 4]" and r = 0 and a = 0 and B = ?B] h
    by simp
qed

section \<open>Literals whose element count does not match\<close>

text \<open>
  C1 as stated does not hold: \<^verbatim>\<open>ConstantOpLowering\<close> has no check of the element count.
  A literal of shape \<open>[1]\<close> with two elements is lowered successfully; the first element
  is stored and the second one is left out.
\<close>

theorem literal_mismatch_counterexample:
  "length [7, 8::real] \<noteq> prod_list [1] \<and>
   ConstantOpLowering (pony_ConstantOp (Value 0 (RankedTensorType [1])) [7, 8::real])
     \<lparr>block = [pony_ConstantOp (Value 0 (RankedTensorType [1])) [7, 8], pony_ReturnOp []],
      insertionPoint = 0, nextValueId = 1, mapping = Map.empty\<rparr> =
   Some (success,
     \<lparr>block = [memref_AllocOp (Value 1 (MemRefType [1])),
               arith_ConstantIndexOp (Value 2 IndexType) 0,
               arith_ConstantOp (Value 3 F64Type) 7,
               AffineStoreOp (Value 3 F64Type) (Value 1 (MemRefType [1])) [Value 2 IndexType],
               memref_DeallocOp (Value 1 (MemRefType [1])),
               pony_ReturnOp []],
      insertionPoint = 4, nextValueId = 4,
      mapping = [Value 0 (RankedTensorType [1]) \<mapsto> Value 1 (MemRefType [1])]\<rparr>)"
  using ConstantOpLowering_eval[where rw = "\<lparr>block = [pony_ConstantOp (Value 0 (RankedTensorType [1])) [7, 8::real], pony_ReturnOp []],
      insertionPoint = 0, nextValueId = 1, mapping = Map.empty\<rparr>"
      and pre = "[]" and post = "[]" and t = "pony_ReturnOp []" and shp = "[1]" and xs = "[7, 8]" and r = 0]
  by (simp add: eval_nat_numeral)

text \<open>
  C1, amended. Lowering a literal never reports a failure, whatever its element
  count. A literal that has at least as many elements as its shape has coordinates is
  lowered successfully, and the buffer then holds, in row-major order, the first
  elements of the literal, as many as the product of the dimensions.
\<close>

theorem literal_lowering_unchecked:
  fixes s :: "('a::{plus,times}) Machine"
  assumes "block rw = pre @ pony_ConstantOp (Value r (RankedTensorType shp)) xs # post @ [t]"
    and "insertionPoint rw = length pre"
    and "prod_list shp \<le> length xs"
    and "bufferOf s (Value (nextValueId rw) (MemRefType shp)) = Some (a, B)" and "bufShape B = shp"
  shows "ConstantOpLowering (pony_ConstantOp res ys) rwa \<noteq> Some (failure, rwb) \<and>
         (\<exists>G rw'. ConstantOpLowering (pony_ConstantOp (Value r (RankedTensorType shp)) xs) rw =
                   Some (success, rw') \<and>
           block rw' = memref_AllocOp (Value (nextValueId rw) (MemRefType shp)) # pre @ G @ post @
                         [memref_DeallocOp (Value (nextValueId rw) (MemRefType shp)), t] \<and>
           (\<exists>s' B'. execBlock G s = Some s' \<and>
              bufferOf s' (Value (nextValueId rw) (MemRefType shp)) = Some (a, B') \<and>
              bufShape B' = shp \<and>
              map (bufCells B') (rowMajor shp) = take (prod_list shp) xs))"
proof
  show "ConstantOpLowering (pony_ConstantOp res ys) rwa \<noteq> Some (failure, rwb)"
    by (auto simp: Let_def split: Option.bind_splits prod.splits)
  show "\<exists>G rw'. ConstantOpLowering (pony_ConstantOp (Value r (RankedTensorType shp)) xs) rw =
                   Some (success, rw') \<and>
           block rw' = memref_AllocOp (Value (nextValueId rw) (MemRefType shp)) # pre @ G @ post @
                         [memref_DeallocOp (Value (nextValueId rw) (MemRefType shp)), t] \<and>
           (\<exists>s' B'. execBlock G s = Some s' \<and>
              bufferOf s' (Value (nextValueId rw) (MemRefType shp)) = Some (a, B') \<and>
              bufShape B' = shp \<and>
              map (bufCells B') (rowMajor shp) = take (prod_list shp) xs)"
    by (rule literal_lowering[OF assms])
qed

theorem literal_lowering_unchecked_witness:
  "ConstantOpLowering (pony_ConstantOp (Value 0 (RankedTensorType [1])) [7, 8::real])
     \<lparr>block = [pony_ConstantOp (Value 0 (RankedTensorType [1])) [7, 8], pony_ReturnOp []],
      insertionPoint = 0, nextValueId = 1, mapping = Map.empty\<rparr> \<noteq>
     Some (failure, \<lparr>block = [], insertionPoint = 0, nextValueId = 0, mapping = Map.empty\<rparr>) \<and>
   (\<exists>G rw'. ConstantOpLowering (pony_ConstantOp (Value 0 (RankedTensorType [1])) [7, 8::real])
              \<lparr>block = [pony_ConstantOp (Value 0 (RankedTensorType [1])) [7, 8], pony_ReturnOp []],
               insertionPoint = 0, nextValueId = 1, mapping = Map.empty\<rparr> = Some (success, rw') \<and>
      block rw' = memref_AllocOp (Value 1 (MemRefType [1])) # [] @ G @ [] @
                    [memref_DeallocOp (Value 1 (MemRefType [1])), pony_ReturnOp []] \<and>
      (\<exists>s' B'. execBlock G
           \<lparr>env = [Value 1 (MemRefType [1]) \<mapsto> MemRefVal 0],
            heap = [0 \<mapsto> \<lparr>bufShape = [1], bufLive = True, bufCells = (\<lambda>c. 0)\<rparr>],
            uninitialized = (\<lambda>c. 0)\<rparr> = Some s' \<and>
          bufferOf s' (Value 1 (MemRefType [1])) = Some (0, B') \<and> bufShape B' = [1] \<and>
          map (bufCells B') (rowMajor [1]) = [7]))"
proof -
  let ?s = "\<lparr>env = [Value 1 (MemRefType [1]) \<mapsto> MemRefVal 0],
            heap = [0 \<mapsto> \<lparr>bufShape = [1], bufLive = True, bufCells = (\<lambda>c. 0::real)\<rparr>],
            uninitialized = (\<lambda>c. 0::real)\<rparr>"
  let ?B = "\<lparr>bufShape = [1], bufLive = True, bufCells = (\<lambda>c. 0::real)\<rparr>"
  let ?rw = "\<lparr>block = [pony_ConstantOp (Value 0 (RankedTensorType [1])) [7, 8::real], pony_ReturnOp []],
               insertionPoint = 0, nextValueId = 1, mapping = Map.empty\<rparr>"
  have h: "bufferOf ?s (Value 1 (MemRefType [1])) = Some (0, ?B)"
    by (simp add: bufferOf_def memrefOf_def)
  show ?thesis
    using literal_lowering_unchecked[where rw = ?rw
        and pre = "[]" and post = "[]" and t = "pony_ReturnOp []" and s = ?s and shp = "[1]"
        and xs = "[7, 8]" and r = 0 and a = 0 and B = ?B
        and res = "Value 0 (RankedTensorType [1])" and ys = "[7, 8]" and rwa = ?rw
        and rwb = "\<lparr>block = [], insertionPoint = 0, nextValueId = 0, mapping = Map.empty\<rparr>"] h
    by simp
qed

section \<open>Buffer lifetimes\<close>

lemma create_all_mid:
  assumes "block rw = pre @ post" and "insertionPoint rw = length pre"
  shows "block (fold (\<lambda>op r. snd (create op r)) ops rw) = pre @ ops @ post \<and>
         insertionPoint (fold (\<lambda>op r. snd (create op r)) ops rw) = length pre + length ops"
  using assms
proof (induction ops arbitrary: rw pre)
  case Nil
  then show ?case by simp
next
  case (Cons op ops)
  have "block (snd (create op rw)) = (pre @ [op]) @ post"
    and "insertionPoint (snd (create op rw)) = length (pre @ [op])"
    using Cons.prems by (simp_all add: create_def)
  from Cons.IH[OF this] show ?case by simp
qed

text \<open>
  C9. In a block that ends with its terminator \<open>t\<close>, with the operation under rewrite
  \<open>X\<close> before the terminator, \<^verbatim>\<open>insertAllocAndDealloc\<close> adds exactly two operations to
  the block: the allocation of the new buffer, as the first operation of the block, and
  its deallocation, immediately before the terminator. The insertion point stays on
  \<open>X\<close>, so whatever operations the rule creates afterwards lie after the allocation and
  before the deallocation, in the same block, as do the operations that followed \<open>X\<close>.
\<close>

theorem alloc_dealloc_placement:
  assumes "block rw = pre @ X # post @ [t]" and "insertionPoint rw = length pre"
  shows "\<exists>rw'. insertAllocAndDealloc ty rw = (Value (nextValueId rw) ty, rw') \<and>
           block rw' = memref_AllocOp (Value (nextValueId rw) ty) # pre @ X # post @
                         [memref_DeallocOp (Value (nextValueId rw) ty), t] \<and>
           block rw' ! insertionPoint rw' = X \<and>
           block (fold (\<lambda>op r. snd (create op r)) uses rw') =
             memref_AllocOp (Value (nextValueId rw) ty) # pre @ uses @ X # post @
               [memref_DeallocOp (Value (nextValueId rw) ty), t]"
proof -
  let ?a = "Value (nextValueId rw) ty"
  let ?rw = "rw\<lparr>block := memref_AllocOp ?a # pre @ X # post @ [memref_DeallocOp ?a, t],
               insertionPoint := Suc (length pre),
               nextValueId := Suc (nextValueId rw)\<rparr>"
  have 1: "insertAllocAndDealloc ty rw = (?a, ?rw)"
    by (rule insertAllocAndDealloc_mid[OF assms])
  have 2: "block ?rw ! insertionPoint ?rw = X"
    by (simp add: nth_append)
  have "block ?rw = (memref_AllocOp ?a # pre) @ (X # post @ [memref_DeallocOp ?a, t])"
    and "insertionPoint ?rw = length (memref_AllocOp ?a # pre)"
    by simp_all
  from create_all_mid[OF this, of uses]
  have 3: "block (fold (\<lambda>op r. snd (create op r)) uses ?rw) =
             memref_AllocOp ?a # pre @ uses @ X # post @ [memref_DeallocOp ?a, t]"
    by simp
  show ?thesis
    using 1 2 3 by (intro exI[of _ ?rw]) simp
qed

theorem alloc_dealloc_placement_witness:
  "\<exists>rw'. insertAllocAndDealloc (MemRefType [2])
            \<lparr>block = [pony_PrintOp [], pony_ConstantOp (Value 0 (RankedTensorType [2])) [1, 2::real],
                      pony_PrintOp [Value 0 (RankedTensorType [2])], pony_ReturnOp []],
             insertionPoint = 1, nextValueId = 1, mapping = Map.empty\<rparr> = (Value 1 (MemRefType [2]), rw') \<and>
     block rw' = [memref_AllocOp (Value 1 (MemRefType [2])), pony_PrintOp [],
                  pony_ConstantOp (Value 0 (RankedTensorType [2])) [1, 2],
                  pony_PrintOp [Value 0 (RankedTensorType [2])],
                  memref_DeallocOp (Value 1 (MemRefType [2])), pony_ReturnOp []] \<and>
     block rw' ! insertionPoint rw' = pony_ConstantOp (Value 0 (RankedTensorType [2])) [1, 2] \<and>
     block (fold (\<lambda>op r. snd (create op r))
              [arith_ConstantOp (Value 2 F64Type) 1,
               AffineStoreOp (Value 2 F64Type) (Value 1 (MemRefType [2])) []] rw') =
       [memref_AllocOp (Value 1 (MemRefType [2])), pony_PrintOp [],
        arith_ConstantOp (Value 2 F64Type) 1,
        AffineStoreOp (Value 2 F64Type) (Value 1 (MemRefType [2])) [],
        pony_ConstantOp (Value 0 (RankedTensorType [2])) [1, 2],
        pony_PrintOp [Value 0 (RankedTensorType [2])],
        memref_DeallocOp (Value 1 (MemRefType [2])), pony_ReturnOp []]"
  using alloc_dealloc_placement[where rw = "\<lparr>block = [pony_PrintOp [], pony_ConstantOp (Value 0 (RankedTensorType [2])) [1, 2::real],
                      pony_PrintOp [Value 0 (RankedTensorType [2])], pony_ReturnOp []],
             insertionPoint = 1, nextValueId = 1, mapping = Map.empty\<rparr>"
      and pre = "[pony_PrintOp []]" and X = "pony_ConstantOp (Value 0 (RankedTensorType [2])) [1, 2]"
      and post = "[pony_PrintOp [Value 0 (RankedTensorType [2])]]" and t = "pony_ReturnOp []"
      and ty = "MemRefType [2]"
      and uses = "[arith_ConstantOp (Value 2 F64Type) 1,
               AffineStoreOp (Value 2 F64Type) (Value 1 (MemRefType [2])) []]"]
  by simp

section \<open>Print\<close>

text \<open>
  C8. A print is legal exactly when none of its operands has a tensor type. Its
  pattern always succeeds and changes nothing but the operand list of the print itself,
  which becomes the operand list of the adaptor: the block keeps its length, every other
  operation, the insertion point, the value names and the mapping. Through the pattern
  set the new operands are the replacement values recorded for the old ones, so when
  every operand has a replacement that is no tensor, or has none and is no tensor, the
  print is legal afterwards.
\<close>

theorem print_lowering:
  "isLegal (pony_PrintOp operands) = (\<forall>v\<in>set operands. \<not> isaTensorType (getType v)) \<and>
   PrintOpLowering (pony_PrintOp operands) adaptorOperands rw =
     Some (success, rw\<lparr>block := (block rw)[insertionPoint rw := pony_PrintOp adaptorOperands]\<rparr>) \<and>
   applyPatterns (pony_PrintOp operands) rw =
     Some (success, rw\<lparr>block := (block rw)[insertionPoint rw := pony_PrintOp (map (remap rw) operands)]\<rparr>) \<and>
   length ((block rw)[insertionPoint rw := pony_PrintOp adaptorOperands]) = length (block rw) \<and>
   (\<forall>k. k \<noteq> insertionPoint rw \<longrightarrow>
        (block rw)[insertionPoint rw := pony_PrintOp adaptorOperands] ! k = block rw ! k) \<and>
   (insertionPoint rw < length (block rw) \<longrightarrow>
        (block rw)[insertionPoint rw := pony_PrintOp adaptorOperands] ! insertionPoint rw =
          pony_PrintOp adaptorOperands) \<and>
   ((\<forall>v\<in>set operands.
        (\<exists>b. mapping rw v = Some b \<and> \<not> isaTensorType (getType b)) \<or>
        (mapping rw v = None \<and> \<not> isaTensorType (getType v))) \<longrightarrow>
    isLegal (pony_PrintOp (map (remap rw) operands)))"
  by (auto simp: list_ex_iff remap_def split: option.splits)

theorem print_lowering_witness:
  "isLegal (pony_PrintOp [Value 0 (RankedTensorType [2])] :: real Operation) = False \<and>
   applyPatterns (pony_PrintOp [Value 0 (RankedTensorType [2])])
     \<lparr>block = [pony_PrintOp [Value 0 (RankedTensorType [2])], pony_ReturnOp [] :: real Operation],
      insertionPoint = 0, nextValueId = 2,
      mapping = [Value 0 (RankedTensorType [2]) \<mapsto> Value 1 (MemRefType [2])]\<rparr> =
     Some (success,
       \<lparr>block = [pony_PrintOp [Value 1 (MemRefType [2])], pony_ReturnOp []],
        insertionPoint = 0, nextValueId = 2,
        mapping = [Value 0 (RankedTensorType [2]) \<mapsto> Value 1 (MemRefType [2])]\<rparr>) \<and>
   isLegal (pony_PrintOp [Value 1 (MemRefType [2])] :: real Operation)"
  using print_lowering[where operands = "[Value 0 (RankedTensorType [2])]"
      and adaptorOperands = "[Value 1 (MemRefType [2])]"
      and rw = "\<lparr>block = [pony_PrintOp [Value 0 (RankedTensorType [2])], pony_ReturnOp [] :: real Operation],
      insertionPoint = 0, nextValueId = 2,
      mapping = [Value 0 (RankedTensorType [2]) \<mapsto> Value 1 (MemRefType [2])]\<rparr>"]
  by (simp add: remap_def)

section \<open>What a rewrite leaves in place\<close>

text \<open>
  \<open>extends rw rw'\<close>: the block of \<open>rw'\<close> is the block of \<open>rw\<close> with operations
  inserted at the insertion point, and the insertion point of \<open>rw'\<close> is behind them.
\<close>

definition extends :: "'a PatternRewriter \<Rightarrow> 'a PatternRewriter \<Rightarrow> bool" where
  "extends rw rw' \<longleftrightarrow>
     (\<exists>pre G post. block rw = pre @ post \<and> insertionPoint rw = length pre \<and>
        block rw' = pre @ G @ post \<and> insertionPoint rw' = length pre + length G)"

lemma extends_refl: "insertionPoint rw \<le> length (block rw) \<Longrightarrow> extends rw rw"
  unfolding extends_def
  by (rule exI[of _ "take (insertionPoint rw) (block rw)"], rule exI[of _ "[]"],
      rule exI[of _ "drop (insertionPoint rw) (block rw)"]) simp

lemma extends_placed: "extends rw rw' \<Longrightarrow> insertionPoint rw' \<le> length (block rw')"
  by (auto simp: extends_def)

lemma extends_trans:
  assumes "extends a b" and "extends b c"
  shows "extends a c"
proof -
  from assms(1) obtain pre G post where 1: "block a = pre @ post" "insertionPoint a = length pre"
    "block b = pre @ G @ post" "insertionPoint b = length pre + length G"
    by (auto simp: extends_def)
  from assms(2) obtain pre2 G2 post2 where 2: "block b = pre2 @ post2" "insertionPoint b = length pre2"
    "block c = pre2 @ G2 @ post2" "insertionPoint c = length pre2 + length G2"
    by (auto simp: extends_def)
  have "(pre @ G) @ post = pre2 @ post2" "length (pre @ G) = length pre2"
    using 1 2 by simp_all
  then have "pre @ G = pre2 \<and> post = post2"
    using append_eq_append_conv[of "pre @ G" pre2 post post2] by blast
  then have "pre2 = pre @ G" "post2 = post"
    by simp_all
  then have "block c = pre @ (G @ G2) @ post" "insertionPoint c = length pre + length (G @ G2)"
    using 2 by simp_all
  with 1 show ?thesis
    unfolding extends_def by blast
qed

lemma extends_same:
  assumes "extends rw rw1" and "block rw2 = block rw1" and "insertionPoint rw2 = insertionPoint rw1"
  shows "extends rw rw2"
  using assms by (simp add: extends_def)

lemma extends_create:
  assumes "insertionPoint rw \<le> length (block rw)"
  shows "extends rw (snd (create op rw))"
  unfolding extends_def
  by (rule exI[of _ "take (insertionPoint rw) (block rw)"], rule exI[of _ "[op]"],
      rule exI[of _ "drop (insertionPoint rw) (block rw)"]) (use assms in \<open>simp add: create_def\<close>)

lemma extends_createResult:
  assumes "insertionPoint rw \<le> length (block rw)"
  shows "extends rw (snd (createResult ty mk rw))"
proof -
  have "snd (createResult ty mk rw) =
          snd (create (mk (Value (nextValueId rw) ty)) (rw\<lparr>nextValueId := Suc (nextValueId rw)\<rparr>))"
    by (simp add: createResult_def newValue_def split: prod.splits)
  moreover have "extends (rw\<lparr>nextValueId := Suc (nextValueId rw)\<rparr>)
                   (snd (create (mk (Value (nextValueId rw) ty)) (rw\<lparr>nextValueId := Suc (nextValueId rw)\<rparr>)))"
    by (rule extends_create) (use assms in simp)
  ultimately show ?thesis
    by (simp add: extends_def)
qed

lemma extends_buildAffineLoopNest:
  assumes "\<And>ivs rw rw'. insertionPoint rw \<le> length (block rw) \<Longrightarrow> f ivs rw = Some rw' \<Longrightarrow> extends rw rw'"
    and "insertionPoint rw \<le> length (block rw)"
    and "buildAffineLoopNest lbs ubs steps ivs f rw = Some rw'"
  shows "extends rw rw'"
proof (cases lbs)
  case Nil
  then show ?thesis
    using assms by (cases ubs; cases steps) auto
next
  case lbs: (Cons lb lbs')
  show ?thesis
  proof (cases ubs)
    case Nil
    then show ?thesis using assms(3) lbs by simp
  next
    case ubs: (Cons ub ubs')
    show ?thesis
    proof (cases steps)
      case Nil
      then show ?thesis using assms(3) lbs ubs by simp
    next
      case steps: (Cons step steps')
      from assms(3) obtain body n where
        "rw' = snd (create (AffineForOp (Value (nextValueId rw) IndexType) lb ub step body)
                     (rw\<lparr>nextValueId := n\<rparr>))"
        unfolding lbs ubs steps
        by (auto simp: newValue_def Let_def split: option.splits)
      moreover have "extends (rw\<lparr>nextValueId := n\<rparr>)
          (snd (create (AffineForOp (Value (nextValueId rw) IndexType) lb ub step body) (rw\<lparr>nextValueId := n\<rparr>)))"
        by (rule extends_create) (use assms(2) in simp)
      ultimately show ?thesis
        by (simp add: extends_def)
    qed
  qed
qed


lemma extends_createResult_eq:
  assumes "createResult ty mk rw = (v, rw')" and "insertionPoint rw \<le> length (block rw)"
  shows "extends rw rw'"
  using extends_createResult[OF assms(2), of ty mk] assms(1) by simp

lemma insertAllocAndDealloc_last:
  assumes "block rw = pre @ [X]" and "insertionPoint rw = length pre"
  shows "insertAllocAndDealloc ty rw =
           (Value (nextValueId rw) ty,
            rw\<lparr>block := memref_AllocOp (Value (nextValueId rw) ty) # pre @
                          [memref_DeallocOp (Value (nextValueId rw) ty), X],
               insertionPoint := Suc (Suc (length pre)),
               nextValueId := Suc (nextValueId rw)\<rparr>)"
  using assms
  by (cases pre)
    (auto simp: insertAllocAndDealloc_def newValue_def create_def moveBefore_def Let_def nth_append)

lemma insertAllocAndDealloc_keeps:
  assumes "block rw = pre @ X # rest" and "insertionPoint rw = length pre"
  shows "\<exists>A C. block (snd (insertAllocAndDealloc ty rw)) = A @ X # C \<and>
               insertionPoint (snd (insertAllocAndDealloc ty rw)) = length A \<and>
               set pre \<union> set rest \<subseteq> set A \<union> set C"
proof (cases rest rule: rev_cases)
  case Nil
  let ?a = "Value (nextValueId rw) ty"
  have "block (snd (insertAllocAndDealloc ty rw)) = (memref_AllocOp ?a # pre @ [memref_DeallocOp ?a]) @ X # []"
    and "insertionPoint (snd (insertAllocAndDealloc ty rw)) = length (memref_AllocOp ?a # pre @ [memref_DeallocOp ?a])"
    using insertAllocAndDealloc_last[of rw pre X ty] assms Nil by simp_all
  moreover have "set pre \<union> set rest \<subseteq> set (memref_AllocOp ?a # pre @ [memref_DeallocOp ?a]) \<union> set []"
    using Nil by auto
  ultimately show ?thesis by blast
next
  case (snoc post t)
  let ?a = "Value (nextValueId rw) ty"
  have "block (snd (insertAllocAndDealloc ty rw)) = (memref_AllocOp ?a # pre) @ X # (post @ [memref_DeallocOp ?a, t])"
    and "insertionPoint (snd (insertAllocAndDealloc ty rw)) = length (memref_AllocOp ?a # pre)"
    using insertAllocAndDealloc_mid[of rw pre X post t ty] assms snoc by simp_all
  moreover have "set pre \<union> set rest \<subseteq> set (memref_AllocOp ?a # pre) \<union> set (post @ [memref_DeallocOp ?a, t])"
    using snoc by auto
  ultimately show ?thesis by blast
qed

lemma block_replaceOp:
  "block (replaceOp op vs rw) =
     take (insertionPoint rw) (block rw) @ drop (Suc (insertionPoint rw)) (block rw)"
  by (simp add: replaceOp_def eraseOp_def split: option.splits list.splits)

text \<open>
  A rule that allocates the result buffer, inserts operations before the operation
  under rewrite and replaces it leaves every other operation of the block in the block.
\<close>

lemma rewrite_keeps:
  assumes "block rw = pre @ X # rest" and "insertionPoint rw = length pre"
    and "extends (snd (insertAllocAndDealloc ty rw)) rw2"
  shows "set pre \<union> set rest \<subseteq> set (block (replaceOp op vs rw2))"
proof -
  from insertAllocAndDealloc_keeps[OF assms(1,2), of ty] obtain A C where
    ac: "block (snd (insertAllocAndDealloc ty rw)) = A @ X # C"
      "insertionPoint (snd (insertAllocAndDealloc ty rw)) = length A"
      "set pre \<union> set rest \<subseteq> set A \<union> set C"
    by blast
  from assms(3) obtain p G q where
    e: "block (snd (insertAllocAndDealloc ty rw)) = p @ q"
      "insertionPoint (snd (insertAllocAndDealloc ty rw)) = length p"
      "block rw2 = p @ G @ q" "insertionPoint rw2 = length p + length G"
    unfolding extends_def by blast
  have "A @ (X # C) = p @ q" "length A = length p"
    using ac e by simp_all
  then have "A = p \<and> X # C = q"
    using append_eq_append_conv[of A p "X # C" q] by blast
  then have "block rw2 = (A @ G) @ X # C" "insertionPoint rw2 = length (A @ G)"
    using e by simp_all
  then have "block (replaceOp op vs rw2) = A @ G @ C"
    unfolding block_replaceOp by simp
  then show ?thesis
    using ac(3) by auto
qed

lemma insertAllocAndDealloc_placed:
  assumes "insertionPoint rw < length (block rw)"
  shows "insertionPoint (snd (insertAllocAndDealloc ty rw)) \<le> length (block (snd (insertAllocAndDealloc ty rw)))"
proof -
  have "block rw = take (insertionPoint rw) (block rw) @ (block rw ! insertionPoint rw) #
          drop (Suc (insertionPoint rw)) (block rw)"
    using assms by (simp add: id_take_nth_drop[symmetric])
  moreover have "insertionPoint rw = length (take (insertionPoint rw) (block rw))"
    using assms by simp
  ultimately obtain A C where
    "block (snd (insertAllocAndDealloc ty rw)) = A @ (block rw ! insertionPoint rw) # C"
    "insertionPoint (snd (insertAllocAndDealloc ty rw)) = length A"
    using insertAllocAndDealloc_keeps[of rw "take (insertionPoint rw) (block rw)"
        "block rw ! insertionPoint rw" "drop (Suc (insertionPoint rw)) (block rw)" ty]
    by blast
  then show ?thesis by simp
qed

lemma lowerOpToLoops_keeps:
  assumes pI: "\<And>nb ivs v nb1. insertionPoint nb \<le> length (block nb) \<Longrightarrow>
                 processIteration nb operands ivs = Some (v, nb1) \<Longrightarrow> extends nb nb1"
    and "block rw = pre @ X # rest" and "insertionPoint rw = length pre"
    and "lowerOpToLoops op operands processIteration rw = Some rw'"
  shows "set pre \<union> set rest \<subseteq> set (block rw')"
proof -
  from assms(4) obtain ty shape alloc rw1 rw2 where
    1: "insertAllocAndDealloc ty rw = (alloc, rw1)"
    and 2: "buildAffineLoopNest (replicate (length shape) 0) shape (replicate (length shape) 1) []
              (\<lambda>ivs nestedBuilder. do {
                 (valueToStore, nb) \<leftarrow> processIteration nestedBuilder operands ivs;
                 Some (snd (create (AffineStoreOp valueToStore alloc ivs) nb))
               }) rw1 = Some rw2"
    and 3: "rw' = replaceOp op [alloc] rw2"
    unfolding lowerOpToLoops_def
    by (auto simp: Let_def split: Option.bind_splits prod.splits)
  have placed: "insertionPoint rw1 \<le> length (block rw1)"
    using insertAllocAndDealloc_placed[of rw ty] assms(2,3) 1 by simp
  have "extends rw1 rw2"
  proof (rule extends_buildAffineLoopNest[OF _ placed 2])
    fix ivs and nb nb' :: "'a PatternRewriter"
    assume nb: "insertionPoint nb \<le> length (block nb)"
      and "(do {
                 (valueToStore, nb1) \<leftarrow> processIteration nb operands ivs;
                 Some (snd (create (AffineStoreOp valueToStore alloc ivs) nb1))
               }) = Some nb'"
    then obtain v nb1 where a: "processIteration nb operands ivs = Some (v, nb1)"
      and b: "nb' = snd (create (AffineStoreOp v alloc ivs) nb1)"
      by (auto split: Option.bind_splits)
    have "extends nb nb1" by (rule pI[OF nb a])
    moreover have "extends nb1 nb'"
      unfolding b by (rule extends_create) (rule extends_placed, fact)
    ultimately show "extends nb nb'" by (rule extends_trans)
  qed
  then have "extends (snd (insertAllocAndDealloc ty rw)) rw2"
    using 1 by simp
  from rewrite_keeps[OF assms(2,3) this] show ?thesis
    unfolding 3 .
qed


lemma BinaryOpLowering_keeps:
  assumes "block rw = pre @ X # rest" and "insertionPoint rw = length pre"
    and "BinaryOpLowering mk op operands rw = Some (res, rw')"
  shows "set pre \<union> set rest \<subseteq> set (block rw')"
proof -
  let ?pI = "\<lambda>builder memRefOperands loopIvs. do {
                lhs \<leftarrow> getLhs memRefOperands;
                rhs \<leftarrow> getRhs memRefOperands;
                let (loadedLhs, b1) = createResult F64Type (\<lambda>r. AffineLoadOp r lhs loopIvs) builder;
                let (loadedRhs, b2) = createResult F64Type (\<lambda>r. AffineLoadOp r rhs loopIvs) b1;
                Some (createResult F64Type (\<lambda>r. mk r loadedLhs loadedRhs) b2)
              }"
  from assms(3) have l: "lowerOpToLoops op operands ?pI rw = Some rw'"
    unfolding BinaryOpLowering_def by (auto split: Option.bind_splits)
  show ?thesis
  proof (rule lowerOpToLoops_keeps[OF _ assms(1,2) l])
    fix nb nb1 :: "'a PatternRewriter" and ivs v
    assume nb: "insertionPoint nb \<le> length (block nb)" and "?pI nb operands ivs = Some (v, nb1)"
    then obtain lhs rhs l b1 r b2 where
      1: "createResult F64Type (\<lambda>r. AffineLoadOp r lhs ivs) nb = (l, b1)"
      and 2: "createResult F64Type (\<lambda>r. AffineLoadOp r rhs ivs) b1 = (r, b2)"
      and 3: "createResult F64Type (\<lambda>x. mk x l r) b2 = (v, nb1)"
      by (auto simp: Let_def split: Option.bind_splits prod.splits)
    have e1: "extends nb b1" by (rule extends_createResult_eq[OF 1 nb])
    have e2: "extends b1 b2" by (rule extends_createResult_eq[OF 2 extends_placed[OF e1]])
    have e3: "extends b2 nb1" by (rule extends_createResult_eq[OF 3 extends_placed[OF e2]])
    show "extends nb nb1"
      by (rule extends_trans[OF extends_trans[OF e1 e2] e3])
  qed
qed

lemma TransposeOpLowering_keeps:
  assumes "block rw = pre @ X # rest" and "insertionPoint rw = length pre"
    and "TransposeOpLowering op operands rw = Some (res, rw')"
  shows "set pre \<union> set rest \<subseteq> set (block rw')"
proof -
  let ?pI = "\<lambda>builder memRefOperands loopIvs. do {
                 input \<leftarrow> getInput memRefOperands;
                 let reverseIvs = rev loopIvs;
                 Some (createResult F64Type (\<lambda>r. AffineLoadOp r input reverseIvs) builder)
               }"
  from assms(3) have l: "lowerOpToLoops op operands ?pI rw = Some rw'"
    unfolding TransposeOpLowering_def by (auto split: Option.bind_splits)
  show ?thesis
  proof (rule lowerOpToLoops_keeps[OF _ assms(1,2) l])
    fix nb nb1 :: "'a PatternRewriter" and ivs v
    assume nb: "insertionPoint nb \<le> length (block nb)" and "?pI nb operands ivs = Some (v, nb1)"
    then obtain input where
      1: "createResult F64Type (\<lambda>r. AffineLoadOp r input (rev ivs)) nb = (v, nb1)"
      by (auto simp: Let_def split: Option.bind_splits)
    show "extends nb nb1" by (rule extends_createResult_eq[OF 1 nb])
  qed
qed

lemma GemmOpLowering_keeps:
  assumes "block rw = pre @ X # rest" and "insertionPoint rw = length pre"
    and "GemmOpLowering op operands rw = Some (res, rw')"
  shows "set pre \<union> set rest \<subseteq> set (block rw')"
proof -
  from assms(3) obtain ty alloc rw1 rw2 M N K where
    1: "insertAllocAndDealloc ty rw = (alloc, rw1)"
    and 2: "buildAffineLoopNest [0, 0, 0] [M, N, K] [1, 1, 1] []
              (\<lambda>ivs nestedBuilder. do {
                 i \<leftarrow> elemAt ivs 0;
                 j \<leftarrow> elemAt ivs 1;
                 k \<leftarrow> elemAt ivs 2;
                 gemmLhs \<leftarrow> getLhs operands;
                 gemmRhs \<leftarrow> getRhs operands;
                 let (lhs, b1) = createResult F64Type (\<lambda>r. AffineLoadOp r gemmLhs [i, k]) nestedBuilder;
                 let (rhs, b2) = createResult F64Type (\<lambda>r. AffineLoadOp r gemmRhs [j, k]) b1;
                 let (mul, b3) = createResult F64Type (\<lambda>r. arith_MulFOp r lhs rhs) b2;
                 let (current, b4) = createResult F64Type (\<lambda>r. AffineLoadOp r alloc [i, j]) b3;
                 let (updated, b5) = createResult F64Type (\<lambda>r. arith_AddFOp r current mul) b4;
                 Some (snd (create (AffineStoreOp updated alloc [i, j]) b5))
               }) rw1 = Some rw2"
    and 3: "rw' = replaceOp op [alloc] rw2"
    unfolding GemmOpLowering_def
    by (auto split: Option.bind_splits prod.splits)
  have placed: "insertionPoint rw1 \<le> length (block rw1)"
    using insertAllocAndDealloc_placed[of rw ty] assms(1,2) 1 by simp
  have "extends rw1 rw2"
  proof (rule extends_buildAffineLoopNest[OF _ placed 2])
    fix ivs and nb nb' :: "'a PatternRewriter"
    assume nb: "insertionPoint nb \<le> length (block nb)"
      and "(do {
                 i \<leftarrow> elemAt ivs 0;
                 j \<leftarrow> elemAt ivs 1;
                 k \<leftarrow> elemAt ivs 2;
                 gemmLhs \<leftarrow> getLhs operands;
                 gemmRhs \<leftarrow> getRhs operands;
                 let (lhs, b1) = createResult F64Type (\<lambda>r. AffineLoadOp r gemmLhs [i, k]) nb;
                 let (rhs, b2) = createResult F64Type (\<lambda>r. AffineLoadOp r gemmRhs [j, k]) b1;
                 let (mul, b3) = createResult F64Type (\<lambda>r. arith_MulFOp r lhs rhs) b2;
                 let (current, b4) = createResult F64Type (\<lambda>r. AffineLoadOp r alloc [i, j]) b3;
                 let (updated, b5) = createResult F64Type (\<lambda>r. arith_AddFOp r current mul) b4;
                 Some (snd (create (AffineStoreOp updated alloc [i, j]) b5))
               }) = Some nb'"
    then obtain i j k gl gr l b1 r b2 m b3 c b4 u b5 where
      c1: "createResult F64Type (\<lambda>r. AffineLoadOp r gl [i, k]) nb = (l, b1)"
      and c2: "createResult F64Type (\<lambda>r. AffineLoadOp r gr [j, k]) b1 = (r, b2)"
      and c3: "createResult F64Type (\<lambda>x. arith_MulFOp x l r) b2 = (m, b3)"
      and c4: "createResult F64Type (\<lambda>r. AffineLoadOp r alloc [i, j]) b3 = (c, b4)"
      and c5: "createResult F64Type (\<lambda>r. arith_AddFOp r c m) b4 = (u, b5)"
      and c6: "nb' = snd (create (AffineStoreOp u alloc [i, j]) b5)"
      by (auto split: Option.bind_splits prod.splits)
    have e1: "extends nb b1" by (rule extends_createResult_eq[OF c1 nb])
    have e2: "extends b1 b2" by (rule extends_createResult_eq[OF c2 extends_placed[OF e1]])
    have e3: "extends b2 b3" by (rule extends_createResult_eq[OF c3 extends_placed[OF e2]])
    have e4: "extends b3 b4" by (rule extends_createResult_eq[OF c4 extends_placed[OF e3]])
    have e5: "extends b4 b5" by (rule extends_createResult_eq[OF c5 extends_placed[OF e4]])
    have e6: "extends b5 nb'" unfolding c6 by (rule extends_create[OF extends_placed[OF e5]])
    show "extends nb nb'"
      by (rule extends_trans[OF extends_trans[OF extends_trans[OF extends_trans[OF extends_trans[OF e1 e2] e3] e4] e5] e6])
  qed
  then have "extends (snd (insertAllocAndDealloc ty rw)) rw2"
    using 1 by simp
  from rewrite_keeps[OF assms(1,2) this] show ?thesis
    unfolding 3 .
qed


lemma extends_createConstantIndices:
  assumes "insertionPoint rw \<le> length (block rw)"
  shows "extends rw (snd (createConstantIndices is acc rw))"
  using assms
proof (induction "is" arbitrary: acc rw)
  case Nil
  then show ?case by (simp add: extends_refl)
next
  case (Cons i "is")
  obtain c rw1 where c: "createResult IndexType (\<lambda>r. arith_ConstantIndexOp r i) rw = (c, rw1)"
    by (cases "createResult IndexType (\<lambda>r. arith_ConstantIndexOp r i) rw") blast
  have e: "extends rw rw1" by (rule extends_createResult_eq[OF c Cons.prems])
  have "extends rw1 (snd (createConstantIndices is (acc @ [c]) rw1))"
    by (rule Cons.IH[OF extends_placed[OF e]])
  with e show ?case
    using c by (simp add: extends_trans)
qed

lemma extends_forEachM:
  assumes "\<And>i s s'. insertionPoint (rewriter s) \<le> length (block (rewriter s)) \<Longrightarrow>
             f i s = Some s' \<Longrightarrow> extends (rewriter s) (rewriter s')"
    and "insertionPoint (rewriter s) \<le> length (block (rewriter s))"
    and "forEachM xs f s = Some s'"
  shows "extends (rewriter s) (rewriter s')"
  using assms(2,3)
proof (induction xs arbitrary: s)
  case Nil
  then show ?case by (simp add: extends_refl)
next
  case (Cons x xs)
  from Cons.prems(2) obtain s1 where 1: "f x s = Some s1" and 2: "forEachM xs f s1 = Some s'"
    by (auto split: option.splits)
  have e: "extends (rewriter s) (rewriter s1)" by (rule assms(1)[OF Cons.prems(1) 1])
  have "extends (rewriter s1) (rewriter s')" by (rule Cons.IH[OF extends_placed[OF e] 2])
  with e show ?case by (rule extends_trans)
qed

lemma extends_storeElements:
  assumes "insertionPoint (rewriter st) \<le> length (block (rewriter st))"
    and "storeElements constantValue alloc constantIndices dims st = Some st'"
  shows "extends (rewriter st) (rewriter st')"
  using assms
proof (induction dims arbitrary: st st')
  case Nil
  from Nil.prems(2) obtain x c rw1 where
    1: "createResult F64Type (\<lambda>r. arith_ConstantOp r x) (rewriter st) = (c, rw1)"
    and 2: "rewriter st' = snd (create (AffineStoreOp c alloc (indices st)) rw1)"
    by (auto simp: Let_def split: Option.bind_splits prod.splits)
  have e: "extends (rewriter st) rw1" by (rule extends_createResult_eq[OF 1 Nil.prems(1)])
  have "extends rw1 (rewriter st')" unfolding 2 by (rule extends_create[OF extends_placed[OF e]])
  with e show ?case by (rule extends_trans)
next
  case (Cons e dims)
  let ?f = "\<lambda>i st1. do {
       idx \<leftarrow> elemAt constantIndices i;
       st2 \<leftarrow> storeElements constantValue alloc constantIndices dims
                (st1\<lparr>indices := indices st1 @ [idx]\<rparr>);
       Some (st2\<lparr>indices := butlast (indices st2)\<rparr>)
     }"
  from Cons.prems(2) have l: "forEachM [0..<e] ?f st = Some st'" by simp
  show ?case
  proof (rule extends_forEachM[OF _ Cons.prems(1) l])
    fix i and s s' :: "'a StoreState"
    assume p: "insertionPoint (rewriter s) \<le> length (block (rewriter s))" and "?f i s = Some s'"
    then obtain idx st2 where
      a: "storeElements constantValue alloc constantIndices dims (s\<lparr>indices := indices s @ [idx]\<rparr>) = Some st2"
      and b: "s' = st2\<lparr>indices := butlast (indices st2)\<rparr>"
      by (auto split: Option.bind_splits)
    have "extends (rewriter (s\<lparr>indices := indices s @ [idx]\<rparr>)) (rewriter st2)"
      by (rule Cons.IH[OF _ a]) (use p in simp)
    then show "extends (rewriter s) (rewriter s')"
      unfolding b by simp
  qed
qed

lemma ConstantOpLowering_keeps:
  assumes "block rw = pre @ X # rest" and "insertionPoint rw = length pre"
    and "ConstantOpLowering (pony_ConstantOp r xs) rw = Some (res, rw')"
  shows "set pre \<union> set rest \<subseteq> set (block rw')"
proof -
  from assms(3) obtain ty alloc rw1 idxs ci rw2 shape st where
    1: "insertAllocAndDealloc ty rw = (alloc, rw1)"
    and 2: "createConstantIndices idxs [] rw1 = (ci, rw2)"
    and 3: "storeElements xs alloc ci shape \<lparr>rewriter = rw2, indices = [], valueIt = 0\<rparr> = Some st"
    and 4: "rw' = replaceOp (pony_ConstantOp r xs) [alloc] (rewriter st)"
    by (auto simp: Let_def simp del: storeElements.simps createConstantIndices.simps
        split: Option.bind_splits prod.splits if_splits)
  have placed: "insertionPoint rw1 \<le> length (block rw1)"
    using insertAllocAndDealloc_placed[of rw ty] assms(1,2) 1 by simp
  have e1: "extends rw1 rw2"
    using extends_createConstantIndices[OF placed, of idxs "[]"] 2 by simp
  have "extends (rewriter \<lparr>rewriter = rw2, indices = [], valueIt = 0\<rparr>) (rewriter st)"
    by (rule extends_storeElements[OF _ 3]) (use extends_placed[OF e1] in simp)
  then have "extends rw2 (rewriter st)" by simp
  with e1 have "extends rw1 (rewriter st)" by (rule extends_trans)
  then have "extends (snd (insertAllocAndDealloc ty rw)) (rewriter st)"
    using 1 by simp
  from rewrite_keeps[OF assms(1,2) this] show ?thesis
    unfolding 4 .
qed

lemma FuncOpLowering_keeps:
  assumes "block rw = pre @ X # rest" and "insertionPoint rw = length pre"
    and "FuncOpLowering (pony_FuncOp name ins outs body) rw = Some (success, rw')"
  shows "block rw' = pre @ func_FuncOp name ins outs body # rest"
  using assms by (auto simp: create_def eraseOp_def split: if_splits)


lemma PrintOpLowering_keeps:
  assumes "block rw = pre @ X # rest" and "insertionPoint rw = length pre"
    and "PrintOpLowering (pony_PrintOp xs) ys rw = Some (res, rw')"
  shows "set pre \<union> set rest \<subseteq> set (block rw')"
  using assms by (auto simp: list_update_append)

lemma ReturnOpLowering_keeps:
  assumes "block rw = pre @ X # rest" and "insertionPoint rw = length pre"
    and "ReturnOpLowering (pony_ReturnOp xs) rw = Some (success, rw')"
  shows "set pre \<union> set rest \<subseteq> set (block rw')"
  using assms by (auto simp: create_def block_replaceOp split: if_splits)

text \<open>Whatever pattern succeeds on \<open>X\<close>, the other operations of the block stay.\<close>

lemma applyPatterns_keeps:
  assumes "block rw = pre @ X # rest" and "insertionPoint rw = length pre"
    and "applyPatterns X rw = Some (success, rw')"
  shows "set pre \<union> set rest \<subseteq> set (block rw')"
proof (cases X)
  case (pony_ConstantOp r xs)
  then show ?thesis using ConstantOpLowering_keeps[OF assms(1,2)] assms(3) by simp
next
  case (pony_AddOp r a b)
  then show ?thesis using BinaryOpLowering_keeps[OF assms(1,2)] assms(3)
    by (simp add: AddOpLowering_def)
next
  case (pony_MulOp r a b)
  then show ?thesis using BinaryOpLowering_keeps[OF assms(1,2)] assms(3)
    by (simp add: MulOpLowering_def)
next
  case (pony_GemmOp r a b)
  then show ?thesis using GemmOpLowering_keeps[OF assms(1,2)] assms(3) by simp
next
  case (pony_TransposeOp r a)
  then show ?thesis using TransposeOpLowering_keeps[OF assms(1,2)] assms(3) by simp
next
  case (pony_PrintOp xs)
  then show ?thesis using PrintOpLowering_keeps[OF assms(1,2), of xs "map (remap rw) xs" success rw'] assms(3)
    by simp
next
  case (pony_ReturnOp xs)
  then show ?thesis using ReturnOpLowering_keeps[OF assms(1,2)] assms(3) by simp
next
  case (pony_FuncOp name ins outs body)
  then show ?thesis using FuncOpLowering_keeps[OF assms(1,2)] assms(3) by auto
qed (use assms(3) in simp_all)

section \<open>What the driver leaves in place\<close>

lemma rewriteFirst_Rewritten:
  assumes "rewriteFirst is rw = Rewritten rw'" and "\<forall>i\<in>set is. i < length (block rw)"
  shows "\<exists>pre X rest. block rw = pre @ X # rest \<and> \<not> isLegal X \<and>
           applyPatterns X (rw\<lparr>insertionPoint := length pre\<rparr>) = Some (success, rw') \<and>
           illegalCount (block rw') < illegalCount (block rw)"
  using assms
proof (induction "is")
  case Nil
  then show ?case by simp
next
  case (Cons i "is")
  show ?case
  proof (cases "rewriteFirst is rw = Rewritten rw'")
    case True
    then show ?thesis using Cons by simp
  next
    case False
    with Cons.prems(1) have a: "\<not> isLegal (block rw ! i)"
      and b: "applyPatterns (block rw ! i) (rw\<lparr>insertionPoint := i\<rparr>) = Some (success, rw')"
      and c: "illegalCount (block rw') < illegalCount (block rw)"
      by (auto split: if_splits option.splits prod.splits LogicalResult.splits)
    from Cons.prems(2) have i: "i < length (block rw)" by simp
    have "block rw = take i (block rw) @ (block rw ! i) # drop (Suc i) (block rw)"
      using i by (simp add: id_take_nth_drop[symmetric])
    moreover have "length (take i (block rw)) = i"
      using i by simp
    ultimately show ?thesis
      using a b c by metis
  qed
qed

lemma rewriteFirst_NoRewrite:
  assumes "rewriteFirst is rw = NoRewrite" and "i \<in> set is" and "\<not> isLegal (block rw ! i)"
  shows "\<exists>r rw'. applyPatterns (block rw ! i) (rw\<lparr>insertionPoint := i\<rparr>) = Some (r, rw') \<and>
           (r = failure \<or> illegalCount (block rw) \<le> illegalCount (block rw'))"
  using assms
proof (induction "is")
  case Nil
  then show ?case by simp
next
  case (Cons j "is")
  show ?case
  proof (cases "i = j")
    case True
    with Cons.prems(1,3) show ?thesis
      by (cases "applyPatterns (block rw ! j) (rw\<lparr>insertionPoint := j\<rparr>)")
        (auto split: if_splits prod.splits LogicalResult.splits simp: not_less)
  next
    case False
    with Cons.prems have "rewriteFirst is rw = NoRewrite" "i \<in> set is"
      by (auto split: if_splits option.splits prod.splits LogicalResult.splits)
    then show ?thesis using Cons.IH Cons.prems(3) by blast
  qed
qed


lemma iterateRewrites_invariant:
  assumes step: "\<And>rw pre X rest rw'. P (block rw) \<Longrightarrow> block rw = pre @ X # rest \<Longrightarrow> \<not> isLegal X \<Longrightarrow>
             applyPatterns X (rw\<lparr>insertionPoint := length pre\<rparr>) = Some (success, rw') \<Longrightarrow> P (block rw')"
    and "P (block rw)" and "iterateRewrites k rw = Some rw'"
  shows "P (block rw')"
  using assms(2,3)
proof (induction k arbitrary: rw)
  case 0
  then show ?case by simp
next
  case (Suc k)
  show ?case
  proof (cases "rewriteFirst [0..<length (block rw)] rw")
    case Aborted
    then show ?thesis using Suc.prems by simp
  next
    case NoRewrite
    then show ?thesis using Suc.prems by simp
  next
    case (Rewritten rw1)
    then obtain pre X rest where "block rw = pre @ X # rest" "\<not> isLegal X"
      "applyPatterns X (rw\<lparr>insertionPoint := length pre\<rparr>) = Some (success, rw1)"
      using rewriteFirst_Rewritten[of "[0..<length (block rw)]" rw rw1] by auto
    then have "P (block rw1)"
      using step Suc.prems(1) by blast
    moreover have "iterateRewrites k rw1 = Some rw'"
      using Suc.prems(2) Rewritten by simp
    ultimately show ?thesis by (rule Suc.IH)
  qed
qed

text \<open>An operation that its pattern declines stays in its block.\<close>

lemma convertBlock_keeps:
  assumes declined: "\<And>rw. applyPatterns X rw = Some (failure, rw)"
    and "X \<in> set ops" and "convertBlock ops n m = Some rw'"
  shows "X \<in> set (block rw')"
proof (rule iterateRewrites_invariant[where P = "\<lambda>b. X \<in> set b", OF _ _ assms(3)[unfolded convertBlock_def]])
  show "X \<in> set (block \<lparr>block = ops, insertionPoint = 0, nextValueId = n, mapping = m\<rparr>)"
    using assms(2) by simp
next
  fix rw rw' :: "'a PatternRewriter" and pre Y rest
  assume x: "X \<in> set (block rw)" and b: "block rw = pre @ Y # rest"
    and a: "applyPatterns Y (rw\<lparr>insertionPoint := length pre\<rparr>) = Some (success, rw')"
  have "X \<noteq> Y" using a declined[of "rw\<lparr>insertionPoint := length pre\<rparr>"] by auto
  then have "X \<in> set pre \<union> set rest" using x b by auto
  moreover have "set pre \<union> set rest \<subseteq> set (block rw')"
    by (rule applyPatterns_keeps[OF _ _ a]) (use b in simp_all)
  ultimately show "X \<in> set (block rw')" by blast
qed

text \<open>The body of a function, for the two kinds of function; no other operation has one here.\<close>

fun bodyOf :: "'a Operation \<Rightarrow> 'a Operation list" where
  "bodyOf (func_FuncOp name ins outs body) = body"
| "bodyOf (pony_FuncOp name ins outs body) = body"
| "bodyOf _ = []"

lemma bodyOf_cases:
  assumes "R \<in> set (bodyOf f)"
  obtains name ins outs body where "f = func_FuncOp name ins outs body" "R \<in> set body"
  | name ins outs body where "f = pony_FuncOp name ins outs body" "R \<in> set body"
  using assms by (cases f) auto

text \<open>A function keeps its body while the operations of the module are rewritten.\<close>

lemma convertBlock_keeps_body:
  assumes "f \<in> set ops" and "R \<in> set (bodyOf f)" and "convertBlock ops n m = Some rw'"
  shows "\<exists>f'\<in>set (block rw'). R \<in> set (bodyOf f')"
proof (rule iterateRewrites_invariant[where P = "\<lambda>b. \<exists>f'\<in>set b. R \<in> set (bodyOf f')",
      OF _ _ assms(3)[unfolded convertBlock_def]])
  show "\<exists>f'\<in>set (block \<lparr>block = ops, insertionPoint = 0, nextValueId = n, mapping = m\<rparr>).
          R \<in> set (bodyOf f')"
    using assms(1,2) by auto
next
  fix rw rw' :: "'a PatternRewriter" and pre Y rest
  assume "\<exists>f'\<in>set (block rw). R \<in> set (bodyOf f')" and b: "block rw = pre @ Y # rest"
    and y: "\<not> isLegal Y"
    and a: "applyPatterns Y (rw\<lparr>insertionPoint := length pre\<rparr>) = Some (success, rw')"
  then obtain g where g: "g \<in> set (block rw)" "R \<in> set (bodyOf g)" by blast
  have keeps: "set pre \<union> set rest \<subseteq> set (block rw')"
    by (rule applyPatterns_keeps[OF _ _ a]) (use b in simp_all)
  show "\<exists>f'\<in>set (block rw'). R \<in> set (bodyOf f')"
  proof (cases "g = Y")
    case False
    then have "g \<in> set pre \<union> set rest" using g(1) b by auto
    then show ?thesis using keeps g(2) by blast
  next
    case True
    from g(2) show ?thesis
    proof (cases rule: bodyOf_cases)
      case (1 name ins outs body)
      then show ?thesis using y True by simp
    next
      case (2 name ins outs body)
      have "block rw' = pre @ func_FuncOp name ins outs body # rest"
        by (rule FuncOpLowering_keeps[of "rw\<lparr>insertionPoint := length pre\<rparr>" pre Y rest])
          (use a b 2 True in simp_all)
      then have "func_FuncOp name ins outs body \<in> set (block rw')" by simp
      then show ?thesis using 2(2) by force
    qed
  qed
qed

lemma convertBodies_pony_FuncOp:
  assumes "pony_FuncOp name ins outs body \<in> set ops" and "convertBodies ops n m = Some ops'"
  shows "\<exists>body'. pony_FuncOp name ins outs body' \<in> set ops'"
  using assms
  by (induction ops n m arbitrary: ops' rule: convertBodies.induct)
    (auto split: Option.bind_splits, (metis)+)

lemma convertBodies_keeps_body:
  assumes declined: "\<And>rw. applyPatterns R rw = Some (failure, rw)"
    and "f \<in> set ops" and "R \<in> set (bodyOf f)" and "convertBodies ops n m = Some ops'"
  shows "\<exists>f'\<in>set ops'. R \<in> set (bodyOf f')"
  using assms(2-)
  by (induction ops n m arbitrary: ops' rule: convertBodies.induct)
    (auto split: Option.bind_splits dest: convertBlock_keeps[OF declined])

lemma allLegal_isLegal: "allLegal op \<Longrightarrow> isLegal op"
  by (cases op) simp_all

lemma not_allLegal_body:
  assumes "f \<in> set ops" and "R \<in> set (bodyOf f)" and "\<not> isLegal R"
  shows "\<not> list_all allLegal ops"
proof -
  have "\<not> allLegal R" using assms(3) allLegal_isLegal by blast
  then have "\<not> allLegal f"
    using assms(2) by (cases f) (auto simp: list_all_iff)
  then show ?thesis using assms(1) by (auto simp: list_all_iff)
qed

section \<open>Entry points and returns\<close>

lemma FuncOpLowering_declines:
  assumes "name \<noteq> ''main'' \<or> ins \<noteq> [] \<or> outs \<noteq> []"
  shows "applyPatterns (pony_FuncOp name ins outs body) rw = Some (failure, rw)"
  using assms by auto

lemma ReturnOpLowering_declines:
  assumes "xs \<noteq> []"
  shows "applyPatterns (pony_ReturnOp xs) rw = Some (failure, rw)"
  using assms by auto

lemma runOnOperation_cases:
  assumes "convertBlock moduleOps n Map.empty = Some rw"
    and "convertBodies (block rw) (nextValueId rw) (mapping rw) = Some ops"
  shows "runOnOperation n moduleOps =
           Some (if list_all allLegal ops then PassSuccess ops else PassFailure)"
  using assms by (simp add: runOnOperation_def applyPartialConversion_def)

lemma runOnOperation_SomeD:
  assumes "runOnOperation n moduleOps = Some r"
  obtains rw ops where "convertBlock moduleOps n Map.empty = Some rw"
    and "convertBodies (block rw) (nextValueId rw) (mapping rw) = Some ops"
    and "r = (if list_all allLegal ops then PassSuccess ops else PassFailure)"
  using assms
  by (auto simp: runOnOperation_def applyPartialConversion_def split: Option.bind_splits if_splits)

lemma declined_function_fails:
  assumes "name \<noteq> ''main'' \<or> ins \<noteq> [] \<or> outs \<noteq> []"
    and "pony_FuncOp name ins outs body \<in> set moduleOps"
    and "runOnOperation n moduleOps = Some r"
  shows "r = PassFailure"
proof -
  from assms(3) obtain rw ops where 1: "convertBlock moduleOps n Map.empty = Some rw"
    and 2: "convertBodies (block rw) (nextValueId rw) (mapping rw) = Some ops"
    and 3: "r = (if list_all allLegal ops then PassSuccess ops else PassFailure)"
    by (rule runOnOperation_SomeD)
  have "pony_FuncOp name ins outs body \<in> set (block rw)"
    by (rule convertBlock_keeps[OF FuncOpLowering_declines[OF assms(1)] assms(2) 1])
  then obtain body' where "pony_FuncOp name ins outs body' \<in> set ops"
    using convertBodies_pony_FuncOp[OF _ 2] by blast
  moreover have "\<not> allLegal (pony_FuncOp name ins outs body')" by simp
  ultimately have "\<not> list_all allLegal ops"
    unfolding list_all_iff by blast
  then show ?thesis using 3 by simp
qed

lemma declined_return_fails:
  assumes "xs \<noteq> []" and "f \<in> set moduleOps" and "pony_ReturnOp xs \<in> set (bodyOf f)"
    and "runOnOperation n moduleOps = Some r"
  shows "r = PassFailure"
proof -
  from assms(4) obtain rw ops where 1: "convertBlock moduleOps n Map.empty = Some rw"
    and 2: "convertBodies (block rw) (nextValueId rw) (mapping rw) = Some ops"
    and 3: "r = (if list_all allLegal ops then PassSuccess ops else PassFailure)"
    by (rule runOnOperation_SomeD)
  from convertBlock_keeps_body[OF assms(2,3) 1] obtain g where
    "g \<in> set (block rw)" "pony_ReturnOp xs \<in> set (bodyOf g)" by blast
  from convertBodies_keeps_body[OF ReturnOpLowering_declines[OF assms(1)] this 2] obtain g' where
    "g' \<in> set ops" "pony_ReturnOp xs \<in> set (bodyOf g')" by blast
  then have "\<not> list_all allLegal ops"
    by (rule not_allLegal_body) simp
  then show ?thesis using 3 by simp
qed

text \<open>
  C7. A function that is not \<^verbatim>\<open>main\<close>, or that has an input or a result, and a return
  with an operand, are illegal and declined by their patterns, which leave the rewriter
  as it was. A module that holds such a function, or a function whose body holds such
  a return, is never converted: whenever the pass returns, it signals failure, and a
  failure carries no graph. The function \<^verbatim>\<open>main\<close> without inputs and results is
  replaced, in its place, by a \<^verbatim>\<open>func.func\<close> of the same name, type and body, and a
  return without operands by a \<^verbatim>\<open>func.return\<close>.
\<close>

theorem entry_point_and_return_lowering:
  "(name \<noteq> ''main'' \<or> ins \<noteq> [] \<or> outs \<noteq> [] \<longrightarrow>
      \<not> isLegal (pony_FuncOp name ins outs body) \<and>
      FuncOpLowering (pony_FuncOp name ins outs body) rw = Some (failure, rw) \<and>
      applyPatterns (pony_FuncOp name ins outs body) rw = Some (failure, rw) \<and>
      (pony_FuncOp name ins outs body \<in> set moduleOps \<longrightarrow>
         runOnOperation n moduleOps = None \<or> runOnOperation n moduleOps = Some PassFailure)) \<and>
   (xs \<noteq> [] \<longrightarrow>
      \<not> isLegal (pony_ReturnOp xs) \<and>
      ReturnOpLowering (pony_ReturnOp xs) rw = Some (failure, rw) \<and>
      applyPatterns (pony_ReturnOp xs) rw = Some (failure, rw) \<and>
      ((func_FuncOp f fins fouts fbody \<in> set moduleOps \<or>
        pony_FuncOp f fins fouts fbody \<in> set moduleOps) \<and> pony_ReturnOp xs \<in> set fbody \<longrightarrow>
         runOnOperation n moduleOps = None \<or> runOnOperation n moduleOps = Some PassFailure)) \<and>
   (block rwa = pre @ pony_FuncOp ''main'' [] [] body # post \<and> insertionPoint rwa = length pre \<longrightarrow>
      applyPatterns (pony_FuncOp ''main'' [] [] body) rwa =
        Some (success, rwa\<lparr>block := pre @ func_FuncOp ''main'' [] [] body # post,
                            insertionPoint := Suc (length pre)\<rparr>)) \<and>
   (block rwb = pre' @ pony_ReturnOp [] # post' \<and> insertionPoint rwb = length pre' \<longrightarrow>
      applyPatterns (pony_ReturnOp []) rwb =
        Some (success, rwb\<lparr>block := pre' @ func_ReturnOp # post',
                            insertionPoint := Suc (length pre')\<rparr>))"
proof (intro conjI impI)
  assume a: "name \<noteq> ''main'' \<or> ins \<noteq> [] \<or> outs \<noteq> []"
  show "\<not> isLegal (pony_FuncOp name ins outs body)" by simp
  show "FuncOpLowering (pony_FuncOp name ins outs body) rw = Some (failure, rw)"
    using a by auto
  show "applyPatterns (pony_FuncOp name ins outs body) rw = Some (failure, rw)"
    using a by auto
  assume "pony_FuncOp name ins outs body \<in> set moduleOps"
  from declined_function_fails[OF a this]
  show "runOnOperation n moduleOps = None \<or> runOnOperation n moduleOps = Some PassFailure"
    by (cases "runOnOperation n moduleOps") auto
next
  assume a: "xs \<noteq> []"
  show "\<not> isLegal (pony_ReturnOp xs)" by simp
  show "ReturnOpLowering (pony_ReturnOp xs) rw = Some (failure, rw)"
    using a by simp
  show "applyPatterns (pony_ReturnOp xs) rw = Some (failure, rw)"
    using a by simp
  assume b: "(func_FuncOp f fins fouts fbody \<in> set moduleOps \<or>
        pony_FuncOp f fins fouts fbody \<in> set moduleOps) \<and> pony_ReturnOp xs \<in> set fbody"
  then obtain g where "g \<in> set moduleOps" "pony_ReturnOp xs \<in> set (bodyOf g)"
    by (metis bodyOf.simps(1,2))
  from declined_return_fails[OF a this]
  show "runOnOperation n moduleOps = None \<or> runOnOperation n moduleOps = Some PassFailure"
    by (cases "runOnOperation n moduleOps") auto
next
  assume "block rwa = pre @ pony_FuncOp ''main'' [] [] body # post \<and> insertionPoint rwa = length pre"
  then show "applyPatterns (pony_FuncOp ''main'' [] [] body) rwa =
        Some (success, rwa\<lparr>block := pre @ func_FuncOp ''main'' [] [] body # post,
                            insertionPoint := Suc (length pre)\<rparr>)"
    by (simp add: create_def eraseOp_def)
next
  assume "block rwb = pre' @ pony_ReturnOp [] # post' \<and> insertionPoint rwb = length pre'"
  then show "applyPatterns (pony_ReturnOp []) rwb =
        Some (success, rwb\<lparr>block := pre' @ func_ReturnOp # post',
                            insertionPoint := Suc (length pre')\<rparr>)"
    by (simp add: create_def replaceOp_def eraseOp_def)
qed

theorem entry_point_and_return_lowering_witness:
  "applyPatterns (pony_FuncOp ''foo'' [] [] [pony_ReturnOp []])
     \<lparr>block = [pony_FuncOp ''foo'' [] [] [pony_ReturnOp [] :: real Operation]],
      insertionPoint = 0, nextValueId = 0, mapping = Map.empty\<rparr> =
     Some (failure,
       \<lparr>block = [pony_FuncOp ''foo'' [] [] [pony_ReturnOp []]],
        insertionPoint = 0, nextValueId = 0, mapping = Map.empty\<rparr>) \<and>
   applyPatterns (pony_ReturnOp [Value 0 F64Type])
     \<lparr>block = [pony_FuncOp ''foo'' [] [] [pony_ReturnOp [] :: real Operation]],
      insertionPoint = 0, nextValueId = 0, mapping = Map.empty\<rparr> =
     Some (failure,
       \<lparr>block = [pony_FuncOp ''foo'' [] [] [pony_ReturnOp []]],
        insertionPoint = 0, nextValueId = 0, mapping = Map.empty\<rparr>) \<and>
   runOnOperation 1
     [pony_FuncOp ''foo'' [] [] [pony_ReturnOp []],
      pony_FuncOp ''main'' [] [] [pony_ReturnOp [Value 0 F64Type]] :: real Operation] =
     Some PassFailure \<and>
   applyPatterns (pony_FuncOp ''main'' [] [] [pony_ReturnOp []])
     \<lparr>block = [pony_FuncOp ''main'' [] [] [pony_ReturnOp [] :: real Operation]],
      insertionPoint = 0, nextValueId = 0, mapping = Map.empty\<rparr> =
     Some (success,
       \<lparr>block = [func_FuncOp ''main'' [] [] [pony_ReturnOp []]],
        insertionPoint = 1, nextValueId = 0, mapping = Map.empty\<rparr>) \<and>
   applyPatterns (pony_ReturnOp [])
     \<lparr>block = [pony_PrintOp [], pony_ReturnOp [] :: real Operation],
      insertionPoint = 1, nextValueId = 0, mapping = Map.empty\<rparr> =
     Some (success,
       \<lparr>block = [pony_PrintOp [], func_ReturnOp],
        insertionPoint = 2, nextValueId = 0, mapping = Map.empty\<rparr>)"
proof -
  have run: "runOnOperation 1
     [pony_FuncOp ''foo'' [] [] [pony_ReturnOp []],
      pony_FuncOp ''main'' [] [] [pony_ReturnOp [Value 0 F64Type]] :: real Operation] \<noteq> None"
    by (simp add: runOnOperation_def applyPartialConversion_def convertBlock_def illegalCount_def
        create_def eraseOp_def replaceOp_def upt_conv_Cons)
  show ?thesis
    using entry_point_and_return_lowering[where name = "''foo''" and ins = "[]" and outs = "[]"
        and body = "[pony_ReturnOp []]" and xs = "[Value 0 F64Type]"
        and rw = "\<lparr>block = [pony_FuncOp ''foo'' [] [] [pony_ReturnOp [] :: real Operation]],
                     insertionPoint = 0, nextValueId = 0, mapping = Map.empty\<rparr>"
        and moduleOps = "[pony_FuncOp ''foo'' [] [] [pony_ReturnOp []],
                         pony_FuncOp ''main'' [] [] [pony_ReturnOp [Value 0 F64Type]]]"
        and n = 1 and f = "''main''" and fins = "[]" and fouts = "[]"
        and fbody = "[pony_ReturnOp [Value 0 F64Type]]"
        and rwa = "\<lparr>block = [pony_FuncOp ''main'' [] [] [pony_ReturnOp [] :: real Operation]],
                     insertionPoint = 0, nextValueId = 0, mapping = Map.empty\<rparr>"
        and pre = "[]" and post = "[]"
        and rwb = "\<lparr>block = [pony_PrintOp [], pony_ReturnOp [] :: real Operation],
                     insertionPoint = 1, nextValueId = 0, mapping = Map.empty\<rparr>"
        and pre' = "[pony_PrintOp []]" and post' = "[]"] run
    by (auto simp: create_def eraseOp_def replaceOp_def)
qed

section \<open>The fixed point of the driver\<close>

lemma illegalCount_le_length: "illegalCount ops \<le> length ops"
  by (simp add: illegalCount_def)

lemma rewriteFirst_all_legal:
  assumes "illegalCount (block rw) = 0" and "\<forall>i\<in>set is. i < length (block rw)"
  shows "rewriteFirst is rw = NoRewrite"
  using assms(2)
proof (induction "is")
  case Nil
  then show ?case by simp
next
  case (Cons i "is")
  have "\<forall>op\<in>set (block rw). isLegal op"
    using assms(1) by (auto simp: illegalCount_def filter_empty_conv)
  then have "isLegal (block rw ! i)"
    using Cons.prems by simp
  then show ?case using Cons by simp
qed

lemma iterateRewrites_fixed:
  assumes "illegalCount (block rw) \<le> k" and "iterateRewrites k rw = Some rw'"
  shows "rewriteFirst [0..<length (block rw')] rw' = NoRewrite"
  using assms
proof (induction k arbitrary: rw)
  case 0
  then have "rw' = rw" "illegalCount (block rw) = 0" by simp_all
  then show ?case using rewriteFirst_all_legal[of rw' "[0..<length (block rw')]"] by simp
next
  case (Suc k)
  show ?case
  proof (cases "rewriteFirst [0..<length (block rw)] rw")
    case Aborted
    then show ?thesis using Suc.prems by simp
  next
    case NoRewrite
    then show ?thesis using Suc.prems by simp
  next
    case (Rewritten rw1)
    then have "illegalCount (block rw1) < illegalCount (block rw)"
      using rewriteFirst_Rewritten[of "[0..<length (block rw)]" rw rw1] by auto
    then have "illegalCount (block rw1) \<le> k" using Suc.prems(1) by simp
    moreover have "iterateRewrites k rw1 = Some rw'"
      using Suc.prems(2) Rewritten by simp
    ultimately show ?thesis by (rule Suc.IH)
  qed
qed

lemma convertBlock_fixed:
  assumes "convertBlock ops n m = Some rw"
  shows "rewriteFirst [0..<length (block rw)] rw = NoRewrite"
  by (rule iterateRewrites_fixed[OF _ assms[unfolded convertBlock_def]])
    (simp add: illegalCount_le_length)

section \<open>Failure of the conversion\<close>

lemma isLegal_iff:
  "\<not> isLegal op \<longleftrightarrow>
     (\<exists>xs. op = pony_PrintOp xs \<and> (\<exists>v\<in>set xs. isaTensorType (getType v))) \<or>
     (\<exists>r xs. op = pony_ConstantOp r xs) \<or> (\<exists>r a b. op = pony_AddOp r a b) \<or>
     (\<exists>r a b. op = pony_MulOp r a b) \<or> (\<exists>r a b. op = pony_GemmOp r a b) \<or>
     (\<exists>r a. op = pony_TransposeOp r a) \<or> (\<exists>xs. op = pony_ReturnOp xs) \<or>
     (\<exists>name ins outs body. op = pony_FuncOp name ins outs body)"
  by (cases op) (auto simp: list_ex_iff)

text \<open>
  C3. The driver ends at a fixed point: no illegal operation of the block is left
  that a pattern rewrites; for each illegal operation that remains, the pattern declines
  or its rewrite leaves no fewer illegal operations. The illegal operations are those of
  the \<^verbatim>\<open>pony\<close> dialect, a print being illegal exactly when one of its operands has a
  tensor type. When the graph the driver ends with holds an illegal operation, at the
  top or nested in a function or a loop, the conversion fails and hands back the
  module it was given, and the pass signals failure. So a conversion that returns
  gives either success with a graph whose every operation is legal, or failure with the
  module unchanged; a pass that succeeds returns a graph whose every operation is legal.
\<close>

theorem conversion_fails_atomically:
  "(convertBlock ops k mp = Some rw \<longrightarrow>
      rewriteFirst [0..<length (block rw)] rw = NoRewrite \<and>
      (\<forall>i<length (block rw). \<not> isLegal (block rw ! i) \<longrightarrow>
         (\<exists>r rw'. applyPatterns (block rw ! i) (rw\<lparr>insertionPoint := i\<rparr>) = Some (r, rw') \<and>
            (r = failure \<or> illegalCount (block rw) \<le> illegalCount (block rw'))))) \<and>
   (\<not> isLegal op \<longleftrightarrow>
     (\<exists>xs. op = pony_PrintOp xs \<and> (\<exists>v\<in>set xs. isaTensorType (getType v))) \<or>
     (\<exists>r xs. op = pony_ConstantOp r xs) \<or> (\<exists>r a b. op = pony_AddOp r a b) \<or>
     (\<exists>r a b. op = pony_MulOp r a b) \<or> (\<exists>r a b. op = pony_GemmOp r a b) \<or>
     (\<exists>r a. op = pony_TransposeOp r a) \<or> (\<exists>xs. op = pony_ReturnOp xs) \<or>
     (\<exists>name ins outs body. op = pony_FuncOp name ins outs body)) \<and>
   (convertBlock moduleOps n Map.empty = Some rw1 \<and>
    convertBodies (block rw1) (nextValueId rw1) (mapping rw1) = Some g \<and>
    \<not> list_all allLegal g \<longrightarrow>
      applyPartialConversion n moduleOps = Some (failure, moduleOps) \<and>
      runOnOperation n moduleOps = Some PassFailure) \<and>
   (applyPartialConversion n moduleOps = Some (res, g') \<longrightarrow>
      (res = success \<and> list_all allLegal g') \<or> (res = failure \<and> g' = moduleOps)) \<and>
   (runOnOperation n' moduleOps' = Some (PassSuccess g'') \<longrightarrow> list_all allLegal g'')"
proof (intro conjI impI allI)
  assume c: "convertBlock ops k mp = Some rw"
  show fx: "rewriteFirst [0..<length (block rw)] rw = NoRewrite"
    by (rule convertBlock_fixed[OF c])
  fix i
  assume "i < length (block rw)" "\<not> isLegal (block rw ! i)"
  then show "\<exists>r rw'. applyPatterns (block rw ! i) (rw\<lparr>insertionPoint := i\<rparr>) = Some (r, rw') \<and>
            (r = failure \<or> illegalCount (block rw) \<le> illegalCount (block rw'))"
    using rewriteFirst_NoRewrite[OF fx, of i] by simp
next
  show "\<not> isLegal op \<longleftrightarrow>
     (\<exists>xs. op = pony_PrintOp xs \<and> (\<exists>v\<in>set xs. isaTensorType (getType v))) \<or>
     (\<exists>r xs. op = pony_ConstantOp r xs) \<or> (\<exists>r a b. op = pony_AddOp r a b) \<or>
     (\<exists>r a b. op = pony_MulOp r a b) \<or> (\<exists>r a b. op = pony_GemmOp r a b) \<or>
     (\<exists>r a. op = pony_TransposeOp r a) \<or> (\<exists>xs. op = pony_ReturnOp xs) \<or>
     (\<exists>name ins outs body. op = pony_FuncOp name ins outs body)"
    by (rule isLegal_iff)
next
  assume a: "convertBlock moduleOps n Map.empty = Some rw1 \<and>
    convertBodies (block rw1) (nextValueId rw1) (mapping rw1) = Some g \<and>
    \<not> list_all allLegal g"
  then show "applyPartialConversion n moduleOps = Some (failure, moduleOps)"
    by (simp add: applyPartialConversion_def)
  from a show "runOnOperation n moduleOps = Some PassFailure"
    by (simp add: runOnOperation_def applyPartialConversion_def)
next
  assume "applyPartialConversion n moduleOps = Some (res, g')"
  then show "(res = success \<and> list_all allLegal g') \<or> (res = failure \<and> g' = moduleOps)"
    by (auto simp: applyPartialConversion_def split: Option.bind_splits if_splits)
next
  assume "runOnOperation n' moduleOps' = Some (PassSuccess g'')"
  then show "list_all allLegal g''"
    by (auto simp: runOnOperation_def applyPartialConversion_def split: Option.bind_splits if_splits)
qed


theorem conversion_fails_atomically_witness:
  "convertBlock [pony_FuncOp ''main'' [] [] [pony_ReturnOp []],
                 pony_FuncOp ''foo'' [] [] [pony_ReturnOp [] :: real Operation]] 0 Map.empty =
     Some \<lparr>block = [func_FuncOp ''main'' [] [] [pony_ReturnOp []],
                     pony_FuncOp ''foo'' [] [] [pony_ReturnOp []]],
           insertionPoint = 1, nextValueId = 0, mapping = Map.empty\<rparr> \<and>
   rewriteFirst [0..<2]
     \<lparr>block = [func_FuncOp ''main'' [] [] [pony_ReturnOp []],
               pony_FuncOp ''foo'' [] [] [pony_ReturnOp [] :: real Operation]],
      insertionPoint = 1, nextValueId = 0, mapping = Map.empty\<rparr> = NoRewrite \<and>
   convertBodies [func_FuncOp ''main'' [] [] [pony_ReturnOp []],
                  pony_FuncOp ''foo'' [] [] [pony_ReturnOp [] :: real Operation]] 0 Map.empty =
     Some [func_FuncOp ''main'' [] [] [func_ReturnOp], pony_FuncOp ''foo'' [] [] [func_ReturnOp]] \<and>
   \<not> list_all allLegal
       [func_FuncOp ''main'' [] [] [func_ReturnOp],
        pony_FuncOp ''foo'' [] [] [func_ReturnOp :: real Operation]] \<and>
   applyPartialConversion 0
     [pony_FuncOp ''main'' [] [] [pony_ReturnOp []],
      pony_FuncOp ''foo'' [] [] [pony_ReturnOp [] :: real Operation]] =
     Some (failure, [pony_FuncOp ''main'' [] [] [pony_ReturnOp []],
                     pony_FuncOp ''foo'' [] [] [pony_ReturnOp []]]) \<and>
   runOnOperation 0
     [pony_FuncOp ''main'' [] [] [pony_ReturnOp []],
      pony_FuncOp ''foo'' [] [] [pony_ReturnOp [] :: real Operation]] = Some PassFailure \<and>
   \<not> isLegal (pony_PrintOp [Value 0 (RankedTensorType [2])] :: real Operation) \<and>
   runOnOperation 0 [pony_FuncOp ''main'' [] [] [pony_ReturnOp [] :: real Operation]] =
     Some (PassSuccess [func_FuncOp ''main'' [] [] [func_ReturnOp]]) \<and>
   list_all allLegal [func_FuncOp ''main'' [] [] [func_ReturnOp :: real Operation]]"
proof -
  let ?M = "[pony_FuncOp ''main'' [] [] [pony_ReturnOp []],
             pony_FuncOp ''foo'' [] [] [pony_ReturnOp [] :: real Operation]]"
  let ?RW = "\<lparr>block = [func_FuncOp ''main'' [] [] [pony_ReturnOp []],
                      pony_FuncOp ''foo'' [] [] [pony_ReturnOp [] :: real Operation]],
             insertionPoint = 1, nextValueId = 0, mapping = Map.empty\<rparr>"
  let ?G = "[func_FuncOp ''main'' [] [] [func_ReturnOp],
             pony_FuncOp ''foo'' [] [] [func_ReturnOp :: real Operation]]"
  have cb: "convertBlock ?M 0 Map.empty = Some ?RW"
    by (simp add: convertBlock_def illegalCount_def create_def eraseOp_def upt_conv_Cons)
  have bodies: "convertBodies (block ?RW) (nextValueId ?RW) (mapping ?RW) = Some ?G"
    by (simp add: convertBlock_def illegalCount_def create_def eraseOp_def replaceOp_def upt_conv_Cons)
  have run: "runOnOperation 0 [pony_FuncOp ''main'' [] [] [pony_ReturnOp [] :: real Operation]] =
               Some (PassSuccess [func_FuncOp ''main'' [] [] [func_ReturnOp]])"
    by (simp add: runOnOperation_def applyPartialConversion_def convertBlock_def illegalCount_def
        create_def eraseOp_def replaceOp_def upt_conv_Cons)
  show ?thesis
    using conversion_fails_atomically[where ops = ?M and k = 0 and mp = Map.empty and rw = ?RW
        and op = "pony_PrintOp [Value 0 (RankedTensorType [2])]"
        and moduleOps = ?M and n = 0 and ?rw1.0 = ?RW and g = ?G and res = failure and g' = ?M
        and n' = 0 and moduleOps' = "[pony_FuncOp ''main'' [] [] [pony_ReturnOp []]]"
        and g'' = "[func_FuncOp ''main'' [] [] [func_ReturnOp]]"] cb bodies run
    by (simp add: eval_nat_numeral)
qed

end
